(* ===== verification/Prelude.thy ===== *)
theory Prelude
  imports Main "HOL-Library.Sublist"
begin

text \<open>
  Shared vocabulary of the development: the errors the Go code returns and the result
  type that carries them, the parts of the Go standard library the sources use on strings
  and JSON documents, the environment of one call (clock and random source), and the
  relational operations on tables kept as lists of rows.

  Errors are values. An error wrapped by \<^verbatim>\<open>fmt.Errorf("...: %w", err)\<close> is identified with
  the wrapped error, because the code only ever inspects errors with \<^verbatim>\<open>errors.Is\<close> and
  \<^verbatim>\<open>errors.As\<close>, which look through such wrappers; \<^verbatim>\<open>consumer.Permanent\<close> is a constructor of its
  own because the consumer loop asks for it.
\<close>

named_theorems table_simps \<open>how selections behave under updates and inserts\<close>
named_theorems result_simps \<open>when a chain of fallible steps succeeds\<close>

subsection \<open>Errors and results\<close>

record provider_error =
  pe_Message :: string
  pe_Code :: string
  pe_Retryable :: bool

datatype ErrorKind = ErrorRetryable | ErrorPermanent | ErrorUserAction | ErrorUnauthorized

record APIError =
  ae_StatusCode :: int
  ae_Code :: string
  ae_Message :: string
  ae_Kind :: ErrorKind

datatype err =
    ErrText string
  | ErrNoRows
  | ErrConstraint string
  | ErrPaymentNotFound
  | ErrIdempotencyConflict
  | ErrPaymentNotRefundable
  | ErrRefundAmountExceeded
  | ErrInvalidPaymentStatus
  | ErrSagaNotFound
  | ErrNotInManualReview
  | ErrSubmissionUnknown
  | ErrQuoteIdempotencyConflict
  | ErrPayinNotFound
  | ErrPayinIdempotencyConflict
  | ErrEventNotDeadLettered
  | ErrDeliveryNotFailed
  | ErrDiscrepancyNotOpen
  | ErrReferenceNotFound
  | ErrCustomerNotApproved
  | ErrBankAccountNotApproved
  | ErrManagedWalletInactive
  | ErrInvalidAPIKey
  | ErrWebhookEndpointLimit
  | ErrWebhookEndpointDuplicate
  | ErrWebhookEndpointNotFound
  | ErrInvalidWebhookURL
  | ErrAPI APIError
  | ErrProvider provider_error
  | Permanent err

type_synonym 'a result = "err + 'a"

fun IsPermanent :: "err \<Rightarrow> bool" where
  "IsPermanent (Permanent e) = True"
| "IsPermanent e = False"

fun bindE :: "'a result \<Rightarrow> ('a \<Rightarrow> 'b result) \<Rightarrow> 'b result" where
  "bindE (Inl e) f = Inl e"
| "bindE (Inr x) f = f x"

lemma bindE_Inr_iff [result_simps]:
  "bindE m f = Inr y \<longleftrightarrow> (\<exists>x. m = Inr x \<and> f x = Inr y)"
  by (cases m) auto

lemma bindE_Inl_iff [result_simps]:
  "bindE m f = Inl e \<longleftrightarrow> m = Inl e \<or> (\<exists>x. m = Inr x \<and> f x = Inl e)"
  by (cases m) auto

lemma not_isl_Inr: "\<not> isl r \<Longrightarrow> \<exists>x. r = Inr x"
  by (cases r) auto

lemma bindE_assoc [simp]: "bindE (bindE m f) g = bindE m (\<lambda>x. bindE (f x) g)"
  by (cases m) auto

lemma bindE_Inr_right [simp]: "bindE m Inr = m"
  by (cases m) auto

lemma bindE_cong [fundef_cong]:
  "m = m' \<Longrightarrow> (\<And>x. m' = Inr x \<Longrightarrow> f x = g x) \<Longrightarrow> bindE m f = bindE m' g"
  by (cases m') auto

text \<open>A loop that applies a fallible step to every element and stops at the first error.\<close>

fun foldE :: "('a \<Rightarrow> 's \<Rightarrow> 's result) \<Rightarrow> 'a list \<Rightarrow> 's \<Rightarrow> 's result" where
  "foldE f [] s = Inr s"
| "foldE f (x # xs) s = bindE (f x s) (foldE f xs)"

lemma foldE_append: "foldE f (xs @ ys) s = bindE (foldE f xs s) (foldE f ys)"
  by (induction xs arbitrary: s) (auto intro: bindE_cong)

lemma foldE_invariant:
  assumes "foldE f xs s = Inr t" and "P s"
    and "\<And>x s t. x \<in> set xs \<Longrightarrow> P s \<Longrightarrow> f x s = Inr t \<Longrightarrow> P t"
  shows "P t"
  using assms
proof (induction xs arbitrary: s)
  case Nil
  then show ?case by simp
next
  case (Cons x xs)
  from Cons.prems(1) obtain s' where s': "f x s = Inr s'" and rest: "foldE f xs s' = Inr t"
    by (auto simp: result_simps)
  from Cons.prems(3) [OF _ Cons.prems(2) s'] have "P s'" by simp
  then show ?case
    using Cons.IH [OF rest] Cons.prems(3) by (meson list.set_intros(2))
qed

subsection \<open>The environment of a call\<close>

text \<open>
  \<open>env_now\<close> is the clock reading of the call, in nanoseconds since Go's zero time (so the zero
  time is 0); \<open>env_rand n\<close> is the hexadecimal text of the call's \<open>n\<close>-th draw from
  \<^verbatim>\<open>crypto/rand\<close>, \<open>None\<close> when the read fails.
\<close>

type_synonym time = int
type_synonym duration = int

record env =
  env_now :: time
  env_rand :: "nat \<Rightarrow> string option"

definition newID :: "string \<Rightarrow> nat \<Rightarrow> env \<Rightarrow> string result" where
  "newID pre i e =
     (case env_rand e i of None \<Rightarrow> Inl (ErrText ''rand.Read'') | Some h \<Rightarrow> Inr (pre @ h))"

lemma newID_Inr [result_simps]:
  "newID pre i e = Inr x \<longleftrightarrow> (\<exists>h. env_rand e i = Some h \<and> x = pre @ h)"
  by (auto simp: newID_def split: option.splits)

definition Second :: duration where
  "Second = 1000000000"

definition Minute :: duration where
  "Minute = 60000000000"

definition Hour :: duration where
  "Hour = 60 * Minute"

text \<open>A configuration value for which zero means the default.\<close>

definition or_default :: "int \<Rightarrow> int \<Rightarrow> int" where
  "or_default v d = (if v = 0 then d else v)"

text \<open>Decimal numbers: \<^verbatim>\<open>strconv.FormatInt(i, 10)\<close> and the \<open>%d\<close> of \<^verbatim>\<open>fmt\<close>.\<close>

function digits :: "int \<Rightarrow> string" where
  "digits n = (if n < 10 then [char_of (48 + n)] else digits (n div 10) @ [char_of (48 + n mod 10)])"
  by pat_completeness auto
termination
  by (relation "measure nat") auto

declare digits.simps [simp del]

definition FormatInt :: "int \<Rightarrow> string" where
  "FormatInt i = (if i < 0 then ''-'' @ digits (- i) else digits i)"

text \<open>\<open>err_text\<close> is \<^verbatim>\<open>error.Error()\<close>, without the context that \<^verbatim>\<open>fmt.Errorf\<close> wraps around it.\<close>

definition APIError_Error :: "APIError \<Rightarrow> string" where
  "APIError_Error e = ''BlindPay API ('' @ FormatInt (ae_StatusCode e) @ '', '' @ ae_Code e @ ''): '' @ ae_Message e"

fun err_text :: "err \<Rightarrow> string" where
  "err_text (ErrText t) = t"
| "err_text ErrNoRows = ''sql: no rows in result set''"
| "err_text (ErrConstraint t) = ''violates constraint of '' @ t"
| "err_text ErrPaymentNotFound = ''payment not found''"
| "err_text ErrIdempotencyConflict = ''idempotency key is bound to a different request''"
| "err_text ErrPaymentNotRefundable = ''payment is not refundable''"
| "err_text ErrRefundAmountExceeded = ''refund amount exceeds the remaining refundable amount''"
| "err_text ErrInvalidPaymentStatus = ''invalid payment status''"
| "err_text ErrSagaNotFound = ''payment saga not found''"
| "err_text ErrNotInManualReview = ''payment saga is not in manual review''"
| "err_text ErrSubmissionUnknown = ''payout submission outcome is unknown''"
| "err_text ErrQuoteIdempotencyConflict = ''idempotency key is bound to another payout quote''"
| "err_text ErrPayinNotFound = ''payin not found''"
| "err_text ErrPayinIdempotencyConflict = ''idempotency key is bound to another payin quote''"
| "err_text ErrEventNotDeadLettered = ''outbox event is not dead-lettered''"
| "err_text ErrDeliveryNotFailed = ''webhook delivery is not failed''"
| "err_text ErrDiscrepancyNotOpen = ''reconciliation discrepancy is not open''"
| "err_text ErrReferenceNotFound = ''BlindPay reference not found''"
| "err_text ErrCustomerNotApproved = ''BlindPay customer is not approved''"
| "err_text ErrBankAccountNotApproved = ''BlindPay bank account is not approved''"
| "err_text ErrManagedWalletInactive = ''BlindPay managed wallet is inactive''"
| "err_text ErrInvalidAPIKey = ''invalid API key''"
| "err_text ErrWebhookEndpointLimit = ''tenant already has the maximum number of active webhook endpoints''"
| "err_text ErrWebhookEndpointDuplicate = ''tenant already has an active webhook endpoint for this URL''"
| "err_text ErrWebhookEndpointNotFound = ''active webhook endpoint not found''"
| "err_text ErrInvalidWebhookURL = ''webhook URL must be an HTTPS public address''"
| "err_text (ErrAPI e) = APIError_Error e"
| "err_text (ErrProvider p) = pe_Message p"
| "err_text (Permanent e) = err_text e"

subsection \<open>Strings\<close>

definition is_space :: "char \<Rightarrow> bool" where
  "is_space c \<longleftrightarrow> c \<in> {CHR '' '', CHR 0x09, CHR 0x0A, CHR 0x0B, CHR 0x0C, CHR 0x0D}"

definition TrimSpace :: "string \<Rightarrow> string" where
  "TrimSpace s = rev (dropWhile is_space (rev (dropWhile is_space s)))"

definition lower_char :: "char \<Rightarrow> char" where
  "lower_char c = (let n = (of_char c :: nat) in if 65 \<le> n \<and> n \<le> 90 then char_of (n + 32) else c)"

definition upper_char :: "char \<Rightarrow> char" where
  "upper_char c = (let n = (of_char c :: nat) in if 97 \<le> n \<and> n \<le> 122 then char_of (n - 32) else c)"

definition ToLower :: "string \<Rightarrow> string" where
  "ToLower = map lower_char"

definition ToUpper :: "string \<Rightarrow> string" where
  "ToUpper = map upper_char"

definition HasPrefix :: "string \<Rightarrow> string \<Rightarrow> bool" where
  "HasPrefix s p \<longleftrightarrow> prefix p s"

definition CutPrefix :: "string \<Rightarrow> string \<Rightarrow> string \<times> bool" where
  "CutPrefix s p = (if prefix p s then (drop (length p) s, True) else (s, False))"

lemma CutPrefix_append [simp]: "CutPrefix (p @ s) p = (s, True)"
  by (simp add: CutPrefix_def)

subsection \<open>JSON documents\<close>

text \<open>
  A \<^verbatim>\<open>json.RawMessage\<close> is empty, bytes that are no JSON document, or a document. A number is an integer in
  its plain decimal form, or the text of any other numeral. Decoding a
  string field of a struct follows \<^verbatim>\<open>encoding/json\<close>: keys match without regard to (ASCII)
  case, later members overwrite earlier ones, \<^verbatim>\<open>null\<close> leaves the field alone, any other type is an
  error, and a missing member leaves the zero value.
\<close>

datatype json =
    JNull
  | JBool bool
  | JNum int
  | JReal string
  | JStr string
  | JArr "json list"
  | JObj "(string \<times> json) list"

datatype raw = RawEmpty | RawInvalid | Raw json

fun json_Valid :: "raw \<Rightarrow> bool" where
  "json_Valid (Raw j) = True"
| "json_Valid r = False"

fun decode_str :: "string \<Rightarrow> (string \<times> json) list \<Rightarrow> string \<Rightarrow> string option" where
  "decode_str f [] cur = Some cur"
| "decode_str f ((k, v) # rest) cur =
     (if ToLower k = ToLower f
      then (case v of JStr s \<Rightarrow> decode_str f rest s | JNull \<Rightarrow> decode_str f rest cur | _ \<Rightarrow> None)
      else decode_str f rest cur)"

fun Unmarshal_str :: "string \<Rightarrow> raw \<Rightarrow> string option" where
  "Unmarshal_str f (Raw (JObj fs)) = decode_str f fs ''''"
| "Unmarshal_str f (Raw JNull) = Some ''''"
| "Unmarshal_str f r = None"

fun raw_json :: "raw \<Rightarrow> json" where
  "raw_json (Raw j) = j"
| "raw_json r = JNull"

text \<open>\<open>at_json\<close> is the JSON encoding of a time in an event payload.\<close>

definition at_json :: "time \<Rightarrow> json" where
  "at_json at = JNum at"

subsection \<open>Tables\<close>

text \<open>
  A table is the list of its rows in insertion order. \<open>update_where\<close> is
  \<^verbatim>\<open>UPDATE ... WHERE\<close>, \<open>affected\<close> its \<^verbatim>\<open>RowsAffected\<close>, and \<^const>\<open>List.find\<close> a query that
  reads one row.
\<close>

definition update_where :: "('r \<Rightarrow> bool) \<Rightarrow> ('r \<Rightarrow> 'r) \<Rightarrow> 'r list \<Rightarrow> 'r list" where
  "update_where P f t = map (\<lambda>r. if P r then f r else r) t"

definition affected :: "('r \<Rightarrow> bool) \<Rightarrow> 'r list \<Rightarrow> nat" where
  "affected P t = length (filter P t)"

lemma update_where_simps [simp]:
  "update_where P f [] = []"
  "update_where P f (r # t) = (if P r then f r else r) # update_where P f t"
  by (simp_all add: update_where_def)

lemma affected_simps [simp]:
  "affected P [] = 0"
  "affected P (r # t) = (if P r then Suc (affected P t) else affected P t)"
  by (simp_all add: affected_def)

lemma set_update_where: "set (update_where P f t) = (\<lambda>r. if P r then f r else r) ` set t"
  by (simp add: update_where_def)

lemma length_update_where [simp]: "length (update_where P f t) = length t"
  by (simp add: update_where_def)

lemma update_where_append [table_simps]:
  "update_where P f (t @ u) = update_where P f t @ update_where P f u"
  by (simp add: update_where_def)

lemma map_update_where [table_simps]:
  "(\<And>r. P r \<Longrightarrow> g (f r) = g r) \<Longrightarrow> map g (update_where P f t) = map g t"
  by (simp add: update_where_def)

lemma list_all_update_where [table_simps]:
  "(\<And>r. P r \<Longrightarrow> Q (f r) = Q r) \<Longrightarrow> list_all Q (update_where P f t) = list_all Q t"
  by (induction t) auto

lemma list_ex_update_where [table_simps]:
  "(\<And>r. P r \<Longrightarrow> Q (f r) = Q r) \<Longrightarrow> list_ex Q (update_where P f t) = list_ex Q t"
  by (induction t) auto

lemma update_where_none: "(\<And>r. r \<in> set t \<Longrightarrow> \<not> P r) \<Longrightarrow> update_where P f t = t"
  by (induction t) auto

lemma find_append: "List.find P (t @ u) = (case List.find P t of None \<Rightarrow> List.find P u | Some r \<Rightarrow> Some r)"
  by (induction t) auto

lemma find_Some_memb: "List.find P t = Some r \<Longrightarrow> r \<in> set t \<and> P r"
  by (induction t) (auto split: if_splits)

lemma find_None_iff_all: "List.find P t = None \<longleftrightarrow> (\<forall>r\<in>set t. \<not> P r)"
  by (induction t) auto

lemma find_unique_key:
  "distinct (map key t) \<Longrightarrow> r \<in> set t \<Longrightarrow> List.find (\<lambda>x. key x = key r) t = Some r"
  by (induction t) (auto simp: image_iff)

lemma distinct_map_filter: "distinct (map f t) \<Longrightarrow> distinct (map f (filter P t))"
  by (induction t) auto

lemma find_key_Some_iff:
  "distinct (map key t) \<Longrightarrow> List.find (\<lambda>x. key x = k) t = Some r \<longleftrightarrow> r \<in> set t \<and> key r = k"
  using find_unique_key [of key t r] find_Some_memb [of "\<lambda>x. key x = k" t r] by auto

text \<open>Reading by a key that the update does not change.\<close>

lemma find_update_where [table_simps]:
  assumes "\<And>r. Q (f r) = Q r"
  shows "List.find Q (update_where P f t) = map_option (\<lambda>r. if P r then f r else r) (List.find Q t)"
  using assms by (induction t) auto

lemma affected_zero_iff: "affected P t = 0 \<longleftrightarrow> (\<forall>r\<in>set t. \<not> P r)"
  by (induction t) auto

lemma affected_le_1_key:
  "distinct (map key t) \<Longrightarrow> affected (\<lambda>r. key r = k \<and> P r) t \<le> 1"
proof (induction t)
  case (Cons r t)
  have "key r = k \<Longrightarrow> affected (\<lambda>r. key r = k \<and> P r) t = 0"
    using Cons.prems by (simp add: affected_zero_iff) (metis image_eqI)
  then show ?case using Cons by auto
qed simp

end
