(* ===== verification/Events.thy ===== *)
theory Events
  imports Prelude
begin

text \<open>
  Package \<^verbatim>\<open>eventbus\<close>: the event envelope and its validation (\<^verbatim>\<open>event.go\<close>), the topic names
  (\<^verbatim>\<open>topics.go\<close>), and the schema registry that upcasts old payloads for a consumer
  (\<^verbatim>\<open>schema.go\<close>). The lemmas show that a registry built by \<open>Register\<close> has an upcaster for every
  version below the latest one, so that the upcast loop never calls a missing upcaster, that the
  loop ends at the latest version, and that it changes nothing but version and payload.
\<close>

subsection \<open>The envelope\<close>

record event =
  ev_ID :: string
  ev_Type :: string
  ev_Version :: int
  ev_AggregateID :: string
  ev_AggregateType :: string
  ev_OccurredAt :: time
  ev_Payload :: raw

definition Event_Validate :: "event \<Rightarrow> unit result" where
  "Event_Validate e =
     (if ev_ID e = '''' \<or> ev_Type e = '''' \<or> ev_AggregateID e = '''' \<or> ev_AggregateType e = ''''
      then Inl (ErrText ''event identity fields are required'')
      else if ev_Version e < 1 then Inl (ErrText ''event version must be at least 1'')
      else if ev_OccurredAt e = 0 then Inl (ErrText ''event occurrence time is required'')
      else if \<not> json_Valid (ev_Payload e) then Inl (ErrText ''event payload must be valid JSON'')
      else Inr ())"

lemma Event_Validate_Inr [result_simps]:
  "Event_Validate e = Inr u \<longleftrightarrow>
     ev_ID e \<noteq> '''' \<and> ev_Type e \<noteq> '''' \<and> ev_AggregateID e \<noteq> '''' \<and> ev_AggregateType e \<noteq> '''' \<and>
     1 \<le> ev_Version e \<and> ev_OccurredAt e \<noteq> 0 \<and> json_Valid (ev_Payload e)"
  by (auto simp: Event_Validate_def)

text \<open>The envelope fields that no consumer may change.\<close>

definition identity :: "event \<Rightarrow> string \<times> string \<times> string \<times> string \<times> time" where
  "identity e = (ev_ID e, ev_Type e, ev_AggregateID e, ev_AggregateType e, ev_OccurredAt e)"

lemma identity_update [simp]:
  "identity (e\<lparr>ev_Payload := p\<rparr>) = identity e"
  "identity (e\<lparr>ev_Version := v\<rparr>) = identity e"
  by (simp_all add: identity_def)

subsection \<open>Topics\<close>

definition PayoutEventsTopic :: string where
  [simp]: "PayoutEventsTopic = ''payout-events''"

definition PayinEventsTopic :: string where
  [simp]: "PayinEventsTopic = ''payin-events''"

definition PaymentEventsTopic :: string where
  [simp]: "PaymentEventsTopic = ''payment-events''"

definition SettlementCommandsTopic :: string where
  [simp]: "SettlementCommandsTopic = ''settlement-commands''"

definition DeadLetterTopic :: string where
  [simp]: "DeadLetterTopic = ''stablerail-dead-letter''"

subsection \<open>Versions\<close>

text \<open>Every version constant of \<^verbatim>\<open>versions.go\<close> is 1; a Go map from types to versions yields 0 for a missing key.\<close>

definition SchemaVersion :: int where
  [simp]: "SchemaVersion = 1"

definition version_in :: "string list \<Rightarrow> string \<Rightarrow> int" where
  "version_in types ty = (if ty \<in> set types then SchemaVersion else 0)"

subsection \<open>The schema registry\<close>

type_synonym upcaster = "raw \<Rightarrow> raw result"

record eventSchema =
  latest :: int
  upcasters :: "int \<rightharpoonup> upcaster"

type_synonym registry = "string \<rightharpoonup> eventSchema"

text \<open>
  The loop of \<open>Register\<close> over the given upcasters. A Go map is the list of its entries in the
  order the iteration visits them; a nil function is \<open>None\<close>.
\<close>

fun register_steps ::
  "int \<Rightarrow> (int \<times> upcaster option) list \<Rightarrow> (int \<rightharpoonup> upcaster) \<Rightarrow> (int \<rightharpoonup> upcaster) result" where
  "register_steps lat [] steps = Inr steps"
| "register_steps lat ((version, up) # rest) steps =
     (if version < 1 \<or> lat \<le> version then Inl (ErrText ''upcaster version is out of range'')
      else (case up of
              None \<Rightarrow> Inl (ErrText ''upcaster is nil'')
            | Some f \<Rightarrow> register_steps lat rest (steps(version \<mapsto> f))))"

definition Register ::
  "string \<Rightarrow> int \<Rightarrow> (int \<times> upcaster option) list \<Rightarrow> registry \<Rightarrow> registry result" where
  "Register eventType lat ups r =
     (if eventType = '''' then Inl (ErrText ''event type is required'')
      else if lat < 1 then Inl (ErrText ''latest event version must be at least 1'')
      else bindE (register_steps lat ups Map.empty) (\<lambda>steps.
        if list_ex (\<lambda>version. steps version = None) [1..lat - 1]
        then Inl (ErrText ''upcaster is required'')
        else if r eventType \<noteq> None then Inl (ErrText ''schema is already registered'')
        else Inr (r(eventType \<mapsto> \<lparr>latest = lat, upcasters = steps\<rparr>))))"

function upcast_loop :: "eventSchema \<Rightarrow> event \<Rightarrow> event result" where
  "upcast_loop sc e =
     (if ev_Version e < latest sc
      then (case upcasters sc (ev_Version e) of
              None \<Rightarrow> Inl (ErrText ''panic: nil upcaster'')
            | Some up \<Rightarrow> bindE (up (ev_Payload e)) (\<lambda>p.
                if json_Valid p
                then upcast_loop sc (e\<lparr>ev_Payload := p, ev_Version := ev_Version e + 1\<rparr>)
                else Inl (ErrText ''upcast produced invalid JSON'')))
      else Inr e)"
  by pat_completeness auto
termination
  by (relation "measure (\<lambda>(sc, e). nat (latest sc - ev_Version e))") auto

declare upcast_loop.simps [simp del]

definition Upcast :: "registry \<Rightarrow> event \<Rightarrow> event result" where
  "Upcast r e =
     bindE (Event_Validate e) (\<lambda>_.
       case r (ev_Type e) of
         None \<Rightarrow> Inl (ErrText ''event type has no registered schema'')
       | Some sc \<Rightarrow>
           if latest sc < ev_Version e then Inl (ErrText ''event version is newer than supported'')
           else upcast_loop sc e)"

subsection \<open>What registration guarantees\<close>

definition schema_ok :: "eventSchema \<Rightarrow> bool" where
  "schema_ok sc \<longleftrightarrow> 1 \<le> latest sc \<and> dom (upcasters sc) = {1..<latest sc}"

definition registry_ok :: "registry \<Rightarrow> bool" where
  "registry_ok r \<longleftrightarrow> (\<forall>sc\<in>ran r. schema_ok sc)"

lemma registry_ok_empty: "registry_ok Map.empty"
  by (simp add: registry_ok_def)

lemma registry_okD: "registry_ok r \<Longrightarrow> r t = Some sc \<Longrightarrow> schema_ok sc"
  by (auto simp: registry_ok_def ran_def)

lemma register_steps_dom:
  "register_steps lat ups steps = Inr steps' \<Longrightarrow> dom steps \<subseteq> {1..<lat} \<Longrightarrow> dom steps' \<subseteq> {1..<lat}"
  by (induction lat ups steps rule: register_steps.induct) (auto split: if_splits option.splits)

lemma Register_schema_ok:
  assumes "Register t lat ups r = Inr r'"
  shows "\<exists>sc. r' = r(t \<mapsto> sc) \<and> schema_ok sc \<and> latest sc = lat \<and> r t = None"
proof -
  from assms obtain steps where steps: "register_steps lat ups Map.empty = Inr steps"
    and full: "\<not> list_ex (\<lambda>v. steps v = None) [1..lat - 1]" and "1 \<le> lat" and "r t = None"
    and r': "r' = r(t \<mapsto> \<lparr>latest = lat, upcasters = steps\<rparr>)"
    by (auto simp: Register_def result_simps split: if_splits)
  from steps have "dom steps \<subseteq> {1..<lat}" by (rule register_steps_dom) simp
  moreover from full have "{1..<lat} \<subseteq> dom steps" by (auto simp: list_ex_iff)
  ultimately have "schema_ok \<lparr>latest = lat, upcasters = steps\<rparr>"
    using \<open>1 \<le> lat\<close> by (simp add: schema_ok_def)
  with \<open>r t = None\<close> r' show ?thesis by (metis eventSchema.select_convs(1))
qed

lemma Register_registry_ok:
  assumes "registry_ok r" and "Register t lat ups r = Inr r'"
  shows "registry_ok r'"
  using assms(1) Register_schema_ok [OF assms(2)]
  by (auto simp: registry_ok_def)

subsection \<open>What upcasting guarantees\<close>

lemma upcast_loop_result:
  assumes "upcast_loop sc e = Inr e'" and "json_Valid (ev_Payload e)"
  shows "ev_Version e' = max (ev_Version e) (latest sc) \<and> identity e' = identity e \<and>
         json_Valid (ev_Payload e')"
  using assms
proof (induction sc e rule: upcast_loop.induct)
  case (1 sc e)
  show ?case
  proof (cases "ev_Version e < latest sc")
    case True
    with "1.prems" obtain up p where "upcasters sc (ev_Version e) = Some up"
      and "up (ev_Payload e) = Inr p" and "json_Valid p"
      and "upcast_loop sc (e\<lparr>ev_Payload := p, ev_Version := ev_Version e + 1\<rparr>) = Inr e'"
      by (auto simp: upcast_loop.simps [of sc e] result_simps split: option.splits if_splits)
    with "1.IH" True show ?thesis by fastforce
  next
    case False
    with "1.prems" show ?thesis by (auto simp: upcast_loop.simps [of sc e])
  qed
qed

text \<open>
  The contract upcasters are written to (the comment on \<^verbatim>\<open>type Upcaster\<close>): on a valid payload they
  return a valid payload.
\<close>

definition upcasters_valid :: "eventSchema \<Rightarrow> bool" where
  "upcasters_valid sc \<longleftrightarrow>
     (\<forall>f\<in>ran (upcasters sc). \<forall>p. json_Valid p \<longrightarrow> (\<exists>p'. f p = Inr p' \<and> json_Valid p'))"

lemma upcast_loop_total:
  assumes "schema_ok sc" and "upcasters_valid sc"
    and "1 \<le> ev_Version e" and "json_Valid (ev_Payload e)"
  shows "\<exists>e'. upcast_loop sc e = Inr e'"
  using assms
proof (induction sc e rule: upcast_loop.induct)
  case (1 sc e)
  show ?case
  proof (cases "ev_Version e < latest sc")
    case True
    with "1.prems" have "ev_Version e \<in> dom (upcasters sc)" by (simp add: schema_ok_def)
    then obtain up where up: "upcasters sc (ev_Version e) = Some up" by blast
    with "1.prems"(2,4) obtain p where p: "up (ev_Payload e) = Inr p" "json_Valid p"
      by (fastforce simp: upcasters_valid_def ran_def)
    have "\<exists>e'. upcast_loop sc (e\<lparr>ev_Payload := p, ev_Version := ev_Version e + 1\<rparr>) = Inr e'"
      by (rule "1.IH" [OF True up p]) (use "1.prems" p in simp_all)
    with True up p show ?thesis by (simp add: upcast_loop.simps [of sc e])
  next
    case False
    then show ?thesis by (simp add: upcast_loop.simps [of sc e])
  qed
qed

subsection \<open>Properties\<close>

text \<open>
  An event of a registered type, at any version up to the latest, is upcast to exactly the
  latest version, with its envelope unchanged and a valid payload; registration guarantees that no step is
  missing, so the nil-function panic cannot happen.
\<close>

theorem upcast_reaches_latest:
  assumes "registry_ok r" and "Register ty lat ups r = Inr r'" and "r' (ev_Type e) = Some sc"
    and "upcasters_valid sc" and "Event_Validate e = Inr ()" and "ev_Version e \<le> latest sc"
  shows "\<exists>e'. Upcast r' e = Inr e' \<and> ev_Version e' = latest sc \<and> identity e' = identity e \<and>
    Event_Validate e' = Inr ()"
proof -
  have ok: "schema_ok sc" using Register_registry_ok [OF assms(1,2)] assms(3) by (rule registry_okD)
  have valid: "1 \<le> ev_Version e" "json_Valid (ev_Payload e)" using assms(5) by (simp_all add: result_simps)
  obtain e' where e': "upcast_loop sc e = Inr e'" using upcast_loop_total [OF ok assms(4) valid] by blast
  from upcast_loop_result [OF e' valid(2)] assms(6) have
    "ev_Version e' = latest sc" "identity e' = identity e" "json_Valid (ev_Payload e')" by simp_all
  moreover from this ok assms(5) have "Event_Validate e' = Inr ()"
    by (auto simp: result_simps identity_def schema_ok_def)
  ultimately show ?thesis using e' assms(3,5,6) by (simp add: Upcast_def)
qed

definition sample_upcaster :: upcaster where
  "sample_upcaster p = Inr (Raw (JObj [(''reason'', JStr ''migrated'')]))"

definition sample_old_event :: event where
  "sample_old_event = \<lparr>ev_ID = ''ev1'', ev_Type = ''payout.created'', ev_Version = 1, ev_AggregateID = ''p1'',
     ev_AggregateType = ''payout'', ev_OccurredAt = 5, ev_Payload = Raw JNull\<rparr>"

theorem upcast_reaches_latest_witness:
  "\<exists>r' e'. Register ''payout.created'' 2 [(1, Some sample_upcaster)] Map.empty = Inr r' \<and>
     Upcast r' sample_old_event = Inr e' \<and> ev_Version e' = 2"
proof -
  let ?sc = "\<lparr>latest = 2, upcasters = [1 \<mapsto> sample_upcaster]\<rparr>"
  have reg: "Register ''payout.created'' 2 [(1, Some sample_upcaster)] Map.empty =
      Inr [''payout.created'' \<mapsto> ?sc]"
    by (simp add: Register_def upto.simps)
  have "\<exists>e'. Upcast [''payout.created'' \<mapsto> ?sc] sample_old_event = Inr e' \<and> ev_Version e' = latest ?sc \<and>
      identity e' = identity sample_old_event \<and> Event_Validate e' = Inr ()"
    by (rule upcast_reaches_latest [OF registry_ok_empty reg])
      (simp_all add: sample_old_event_def upcasters_valid_def sample_upcaster_def Event_Validate_def)
  with reg show ?thesis by auto
qed

end
