(* ===== verification/Store.thy ===== *)
theory Store
  imports Events
begin

text \<open>
  The PostgreSQL schema of \<^verbatim>\<open>migrations/\<close>: one record per table the modelled code reads or writes, a
  record \<open>db\<close> of all tables, and one insert operation per table that enforces its primary key,
  UNIQUE, CHECK and REFERENCES constraints as error results. \<open>ON CONFLICT ... DO NOTHING\<close> inserts
  return the number of rows inserted. A column with a CHECK over text constants that the Go code
  names as a typed constant is a datatype; the settlement status columns stay text, because
  provider strings are written into them and the CHECK is what rejects a bad one.

  \<open>store_ok\<close> collects the key constraints as an invariant; every insert keeps it.
\<close>

subsection \<open>Column types\<close>

datatype PaymentStatus =
  PaymentStatusCreated | PaymentStatusProcessing | PaymentStatusSucceeded | PaymentStatusFailed

fun payment_status_text :: "PaymentStatus \<Rightarrow> string" where
  "payment_status_text PaymentStatusCreated = ''created''"
| "payment_status_text PaymentStatusProcessing = ''processing''"
| "payment_status_text PaymentStatusSucceeded = ''succeeded''"
| "payment_status_text PaymentStatusFailed = ''failed''"

datatype PaymentDirection = PaymentDirectionPayin | PaymentDirectionPayout

datatype EntrySide = EntryDebit | EntryCredit

fun side_text :: "EntrySide \<Rightarrow> string" where
  "side_text EntryDebit = ''debit''"
| "side_text EntryCredit = ''credit''"

datatype LedgerStatus = LedgerPending | LedgerPosted | LedgerFailed

datatype QuoteStatus = QuoteOpen | QuoteAccepted | QuoteExpired

datatype ReconciliationStatus = Unmatched | Matched | ReconException

text \<open>The CHECK list of \<^verbatim>\<open>settlement_sagas.state\<close>, shared by both directions.\<close>

datatype State =
    StateAwaitingPolicy
  | StateAwaitingLedger
  | StateAwaitingSettlement
  | StateOnHold
  | StateManualReview
  | StateReleasingLedger
  | StateReturning
  | StateSettlingPayment
  | StateCompleted
  | StateLedgerReleased
  | StateReturned
  | StateFailed
  | StateAwaitingExecution
  | StateProcessing
  | StateRefunded

fun state_text :: "State \<Rightarrow> string" where
  "state_text StateAwaitingPolicy = ''awaiting_policy''"
| "state_text StateAwaitingLedger = ''awaiting_ledger''"
| "state_text StateAwaitingSettlement = ''awaiting_settlement''"
| "state_text StateOnHold = ''on_hold''"
| "state_text StateManualReview = ''manual_review''"
| "state_text StateReleasingLedger = ''releasing_ledger''"
| "state_text StateReturning = ''returning''"
| "state_text StateSettlingPayment = ''settling_payment''"
| "state_text StateCompleted = ''completed''"
| "state_text StateLedgerReleased = ''ledger_released''"
| "state_text StateReturned = ''returned''"
| "state_text StateFailed = ''failed''"
| "state_text StateAwaitingExecution = ''awaiting_execution''"
| "state_text StateProcessing = ''processing''"
| "state_text StateRefunded = ''refunded''"

subsection \<open>Rows\<close>

record payment_row =
  pay_id :: string
  pay_direction :: PaymentDirection
  pay_external_reference :: string
  pay_currency :: string
  pay_amount :: int
  pay_tenant :: string
  pay_status :: PaymentStatus
  pay_idempotency_key :: string
  pay_created_at :: time
  pay_updated_at :: time

record quote_row =
  q_id :: string
  q_direction :: PaymentDirection
  q_provider :: string
  q_provider_quote_id :: string
  q_tenant :: string
  q_idempotency_key :: string
  q_source :: "string option"
  q_destination :: string
  q_method :: string
  q_source_currency :: string
  q_destination_currency :: string
  q_currency_type :: string
  q_cover_fees :: bool
  q_request_amount :: int
  q_sender_amount :: int
  q_receiver_amount :: int
  q_commercial_rate :: "string option"
  q_provider_rate :: "string option"
  q_flat_fee :: "int option"
  q_partner_fee :: "int option"
  q_billing_fee :: "int option"
  q_status :: QuoteStatus
  q_expires_at :: time
  q_payload :: raw
  q_execution_context :: raw
  q_payment :: "string option"
  q_created_at :: time
  q_updated_at :: time

record audit_row =
  au_payment :: string
  au_event :: string
  au_message :: string
  au_at :: time

record timeline_row =
  tl_payment :: string
  tl_status :: PaymentStatus
  tl_note :: string
  tl_at :: time

record refund_row =
  rf_payment :: string
  rf_original :: string
  rf_tenant :: string
  rf_idempotency_key :: string
  rf_amount :: int
  rf_currency :: string
  rf_reason :: string
  rf_created_at :: time
  rf_updated_at :: time

record outbox_row =
  ob_seq :: nat
  ob_id :: string
  ob_topic :: string
  ob_type :: string
  ob_version :: int
  ob_aggregate_id :: string
  ob_aggregate_type :: string
  ob_payload :: raw
  ob_occurred_at :: time
  ob_created_at :: time
  ob_published_at :: "time option"
  ob_attempts :: int
  ob_next_attempt :: time
  ob_last_error :: "string option"
  ob_failed_at :: "time option"
  ob_dlq_published_at :: "time option"
  ob_redriven_at :: "time option"

record inbox_row =
  ib_consumer :: string
  ib_event :: string
  ib_type :: string
  ib_version :: int
  ib_aggregate_id :: string
  ib_aggregate_type :: string
  ib_occurred_at :: time
  ib_received_at :: time

record saga_row =
  sg_payment :: string
  sg_direction :: PaymentDirection
  sg_state :: State
  sg_deadline :: "time option"
  sg_failure :: "string option"
  sg_created_at :: time
  sg_updated_at :: time

record review_row =
  rv_payment :: string
  rv_action :: string
  rv_operator :: string
  rv_note :: string
  rv_at :: time

record submission_row =
  sub_payment :: string
  sub_command :: string
  sub_provider :: string
  sub_reference :: "string option"
  sub_status :: string
  sub_failure_code :: "string option"
  sub_failure_message :: "string option"
  sub_created_at :: time
  sub_updated_at :: time

record payout_row =
  po_payment :: string
  po_quote :: "string option"
  po_tenant :: string
  po_source :: "string option"
  po_destination :: "string option"
  po_method :: string
  po_source_amount :: int
  po_source_currency :: string
  po_destination_amount :: int
  po_destination_currency :: string
  po_provider :: string
  po_provider_payout :: "string option"
  po_status :: string
  po_reconciliation :: ReconciliationStatus
  po_idempotency_key :: string
  po_payload :: raw
  po_last_error :: "string option"
  po_created_at :: time
  po_updated_at :: time
  po_submitted_at :: "time option"

record payin_row =
  pi_payment :: string
  pi_quote :: "string option"
  pi_tenant :: string
  pi_idempotency_key :: string
  pi_method :: string
  pi_source :: "string option"
  pi_destination :: string
  pi_source_amount :: int
  pi_source_currency :: string
  pi_destination_amount :: int
  pi_destination_currency :: string
  pi_provider :: string
  pi_provider_payin :: "string option"
  pi_status :: string
  pi_reconciliation :: ReconciliationStatus
  pi_instructions :: raw
  pi_payload :: raw
  pi_failure :: "string option"
  pi_created_at :: time
  pi_updated_at :: time

record journal_row =
  jr_id :: string
  jr_payment :: string
  jr_event :: string
  jr_status :: LedgerStatus
  jr_at :: time

record entry_row =
  en_id :: string
  en_journal :: string
  en_account :: string
  en_side :: EntrySide
  en_amount :: int
  en_currency :: string

record return_row =
  rt_id :: string
  rt_payment :: string
  rt_provider :: string
  rt_provider_event :: string
  rt_amount :: int
  rt_currency :: string
  rt_reason :: string
  rt_journal :: string
  rt_at :: time

record resource_row =
  rs_id :: string
  rs_tenant :: string
  rs_provider :: string
  rs_type :: string
  rs_reference :: string
  rs_metadata :: raw

record endpoint_row =
  we_id :: string
  we_tenant :: string
  we_url :: string
  we_secret :: string
  we_active :: bool
  we_created_at :: time

datatype DeliveryStatus = DeliveryPending | DeliveryDelivered | DeliveryFailed

record delivery_row =
  wd_id :: string
  wd_endpoint :: string
  wd_event :: string
  wd_payment :: string
  wd_type :: string
  wd_payload :: raw
  wd_status :: DeliveryStatus
  wd_attempts :: int
  wd_next_attempt :: time
  wd_last_error :: "string option"
  wd_response_status :: "int option"
  wd_delivered_at :: "time option"
  wd_failed_at :: "time option"
  wd_created_at :: time

record bp_webhook_row =
  bw_svix :: string
  bw_event :: string
  bw_provider_id :: "string option"
  bw_payload :: raw
  bw_received_at :: time

record application_row =
  wa_provider :: string
  wa_event :: string
  wa_operation_type :: string
  wa_operation :: string
  wa_applied_at :: time

datatype DiscrepancyStatus = DiscrepancyOpen | DiscrepancyResolved

record discrepancy_row =
  di_id :: nat
  di_fingerprint :: string
  di_kind :: string
  di_payment :: "string option"
  di_details :: raw
  di_status :: DiscrepancyStatus
  di_first_detected :: time
  di_last_detected :: time
  di_last_run :: nat
  di_resolved_at :: "time option"
  di_resolved_by :: "string option"
  di_note :: "string option"

record run_row =
  rr_id :: nat
  rr_started :: time
  rr_completed :: "time option"
  rr_count :: nat
  rr_error :: "string option"

record db =
  payments :: "payment_row list"
  quotes :: "quote_row list"
  resources :: "resource_row list"
  audits :: "audit_row list"
  timeline :: "timeline_row list"
  refunds :: "refund_row list"
  outbox :: "outbox_row list"
  outbox_seq :: nat
  inbox :: "inbox_row list"
  sagas :: "saga_row list"
  reviews :: "review_row list"
  submissions :: "submission_row list"
  payouts :: "payout_row list"
  payins :: "payin_row list"
  journals :: "journal_row list"
  entries :: "entry_row list"
  returns :: "return_row list"
  endpoints :: "endpoint_row list"
  deliveries :: "delivery_row list"
  bp_webhooks :: "bp_webhook_row list"
  applications :: "application_row list"
  discrepancies :: "discrepancy_row list"
  runs :: "run_row list"

definition empty_db :: db where
  "empty_db = \<lparr>payments = [], quotes = [], resources = [], audits = [], timeline = [],
     refunds = [], outbox = [], outbox_seq = 0, inbox = [], sagas = [], reviews = [],
     submissions = [], payouts = [], payins = [], journals = [], entries = [], returns = [],
     endpoints = [], deliveries = [], bp_webhooks = [], applications = [], discrepancies = [],
     runs = []\<rparr>"

subsection \<open>Constraints\<close>

definition nullif :: "string \<Rightarrow> string option" where
  "nullif s = (if s = '''' then None else Some s)"

definition coalesce :: "string option \<Rightarrow> string" where
  "coalesce v = (case v of None \<Rightarrow> '''' | Some s \<Rightarrow> s)"

lemma coalesce_nullif [simp]: "coalesce (nullif s) = s"
  by (simp add: coalesce_def nullif_def)

text \<open>A UNIQUE constraint over a nullable column: rows with NULL never conflict.\<close>

definition unique_some :: "('r \<Rightarrow> 'k option) \<Rightarrow> 'r list \<Rightarrow> bool" where
  "unique_some k t \<longleftrightarrow> distinct (List.map_filter k t)"

definition payments_ok :: "payment_row list \<Rightarrow> bool" where
  "payments_ok t \<longleftrightarrow> distinct (map pay_id t) \<and> distinct (map pay_idempotency_key t) \<and>
     list_all (\<lambda>p. 0 < pay_amount p) t"

definition quotes_ok :: "quote_row list \<Rightarrow> bool" where
  "quotes_ok t \<longleftrightarrow> distinct (map q_id t) \<and> distinct (map (\<lambda>q. (q_provider q, q_provider_quote_id q)) t) \<and>
     distinct (map (\<lambda>q. (q_tenant q, q_idempotency_key q)) t) \<and> unique_some q_payment t \<and>
     list_all (\<lambda>q. 0 < q_request_amount q \<and> 0 < q_sender_amount q \<and> 0 < q_receiver_amount q \<and>
       q_currency_type q \<in> {''sender'', ''receiver''} \<and>
       (case q_flat_fee q of None \<Rightarrow> True | Some f \<Rightarrow> 0 \<le> f) \<and>
       (case q_partner_fee q of None \<Rightarrow> True | Some f \<Rightarrow> 0 \<le> f)) t"

definition refunds_ok :: "refund_row list \<Rightarrow> bool" where
  "refunds_ok t \<longleftrightarrow> distinct (map rf_payment t) \<and>
     distinct (map (\<lambda>r. (rf_tenant r, rf_idempotency_key r)) t) \<and>
     list_all (\<lambda>r. 0 < rf_amount r \<and> rf_original r \<noteq> rf_payment r) t"

definition outbox_ok :: "outbox_row list \<Rightarrow> bool" where
  "outbox_ok t \<longleftrightarrow> distinct (map ob_id t) \<and>
     list_all (\<lambda>e. 0 < ob_version e \<and> json_Valid (ob_payload e)) t"

definition inbox_ok :: "inbox_row list \<Rightarrow> bool" where
  "inbox_ok t \<longleftrightarrow> distinct (map (\<lambda>e. (ib_consumer e, ib_event e)) t) \<and>
     list_all (\<lambda>e. 0 < ib_version e) t"

definition sagas_ok :: "saga_row list \<Rightarrow> bool" where
  "sagas_ok t \<longleftrightarrow> distinct (map sg_payment t)"

definition submissions_ok :: "submission_row list \<Rightarrow> bool" where
  "submissions_ok t \<longleftrightarrow> distinct (map sub_command t) \<and> unique_some sub_reference t \<and>
     list_all (\<lambda>r. sub_status r \<in> {''pending'', ''on_hold'', ''succeeded'', ''failed''} \<and>
       (sub_status r = ''failed'' \<longrightarrow> sub_failure_code r \<noteq> None)) t"

definition payout_status_ok :: "string \<Rightarrow> bool" where
  "payout_status_ok st \<longleftrightarrow> st \<in> {''submission_pending'', ''unknown'', ''submission_failed'',
     ''processing'', ''on_hold'', ''completed'', ''failed'', ''refunded''}"

definition payouts_ok :: "payout_row list \<Rightarrow> bool" where
  "payouts_ok t \<longleftrightarrow> distinct (map po_payment t) \<and> unique_some po_quote t \<and>
     unique_some (\<lambda>r. map_option (Pair (po_provider r)) (po_provider_payout r)) t \<and>
     distinct (map (\<lambda>r. (po_provider r, po_idempotency_key r)) t) \<and>
     list_all (\<lambda>r. payout_status_ok (po_status r) \<and> 0 < po_source_amount r \<and>
       0 < po_destination_amount r) t"

definition payin_status_ok :: "string \<Rightarrow> bool" where
  "payin_status_ok st \<longleftrightarrow> st \<in> {''created'', ''submission_pending'', ''unknown'', ''processing'',
     ''on_hold'', ''received'', ''failed'', ''refunded''}"

definition payins_ok :: "payin_row list \<Rightarrow> bool" where
  "payins_ok t \<longleftrightarrow> distinct (map pi_payment t) \<and> unique_some pi_quote t \<and>
     unique_some (\<lambda>r. map_option (Pair (pi_provider r)) (pi_provider_payin r)) t \<and>
     distinct (map (\<lambda>r. (pi_tenant r, pi_idempotency_key r)) t) \<and>
     list_all (\<lambda>r. payin_status_ok (pi_status r) \<and> 0 < pi_source_amount r \<and>
       0 < pi_destination_amount r) t"

definition journals_ok :: "journal_row list \<Rightarrow> bool" where
  "journals_ok t \<longleftrightarrow> distinct (map jr_id t) \<and> distinct (map (\<lambda>j. (jr_payment j, jr_event j)) t)"

definition CashOperatingAccount :: string where
  "CashOperatingAccount = ''cash:operating''"

definition SettlementAccount :: string where
  "SettlementAccount = ''settlement:payable''"

definition entries_ok :: "entry_row list \<Rightarrow> bool" where
  "entries_ok t \<longleftrightarrow> distinct (map en_id t) \<and>
     list_all (\<lambda>e. 0 < en_amount e \<and> en_account e \<in> {CashOperatingAccount, SettlementAccount}) t"

definition returns_ok :: "return_row list \<Rightarrow> bool" where
  "returns_ok t \<longleftrightarrow> distinct (map rt_id t) \<and> distinct (map rt_payment t) \<and>
     distinct (map rt_provider_event t) \<and> distinct (map rt_journal t) \<and>
     list_all (\<lambda>r. 0 < rt_amount r) t"

definition has_payment :: "string \<Rightarrow> db \<Rightarrow> bool" where
  "has_payment i s \<longleftrightarrow> i \<in> set (map pay_id (payments s))"

definition has_journal :: "string \<Rightarrow> db \<Rightarrow> bool" where
  "has_journal i s \<longleftrightarrow> i \<in> set (map jr_id (journals s))"

definition has_saga :: "string \<Rightarrow> db \<Rightarrow> bool" where
  "has_saga i s \<longleftrightarrow> i \<in> set (map sg_payment (sagas s))"

definition has_resource :: "string \<Rightarrow> db \<Rightarrow> bool" where
  "has_resource i s \<longleftrightarrow> i \<in> set (map rs_id (resources s))"

subsection \<open>Inserts\<close>

text \<open>
  Each insert succeeds exactly when the extended table meets the table's constraints and the
  referenced rows exist.
\<close>

definition put_payments :: "payment_row list \<Rightarrow> db \<Rightarrow> db result" where
  "put_payments t s = (if payments_ok t then Inr (s\<lparr>payments := t\<rparr>) else Inl (ErrConstraint ''payments''))"

definition insert_payment :: "payment_row \<Rightarrow> db \<Rightarrow> db result" where
  "insert_payment r s = put_payments (payments s @ [r]) s"

text \<open>\<open>ON CONFLICT (idempotency_key) DO NOTHING\<close>\<close>

definition insert_payment_once :: "payment_row \<Rightarrow> db \<Rightarrow> (db \<times> nat) result" where
  "insert_payment_once r s =
     (if pay_amount r \<le> 0 then Inl (ErrConstraint ''payments'')
      else if list_ex (\<lambda>p. pay_idempotency_key p = pay_idempotency_key r) (payments s) then Inr (s, 0)
      else bindE (insert_payment r s) (\<lambda>s'. Inr (s', 1)))"

definition set_payment_status :: "string \<Rightarrow> PaymentStatus \<Rightarrow> time \<Rightarrow> db \<Rightarrow> db" where
  "set_payment_status i st at s = s\<lparr>payments := update_where (\<lambda>p. pay_id p = i)
     (\<lambda>p. p\<lparr>pay_status := st, pay_updated_at := at\<rparr>) (payments s)\<rparr>"

definition put_quotes :: "quote_row list \<Rightarrow> db \<Rightarrow> db result" where
  "put_quotes t s = (if quotes_ok t then Inr (s\<lparr>quotes := t\<rparr>) else Inl (ErrConstraint ''payment_quotes''))"

definition insert_quote :: "quote_row \<Rightarrow> db \<Rightarrow> db result" where
  "insert_quote r s =
     (if (case q_source r of None \<Rightarrow> True | Some i \<Rightarrow> has_resource i s) \<and> has_resource (q_destination r) s
      then put_quotes (quotes s @ [r]) s else Inl (ErrConstraint ''payment_quotes''))"

definition insert_audit :: "audit_row \<Rightarrow> db \<Rightarrow> db result" where
  "insert_audit r s = (if has_payment (au_payment r) s then Inr (s\<lparr>audits := audits s @ [r]\<rparr>)
     else Inl (ErrConstraint ''payment_audit_events''))"

definition insert_timeline :: "timeline_row \<Rightarrow> db \<Rightarrow> db result" where
  "insert_timeline r s = (if has_payment (tl_payment r) s then Inr (s\<lparr>timeline := timeline s @ [r]\<rparr>)
     else Inl (ErrConstraint ''payment_timeline_entries''))"

definition insert_refund :: "refund_row \<Rightarrow> db \<Rightarrow> db result" where
  "insert_refund r s =
     (if has_payment (rf_payment r) s \<and> has_payment (rf_original r) s \<and> refunds_ok (refunds s @ [r])
      then Inr (s\<lparr>refunds := refunds s @ [r]\<rparr>) else Inl (ErrConstraint ''payment_refunds''))"

text \<open>
  A new outbox row: the identity column takes the next sequence number, \<open>created_at\<close> and
  \<open>next_attempt_at\<close> take the insertion time, all delivery columns are empty.
\<close>

definition new_outbox ::
  "string \<Rightarrow> string \<Rightarrow> string \<Rightarrow> int \<Rightarrow> string \<Rightarrow> string \<Rightarrow> raw \<Rightarrow> time \<Rightarrow> outbox_row" where
  "new_outbox i topic ty ver agg aggty payload at = \<lparr>ob_seq = 0, ob_id = i, ob_topic = topic,
     ob_type = ty, ob_version = ver, ob_aggregate_id = agg, ob_aggregate_type = aggty,
     ob_payload = payload, ob_occurred_at = at, ob_created_at = at, ob_published_at = None,
     ob_attempts = 0, ob_next_attempt = at, ob_last_error = None, ob_failed_at = None,
     ob_dlq_published_at = None, ob_redriven_at = None\<rparr>"

definition insert_outbox :: "outbox_row \<Rightarrow> db \<Rightarrow> db result" where
  "insert_outbox r s =
     (if outbox_ok (outbox s @ [r])
      then Inr (s\<lparr>outbox := outbox s @ [r\<lparr>ob_seq := outbox_seq s\<rparr>], outbox_seq := Suc (outbox_seq s)\<rparr>)
      else Inl (ErrConstraint ''outbox_events''))"

text \<open>\<open>ON CONFLICT (id) DO NOTHING\<close>; the CHECK constraints are tested before the conflict.\<close>

definition insert_outbox_once :: "outbox_row \<Rightarrow> db \<Rightarrow> db result" where
  "insert_outbox_once r s =
     (if ob_version r \<le> 0 \<or> \<not> json_Valid (ob_payload r) then Inl (ErrConstraint ''outbox_events'')
      else if list_ex (\<lambda>e. ob_id e = ob_id r) (outbox s) then Inr s
      else insert_outbox r s)"

definition insert_inbox_once :: "inbox_row \<Rightarrow> db \<Rightarrow> (db \<times> nat) result" where
  "insert_inbox_once r s =
     (if ib_version r \<le> 0 then Inl (ErrConstraint ''inbox_events'')
      else if list_ex (\<lambda>e. ib_consumer e = ib_consumer r \<and> ib_event e = ib_event r) (inbox s) then Inr (s, 0)
      else Inr (s\<lparr>inbox := inbox s @ [r]\<rparr>, 1))"

definition insert_saga_once :: "saga_row \<Rightarrow> db \<Rightarrow> (db \<times> nat) result" where
  "insert_saga_once r s =
     (if has_saga (sg_payment r) s then Inr (s, 0)
      else if has_payment (sg_payment r) s then Inr (s\<lparr>sagas := sagas s @ [r]\<rparr>, 1)
      else Inl (ErrConstraint ''settlement_sagas''))"

definition insert_review :: "review_row \<Rightarrow> db \<Rightarrow> db result" where
  "insert_review r s =
     (if has_saga (rv_payment r) s \<and> rv_action r \<in> {''retry'', ''complete'', ''fail'', ''return''}
      then Inr (s\<lparr>reviews := reviews s @ [r]\<rparr>) else Inl (ErrConstraint ''saga_manual_review_actions''))"

text \<open>
  \<open>ON CONFLICT (command_event_id) DO UPDATE\<close>: a repeated command updates status and failure
  columns of its row; a conflict on another UNIQUE column is an error.
\<close>

definition upsert_submission :: "submission_row \<Rightarrow> db \<Rightarrow> db result" where
  "upsert_submission r s =
     (if \<not> has_payment (sub_payment r) s then Inl (ErrConstraint ''settlement_submissions'') else
      let t = (if list_ex (\<lambda>x. sub_command x = sub_command r) (submissions s)
               then update_where (\<lambda>x. sub_command x = sub_command r)
                 (\<lambda>x. x\<lparr>sub_status := sub_status r, sub_failure_code := sub_failure_code r,
                    sub_failure_message := sub_failure_message r, sub_updated_at := sub_updated_at r\<rparr>)
                 (submissions s)
               else submissions s @ [r])
      in if submissions_ok t then Inr (s\<lparr>submissions := t\<rparr>)
         else Inl (ErrConstraint ''settlement_submissions''))"

definition put_payouts :: "payout_row list \<Rightarrow> db \<Rightarrow> db result" where
  "put_payouts t s = (if payouts_ok t then Inr (s\<lparr>payouts := t\<rparr>) else Inl (ErrConstraint ''payouts''))"

definition insert_payout_once :: "payout_row \<Rightarrow> db \<Rightarrow> (db \<times> nat) result" where
  "insert_payout_once r s =
     (if list_ex (\<lambda>x. po_payment x = po_payment r) (payouts s) then Inr (s, 0)
      else if \<not> has_payment (po_payment r) s then Inl (ErrConstraint ''payouts'')
      else bindE (put_payouts (payouts s @ [r]) s) (\<lambda>s'. Inr (s', 1)))"

definition put_payins :: "payin_row list \<Rightarrow> db \<Rightarrow> db result" where
  "put_payins t s = (if payins_ok t then Inr (s\<lparr>payins := t\<rparr>) else Inl (ErrConstraint ''payins''))"

definition insert_payin :: "payin_row \<Rightarrow> db \<Rightarrow> db result" where
  "insert_payin r s =
     (if has_payment (pi_payment r) s then put_payins (payins s @ [r]) s
      else Inl (ErrConstraint ''payins''))"

text \<open>\<open>ON CONFLICT (payment_id, event_type) DO NOTHING\<close>; a clash of the primary key is an error.\<close>

definition insert_journal_once :: "string \<Rightarrow> string \<Rightarrow> string \<Rightarrow> time \<Rightarrow> db \<Rightarrow> (db \<times> nat) result" where
  "insert_journal_once i payment ty at s =
     (if list_ex (\<lambda>j. jr_payment j = payment \<and> jr_event j = ty) (journals s) then Inr (s, 0)
      else if has_payment payment s \<and> \<not> has_journal i s
      then Inr (s\<lparr>journals := journals s @
             [\<lparr>jr_id = i, jr_payment = payment, jr_event = ty, jr_status = LedgerPosted, jr_at = at\<rparr>]\<rparr>, 1)
      else Inl (ErrConstraint ''ledger_journals''))"

definition insert_entry :: "entry_row \<Rightarrow> db \<Rightarrow> db result" where
  "insert_entry r s =
     (if has_journal (en_journal r) s \<and> entries_ok (entries s @ [r])
      then Inr (s\<lparr>entries := entries s @ [r]\<rparr>) else Inl (ErrConstraint ''ledger_entries''))"

definition insert_return :: "return_row \<Rightarrow> db \<Rightarrow> db result" where
  "insert_return r s =
     (if has_payment (rt_payment r) s \<and> has_journal (rt_journal r) s \<and> returns_ok (returns s @ [r])
      then Inr (s\<lparr>returns := returns s @ [r]\<rparr>) else Inl (ErrConstraint ''payment_returns''))"

subsection \<open>The constraints as an invariant\<close>

definition store_ok :: "db \<Rightarrow> bool" where
  "store_ok s \<longleftrightarrow>
     (payments_ok (payments s) \<and> quotes_ok (quotes s) \<and> refunds_ok (refunds s) \<and>
      outbox_ok (outbox s) \<and> inbox_ok (inbox s) \<and> sagas_ok (sagas s) \<and>
      submissions_ok (submissions s) \<and> payouts_ok (payouts s) \<and> payins_ok (payins s) \<and>
      journals_ok (journals s) \<and> entries_ok (entries s) \<and> returns_ok (returns s)) \<and>
     list_all (\<lambda>j. has_payment (jr_payment j) s) (journals s) \<and>
     list_all (\<lambda>e. has_journal (en_journal e) s) (entries s)"

named_theorems store_keeps \<open>operations that keep the database constraints\<close>

lemma has_payment_find: "has_payment i s \<longleftrightarrow> (\<exists>p. List.find (\<lambda>p. pay_id p = i) (payments s) = Some p)"
proof -
  have "has_payment i s \<longleftrightarrow> List.find (\<lambda>p. pay_id p = i) (payments s) \<noteq> None"
    by (auto simp: has_payment_def find_None_iff_all)
  then show ?thesis by simp
qed

lemma has_payment_append:
  "has_payment i (s\<lparr>payments := payments s @ [r]\<rparr>) \<longleftrightarrow> has_payment i s \<or> pay_id r = i"
  by (auto simp: has_payment_def)

lemma has_payment_set_status [simp]:
  "has_payment i (set_payment_status j st at s) = has_payment i s"
  by (simp add: has_payment_def set_payment_status_def map_update_where del: set_map)

lemma has_journal_append:
  "has_journal i (s\<lparr>journals := journals s @ [r]\<rparr>) \<longleftrightarrow> has_journal i s \<or> jr_id r = i"
  by (auto simp: has_journal_def)

lemma payments_ok_set_status [simp]:
  "payments_ok (payments (set_payment_status i st at s)) = payments_ok (payments s)"
  by (simp add: payments_ok_def set_payment_status_def table_simps)

lemma set_payment_status_frame [simp]:
  "quotes (set_payment_status i st at s) = quotes s"
  "resources (set_payment_status i st at s) = resources s"
  "audits (set_payment_status i st at s) = audits s"
  "timeline (set_payment_status i st at s) = timeline s"
  "refunds (set_payment_status i st at s) = refunds s"
  "outbox (set_payment_status i st at s) = outbox s"
  "outbox_seq (set_payment_status i st at s) = outbox_seq s"
  "inbox (set_payment_status i st at s) = inbox s"
  "sagas (set_payment_status i st at s) = sagas s"
  "submissions (set_payment_status i st at s) = submissions s"
  "payouts (set_payment_status i st at s) = payouts s"
  "payins (set_payment_status i st at s) = payins s"
  "journals (set_payment_status i st at s) = journals s"
  "entries (set_payment_status i st at s) = entries s"
  "returns (set_payment_status i st at s) = returns s"
  "endpoints (set_payment_status i st at s) = endpoints s"
  "has_journal j (set_payment_status i st at s) = has_journal j s"
  "has_saga j (set_payment_status i st at s) = has_saga j s"
  by (simp_all add: set_payment_status_def has_journal_def has_saga_def)

lemma store_ok_set_payment_status [store_keeps]:
  "store_ok s \<Longrightarrow> store_ok (set_payment_status i st at s)"
  by (simp add: store_ok_def)

lemma store_ok_payments:
  assumes "store_ok s" and "payments_ok t" and "set (map pay_id (payments s)) \<subseteq> set (map pay_id t)"
  shows "store_ok (s\<lparr>payments := t\<rparr>)"
  using assms by (auto simp: store_ok_def has_payment_def has_journal_def list_all_iff)

lemma insert_payment_keeps [store_keeps]:
  "insert_payment r s = Inr s' \<Longrightarrow> store_ok s \<Longrightarrow> store_ok s'"
  by (auto simp: insert_payment_def put_payments_def split: if_splits intro: store_ok_payments)

lemma insert_payment_once_keeps [store_keeps]:
  "insert_payment_once r s = Inr (s', n) \<Longrightarrow> store_ok s \<Longrightarrow> store_ok s'"
  by (auto simp: insert_payment_once_def result_simps split: if_splits intro: insert_payment_keeps)

lemmas has_defs = has_payment_def has_journal_def has_saga_def has_resource_def

lemma insert_quote_keeps [store_keeps]:
  "insert_quote r s = Inr s' \<Longrightarrow> store_ok s \<Longrightarrow> store_ok s'"
  by (auto simp: insert_quote_def put_quotes_def store_ok_def has_defs split: if_splits)

lemma put_quotes_keeps [store_keeps]:
  "put_quotes t s = Inr s' \<Longrightarrow> store_ok s \<Longrightarrow> store_ok s'"
  by (auto simp: put_quotes_def store_ok_def has_defs split: if_splits)

lemma insert_audit_keeps [store_keeps]:
  "insert_audit r s = Inr s' \<Longrightarrow> store_ok s \<Longrightarrow> store_ok s'"
  by (auto simp: insert_audit_def store_ok_def has_defs split: if_splits)

lemma insert_timeline_keeps [store_keeps]:
  "insert_timeline r s = Inr s' \<Longrightarrow> store_ok s \<Longrightarrow> store_ok s'"
  by (auto simp: insert_timeline_def store_ok_def has_defs split: if_splits)

lemma insert_refund_keeps [store_keeps]:
  "insert_refund r s = Inr s' \<Longrightarrow> store_ok s \<Longrightarrow> store_ok s'"
  by (auto simp: insert_refund_def store_ok_def has_defs split: if_splits)

lemma outbox_ok_seq [simp]: "outbox_ok (t @ [r\<lparr>ob_seq := n\<rparr>]) = outbox_ok (t @ [r])"
  by (simp add: outbox_ok_def)

lemma insert_outbox_keeps [store_keeps]:
  "insert_outbox r s = Inr s' \<Longrightarrow> store_ok s \<Longrightarrow> store_ok s'"
  by (auto simp: insert_outbox_def store_ok_def has_defs split: if_splits)

lemma insert_outbox_once_keeps [store_keeps]:
  "insert_outbox_once r s = Inr s' \<Longrightarrow> store_ok s \<Longrightarrow> store_ok s'"
  by (auto simp: insert_outbox_once_def split: if_splits intro: insert_outbox_keeps)

lemma insert_inbox_once_keeps [store_keeps]:
  assumes "insert_inbox_once r s = Inr (s', n)" and "store_ok s"
  shows "store_ok s'"
proof -
  have "inbox_ok (inbox s @ [r])"
    if "0 < ib_version r" and "list_all (\<lambda>e. \<not> (ib_consumer e = ib_consumer r \<and> ib_event e = ib_event r)) (inbox s)"
    using that assms(2) by (auto simp: store_ok_def inbox_ok_def list_all_iff)
  with assms show ?thesis
    by (auto simp: insert_inbox_once_def store_ok_def has_defs list_ex_iff list_all_iff split: if_splits)
qed

lemma insert_saga_once_keeps [store_keeps]:
  "insert_saga_once r s = Inr (s', n) \<Longrightarrow> store_ok s \<Longrightarrow> store_ok s'"
  by (auto simp: insert_saga_once_def store_ok_def has_defs sagas_ok_def split: if_splits)

lemma insert_review_keeps [store_keeps]:
  "insert_review r s = Inr s' \<Longrightarrow> store_ok s \<Longrightarrow> store_ok s'"
  by (auto simp: insert_review_def store_ok_def has_defs split: if_splits)

lemma upsert_submission_keeps [store_keeps]:
  assumes "upsert_submission r s = Inr s'" and "store_ok s"
  shows "store_ok s'"
proof -
  from assms(1) obtain t where "s' = s\<lparr>submissions := t\<rparr>" and "submissions_ok t"
    unfolding upsert_submission_def Let_def by (metis Inl_Inr_False Inr_inject)
  with assms(2) show ?thesis by (simp add: store_ok_def has_defs)
qed

lemma put_payouts_keeps [store_keeps]:
  "put_payouts t s = Inr s' \<Longrightarrow> store_ok s \<Longrightarrow> store_ok s'"
  by (auto simp: put_payouts_def store_ok_def has_defs split: if_splits)

lemma insert_payout_once_keeps [store_keeps]:
  "insert_payout_once r s = Inr (s', n) \<Longrightarrow> store_ok s \<Longrightarrow> store_ok s'"
  by (auto simp: insert_payout_once_def result_simps split: if_splits intro: put_payouts_keeps)

lemma put_payins_keeps [store_keeps]:
  "put_payins t s = Inr s' \<Longrightarrow> store_ok s \<Longrightarrow> store_ok s'"
  by (auto simp: put_payins_def store_ok_def has_defs split: if_splits)

lemma insert_payin_keeps [store_keeps]:
  "insert_payin r s = Inr s' \<Longrightarrow> store_ok s \<Longrightarrow> store_ok s'"
  by (auto simp: insert_payin_def split: if_splits intro: put_payins_keeps)

lemma insert_journal_once_keeps [store_keeps]:
  assumes "insert_journal_once i p ty at s = Inr (s', n)" and "store_ok s"
  shows "store_ok s'"
proof (cases "n = 0")
  case True
  with assms show ?thesis by (auto simp: insert_journal_once_def split: if_splits)
next
  case False
  with assms(1) have new: "list_all (\<lambda>j. \<not> (jr_payment j = p \<and> jr_event j = ty)) (journals s)"
    and p: "has_payment p s" "\<not> has_journal i s"
    and s': "s' = s\<lparr>journals := journals s @
      [\<lparr>jr_id = i, jr_payment = p, jr_event = ty, jr_status = LedgerPosted, jr_at = at\<rparr>]\<rparr>"
    by (auto simp: insert_journal_once_def list_ex_iff list_all_iff split: if_splits)
  from new p assms(2) have "journals_ok (journals s')"
    by (auto simp: store_ok_def s' journals_ok_def has_defs list_all_iff)
  with assms(2) p show ?thesis by (auto simp: store_ok_def s' has_defs list_all_iff)
qed

lemma insert_entry_keeps [store_keeps]:
  "insert_entry r s = Inr s' \<Longrightarrow> store_ok s \<Longrightarrow> store_ok s'"
  by (auto simp: insert_entry_def store_ok_def has_defs split: if_splits)

lemma insert_return_keeps [store_keeps]:
  "insert_return r s = Inr s' \<Longrightarrow> store_ok s \<Longrightarrow> store_ok s'"
  by (auto simp: insert_return_def store_ok_def has_defs split: if_splits)

lemma store_ok_empty: "store_ok empty_db"
  by (simp add: store_ok_def empty_db_def payments_ok_def quotes_ok_def refunds_ok_def outbox_ok_def
      inbox_ok_def sagas_ok_def submissions_ok_def payouts_ok_def payins_ok_def journals_ok_def
      entries_ok_def returns_ok_def unique_some_def List.map_filter_def)

end
