(* ===== verification/Backoff.thy ===== *)
theory Backoff
  imports Prelude
begin

text \<open>
  The exponential backoff that the outbox relay (\<^verbatim>\<open>outbox/relay.go\<close>) and the webhook dispatcher
  (\<^verbatim>\<open>notification/webhook.go\<close>) compute with the same loop and different doubling steps. Durations are Go's
  64-bit integers: multiplication wraps. The locale \<open>doubling\<close> says what a step has to do for the loop to
  be the capped power of two; the relay's step does it for every maximum a duration can hold, the
  dispatcher's only up to \<open>2 ^ 62\<close>.
\<close>

definition wrap64 :: "int \<Rightarrow> int" where
  "wrap64 x = (x + 2 ^ 63) mod 2 ^ 64 - 2 ^ 63"

definition max_int64 :: int where
  "max_int64 = 2 ^ 63 - 1"

lemma wrap64_id: "- (2 ^ 63) \<le> x \<Longrightarrow> x < 2 ^ 63 \<Longrightarrow> wrap64 x = x"
  by (simp add: wrap64_def)

text \<open>\<open>for i := 1; i < attempts && delay < max; i++\<close>, with \<open>attempts - 1\<close> iterations left.\<close>

fun backoff_loop :: "(int \<Rightarrow> int \<Rightarrow> int) \<Rightarrow> int \<Rightarrow> nat \<Rightarrow> int \<Rightarrow> int" where
  "backoff_loop step mx 0 delay = delay"
| "backoff_loop step mx (Suc n) delay =
     (if delay < mx then backoff_loop step mx n (step mx delay) else delay)"

text \<open>The relay tests before it doubles, the dispatcher doubles and then caps.\<close>

definition relay_double :: "int \<Rightarrow> int \<Rightarrow> int" where
  "relay_double mx delay = (if mx div 2 < delay then mx else wrap64 (delay * 2))"

definition notify_double :: "int \<Rightarrow> int \<Rightarrow> int" where
  "notify_double mx delay = (let d = wrap64 (delay * 2) in if mx < d then mx else d)"

definition capped_power :: "int \<Rightarrow> int \<Rightarrow> nat \<Rightarrow> int" where
  "capped_power mx initial n = min mx (initial * 2 ^ n)"

locale doubling =
  fixes step :: "int \<Rightarrow> int \<Rightarrow> int" and limit :: int
  assumes step_doubles: "0 < d \<Longrightarrow> d < mx \<Longrightarrow> mx \<le> limit \<Longrightarrow> step mx d = min mx (2 * d)"
begin

lemma loop_capped:
  "0 < d \<Longrightarrow> d \<le> mx \<Longrightarrow> mx \<le> limit \<Longrightarrow> backoff_loop step mx n d = capped_power mx d n"
proof (induction n arbitrary: d)
  case 0
  then show ?case by (simp add: capped_power_def)
next
  case (Suc n)
  show ?case
  proof (cases "d < mx")
    case True
    have "capped_power mx (min mx (2 * d)) n = capped_power mx d (Suc n)"
    proof (cases "2 * d \<le> mx")
      case True
      then show ?thesis by (simp add: capped_power_def ac_simps)
    next
      case False
      have "mx \<le> mx * 2 ^ n" using Suc.prems by (simp add: mult_le_cancel_left1)
      moreover have "mx \<le> (2 * d) * 2 ^ n"
        using False Suc.prems mult_mono [of mx "2 * d" 1 "(2::int) ^ n"] by simp
      ultimately show ?thesis using False by (simp add: capped_power_def ac_simps)
    qed
    with Suc True step_doubles [OF Suc.prems(1) True Suc.prems(3)] show ?thesis by simp
  next
    case False
    then have "d = mx" using Suc.prems by simp
    moreover have "mx * 1 \<le> mx * 2 ^ Suc n" using Suc.prems by (intro mult_left_mono) (simp_all add: one_le_power del: power_Suc)
    ultimately show ?thesis by (simp add: capped_power_def)
  qed
qed

lemma loop_bounds:
  assumes "0 < d" and "d \<le> mx" and "mx \<le> limit"
  shows "d \<le> backoff_loop step mx n d" and "backoff_loop step mx n d \<le> mx"
proof -
  have "d * 1 \<le> d * 2 ^ n" using assms by (intro mult_left_mono) simp_all
  then show "d \<le> backoff_loop step mx n d" and "backoff_loop step mx n d \<le> mx"
    using assms by (simp_all add: loop_capped capped_power_def)
qed

end

interpretation relay_backoff: doubling relay_double max_int64
proof
  fix d mx :: int
  assume "0 < d" "d < mx" "mx \<le> max_int64"
  then show "relay_double mx d = min mx (2 * d)"
    by (auto simp: relay_double_def max_int64_def wrap64_id)
qed

interpretation notify_backoff: doubling notify_double "2 ^ 62"
proof
  fix d mx :: int
  assume "0 < d" "d < mx" "mx \<le> 2 ^ 62"
  then show "notify_double mx d = min mx (2 * d)"
    by (auto simp: notify_double_def wrap64_id Let_def)
qed

end
