(* ===== verification/Outbox.thy ===== *)
theory Outbox
  imports Store Backoff "HOL-Library.Multiset"
begin

text \<open>
  Package \<^verbatim>\<open>outbox\<close> (\<^verbatim>\<open>relay.go\<close>): the relay that publishes the rows of the outbox table, with retries, a
  dead-letter topic and the operator's redrive. The message broker is a parameter: \<open>publish n topic ev\<close> is
  the outcome of the \<open>n\<close>-th call of the producer in a round, \<open>None\<close> when the event is accepted. A round
  returns what the broker has accepted next to the database, because a rollback does not take messages back.

  The lemmas show that published rows of an aggregate always form a prefix of its history, that retries
  are bounded and spaced by a capped power of two, and that a working broker receives every row.
\<close>

subsection \<open>Configuration\<close>

record RelayConfig =
  rc_BatchSize :: int
  rc_PollInterval :: duration
  rc_InitialBackoff :: duration
  rc_MaxBackoff :: duration
  rc_MaxAttempts :: int
  rc_MaxAge :: duration
  rc_DeadLetterTopic :: string

record Relay =
  rl_batchSize :: int
  rl_pollInterval :: duration
  rl_initialBackoff :: duration
  rl_maxBackoff :: duration
  rl_maxAttempts :: int
  rl_maxAge :: duration
  rl_deadLetterTopic :: string

definition NewRelay :: "RelayConfig \<Rightarrow> Relay result" where
  "NewRelay c =
     (if rc_BatchSize c < 0 then Inl (ErrText ''outbox batch size cannot be negative'')
      else if rc_PollInterval c < 0 then Inl (ErrText ''outbox poll interval cannot be negative'')
      else if rc_InitialBackoff c < 0 \<or> rc_MaxBackoff c < 0 \<or> rc_MaxAge c < 0 \<or> rc_MaxAttempts c < 0
      then Inl (ErrText ''outbox retry settings cannot be negative'')
      else let initial = or_default (rc_InitialBackoff c) Second; mx = or_default (rc_MaxBackoff c) Minute
           in if mx < initial then Inl (ErrText ''outbox maximum backoff cannot be less than initial backoff'')
              else Inr \<lparr>rl_batchSize = or_default (rc_BatchSize c) 100,
                     rl_pollInterval = or_default (rc_PollInterval c) Second, rl_initialBackoff = initial,
                     rl_maxBackoff = mx, rl_maxAttempts = or_default (rc_MaxAttempts c) 10,
                     rl_maxAge = or_default (rc_MaxAge c) (24 * Hour),
                     rl_deadLetterTopic = (if rc_DeadLetterTopic c = '''' then DeadLetterTopic else rc_DeadLetterTopic c)\<rparr>)"

definition relay_ok :: "Relay \<Rightarrow> bool" where
  "relay_ok c \<longleftrightarrow> 1 \<le> rl_batchSize c \<and> 1 \<le> rl_maxAttempts c \<and> 0 < rl_initialBackoff c \<and>
     rl_initialBackoff c \<le> rl_maxBackoff c \<and> 0 < rl_maxAge c"

lemma or_default_pos: "0 \<le> v \<Longrightarrow> 0 < d \<Longrightarrow> 0 < or_default v d"
  by (simp add: or_default_def)

lemma NewRelay_ok:
  assumes "NewRelay config = Inr c"
  shows "relay_ok c"
proof -
  from assms have "0 \<le> rc_BatchSize config" "0 \<le> rc_InitialBackoff config" "0 \<le> rc_MaxAge config" "0 \<le> rc_MaxAttempts config"
    and c: "rl_batchSize c = or_default (rc_BatchSize config) 100" "rl_maxAttempts c = or_default (rc_MaxAttempts config) 10"
      "rl_initialBackoff c = or_default (rc_InitialBackoff config) Second" "rl_maxAge c = or_default (rc_MaxAge config) (24 * Hour)"
      "rl_initialBackoff c \<le> rl_maxBackoff c"
    unfolding NewRelay_def Let_def by (simp_all split: if_splits, auto)
  then have "0 < rl_batchSize c" "0 < rl_maxAttempts c" "0 < rl_initialBackoff c" "0 < rl_maxAge c"
    by (simp_all add: or_default_pos Second_def Hour_def Minute_def)
  with c(5) show ?thesis by (simp add: relay_ok_def)
qed

text \<open>The jitter of the constructor; \<open>nanos\<close> is the clock reading it takes modulo half the delay.\<close>

definition jitter :: "int \<Rightarrow> duration \<Rightarrow> duration" where
  "jitter nanos delay = delay div 2 + nanos mod (delay div 2 + 1)"

subsection \<open>Rows and events\<close>

record pendingEvent =
  pnd_topic :: string
  pnd_event :: event
  pnd_attemptCount :: int
  pnd_createdAt :: time

definition event_of_row :: "outbox_row \<Rightarrow> event" where
  "event_of_row r = \<lparr>ev_ID = ob_id r, ev_Type = ob_type r, ev_Version = ob_version r,
     ev_AggregateID = ob_aggregate_id r, ev_AggregateType = ob_aggregate_type r,
     ev_OccurredAt = ob_occurred_at r, ev_Payload = ob_payload r\<rparr>"

definition pending_of :: "outbox_row \<Rightarrow> pendingEvent" where
  "pending_of r = \<lparr>pnd_topic = ob_topic r, pnd_event = event_of_row r, pnd_attemptCount = ob_attempts r,
     pnd_createdAt = (case ob_redriven_at r of None \<Rightarrow> ob_created_at r | Some t \<Rightarrow> t)\<rparr>"

definition same_aggregate :: "outbox_row \<Rightarrow> outbox_row \<Rightarrow> bool" where
  "same_aggregate x y \<longleftrightarrow> ob_aggregate_type x = ob_aggregate_type y \<and> ob_aggregate_id x = ob_aggregate_id y"

definition relay_eligible :: "time \<Rightarrow> outbox_row list \<Rightarrow> outbox_row \<Rightarrow> bool" where
  "relay_eligible now t r \<longleftrightarrow> ob_published_at r = None \<and> ob_failed_at r = None \<and> ob_next_attempt r \<le> now \<and>
     \<not> list_ex (\<lambda>earlier. same_aggregate earlier r \<and> ob_published_at earlier = None \<and> ob_seq earlier < ob_seq r) t"

text \<open>The claim query; \<open>locked\<close> tells which rows another relay holds.\<close>

definition relay_claim :: "Relay \<Rightarrow> time \<Rightarrow> (string \<Rightarrow> bool) \<Rightarrow> outbox_row list \<Rightarrow> outbox_row list" where
  "relay_claim c now locked t =
     take (nat (rl_batchSize c)) (sort_key ob_seq (filter (\<lambda>r. relay_eligible now t r \<and> \<not> locked (ob_id r)) t))"

definition unpublished_id :: "string \<Rightarrow> outbox_row \<Rightarrow> bool" where
  "unpublished_id i r \<longleftrightarrow> ob_id r = i \<and> ob_published_at r = None"

definition update_outbox :: "string \<Rightarrow> (outbox_row \<Rightarrow> outbox_row) \<Rightarrow> db \<Rightarrow> db" where
  "update_outbox i f s = s\<lparr>outbox := update_where (unpublished_id i) f (outbox s)\<rparr>"

subsection \<open>Failures\<close>

definition event_json :: "event \<Rightarrow> json" where
  "event_json ev = JObj [(''id'', JStr (ev_ID ev)), (''type'', JStr (ev_Type ev)), (''version'', JNum (ev_Version ev)),
     (''aggregate_id'', JStr (ev_AggregateID ev)), (''aggregate_type'', JStr (ev_AggregateType ev)),
     (''occurred_at'', at_json (ev_OccurredAt ev)), (''payload'', raw_json (ev_Payload ev))]"

definition dead_letter :: "pendingEvent \<Rightarrow> int \<Rightarrow> string \<Rightarrow> time \<Rightarrow> event" where
  "dead_letter p attempts cause now = (pnd_event p)\<lparr>ev_ID := ev_ID (pnd_event p) @ ''.dlq'', ev_Type := ''outbox.dead_lettered'',
     ev_Version := SchemaVersion, ev_OccurredAt := now,
     ev_Payload := Raw (JObj [(''original_topic'', JStr (pnd_topic p)), (''original_event'', event_json (pnd_event p)),
       (''attempt_count'', JNum attempts), (''last_error'', JStr cause), (''failed_at'', at_json now)])\<rparr>"

definition exhausted :: "Relay \<Rightarrow> time \<Rightarrow> pendingEvent \<Rightarrow> bool" where
  "exhausted c now p \<longleftrightarrow> rl_maxAttempts c \<le> pnd_attemptCount p + 1 \<or> rl_maxAge c \<le> now - pnd_createdAt p"

definition relay_delay :: "Relay \<Rightarrow> int \<Rightarrow> duration" where
  "relay_delay c attempts = backoff_loop relay_double (rl_maxBackoff c) (nat (attempts - 1)) (rl_initialBackoff c)"

type_synonym producer = "nat \<Rightarrow> string \<Rightarrow> event \<Rightarrow> err option"

definition failed_row :: "int \<Rightarrow> string \<Rightarrow> time \<Rightarrow> outbox_row \<Rightarrow> outbox_row" where
  "failed_row attempts cause now r = r\<lparr>ob_attempts := attempts, ob_last_error := Some cause, ob_failed_at := Some now,
     ob_dlq_published_at := Some now\<rparr>"

definition retry_row :: "int \<Rightarrow> string \<Rightarrow> time \<Rightarrow> outbox_row \<Rightarrow> outbox_row" where
  "retry_row attempts cause next r = r\<lparr>ob_attempts := attempts, ob_last_error := Some cause, ob_next_attempt := next\<rparr>"

text \<open>What the broker accepted (the dead letter) and the database, or the error that ends the round.\<close>

definition recordFailure ::
  "Relay \<Rightarrow> env \<Rightarrow> int \<Rightarrow> producer \<Rightarrow> nat \<Rightarrow> pendingEvent \<Rightarrow> err \<Rightarrow> db \<Rightarrow> (string \<times> event) list \<times> db result" where
  "recordFailure c e nanos publish n p publishErr s =
     (let now = env_now e; attempts = pnd_attemptCount p + 1; i = ev_ID (pnd_event p); cause = err_text publishErr
      in if exhausted c now p
         then let letter = dead_letter p attempts cause now
              in (case publish (Suc n) (rl_deadLetterTopic c) letter of
                    Some err \<Rightarrow> ([], Inl err)
                  | None \<Rightarrow> ([(rl_deadLetterTopic c, letter)], Inr (update_outbox i (failed_row attempts cause now) s)))
         else ([], Inr (update_outbox i (retry_row attempts cause (now + jitter nanos (relay_delay c attempts))) s)))"

subsection \<open>A round of the relay\<close>

definition published_row :: "time \<Rightarrow> outbox_row \<Rightarrow> outbox_row" where
  "published_row now r = r\<lparr>ob_published_at := Some now\<rparr>"

text \<open>The loop over the claimed rows: the messages accepted so far, and the number of published rows.\<close>

fun relay_loop ::
  "Relay \<Rightarrow> env \<Rightarrow> (nat \<Rightarrow> int) \<Rightarrow> producer \<Rightarrow> nat \<Rightarrow> outbox_row list \<Rightarrow> db \<Rightarrow> (string \<times> event) list \<times> (nat \<times> db) result" where
  "relay_loop c e nanos publish n [] s = ([], Inr (0, s))"
| "relay_loop c e nanos publish n (r # rs) s =
     (case publish n (ob_topic r) (event_of_row r) of
        Some err \<Rightarrow>
         (case recordFailure c e (nanos n) publish n (pending_of r) err s of
            (sent, Inl recordErr) \<Rightarrow> (sent, Inl recordErr)
          | (sent, Inr s1) \<Rightarrow>
             (case relay_loop c e nanos publish (n + 2) rs s1 of (later, res) \<Rightarrow> (sent @ later, res)))
      | None \<Rightarrow>
          if affected (unpublished_id (ob_id r)) (outbox s) \<noteq> 1
          then ([(ob_topic r, event_of_row r)], Inl (ErrText ''mark outbox event published''))
          else (case relay_loop c e nanos publish (n + 2) rs (update_outbox (ob_id r) (published_row (env_now e)) s) of
                  (later, Inl err) \<Rightarrow> ((ob_topic r, event_of_row r) # later, Inl err)
                | (later, Inr (k, s1)) \<Rightarrow> ((ob_topic r, event_of_row r) # later, Inr (Suc k, s1))))"

definition RelayOnce ::
  "Relay \<Rightarrow> env \<Rightarrow> (nat \<Rightarrow> int) \<Rightarrow> producer \<Rightarrow> (string \<Rightarrow> bool) \<Rightarrow> db \<Rightarrow> db \<times> (string \<times> event) list \<times> nat result" where
  "RelayOnce c e nanos publish locked s =
     (case relay_loop c e nanos publish 0 (relay_claim c (env_now e) locked (outbox s)) s of
        (sent, Inl err) \<Rightarrow> (s, sent, Inl err)
      | (sent, Inr (k, s1)) \<Rightarrow> (s1, sent, Inr k))"

text \<open>
  The loop of \<open>Run\<close>, over the rounds the process gets to run before it is cancelled: each round comes with
  its clock, jitter, broker and locks. It ends with the first error.
\<close>

record relay_round =
  rd_env :: env
  rd_nanos :: "nat \<Rightarrow> int"
  rd_publish :: producer
  rd_locked :: "string \<Rightarrow> bool"

fun Relay_Run :: "Relay \<Rightarrow> relay_round list \<Rightarrow> db \<Rightarrow> db \<times> (string \<times> event) list \<times> err option" where
  "Relay_Run c [] s = (s, [], None)"
| "Relay_Run c (x # xs) s =
     (case RelayOnce c (rd_env x) (rd_nanos x) (rd_publish x) (rd_locked x) s of
        (s1, sent, Inl err) \<Rightarrow> (s1, sent, Some err)
      | (s1, sent, Inr k) \<Rightarrow>
          (case Relay_Run c xs s1 of (s2, later, res) \<Rightarrow> (s2, sent @ later, res)))"

definition dead_lettered :: "string \<Rightarrow> outbox_row \<Rightarrow> bool" where
  "dead_lettered i r \<longleftrightarrow> ob_id r = i \<and> ob_published_at r = None \<and> ob_failed_at r \<noteq> None"

definition redriven_row :: "time \<Rightarrow> outbox_row \<Rightarrow> outbox_row" where
  "redriven_row now r = r\<lparr>ob_attempts := 0, ob_next_attempt := now, ob_last_error := None, ob_failed_at := None,
     ob_dlq_published_at := None, ob_redriven_at := Some now\<rparr>"

definition Relay_Redrive :: "env \<Rightarrow> string \<Rightarrow> db \<Rightarrow> db result" where
  "Relay_Redrive e i s =
     (if i = '''' then Inl (ErrText ''outbox event ID is required'')
      else if affected (dead_lettered i) (outbox s) \<noteq> 1 then Inl ErrEventNotDeadLettered
      else Inr (s\<lparr>outbox := update_where (dead_lettered i) (redriven_row (env_now e)) (outbox s)\<rparr>))"


subsection \<open>What a round may change\<close>

text \<open>The columns that no delivery changes.\<close>

definition identity_of :: "outbox_row \<Rightarrow> event \<times> nat \<times> string \<times> time" where
  "identity_of r = (event_of_row r, ob_seq r, ob_topic r, ob_created_at r)"

lemma identity_updates [simp]:
  "identity_of (failed_row a cause now r) = identity_of r"
  "identity_of (retry_row a cause nxt r) = identity_of r"
  "identity_of (published_row now r) = identity_of r"
  "identity_of (redriven_row now r) = identity_of r"
  by (simp_all add: identity_of_def event_of_row_def failed_row_def retry_row_def published_row_def redriven_row_def)

lemma identity_fields:
  assumes "identity_of x = identity_of y"
  shows "ob_seq x = ob_seq y" and "ob_id x = ob_id y" and "same_aggregate x z = same_aggregate y z"
    and "same_aggregate z x = same_aggregate z y" and "ob_version x = ob_version y" and "ob_payload x = ob_payload y"
  using assms by (auto simp: identity_of_def event_of_row_def same_aggregate_def)

text \<open>Only the named rows change, and of those only rows that were not published yet.\<close>

definition row_effect :: "string set \<Rightarrow> outbox_row \<Rightarrow> outbox_row \<Rightarrow> bool" where
  "row_effect ids x x' \<longleftrightarrow>
     identity_of x' = identity_of x \<and> (x' = x \<or> ob_id x \<in> ids \<and> ob_published_at x = None)"

definition relay_effect :: "string set \<Rightarrow> outbox_row list \<Rightarrow> outbox_row list \<Rightarrow> bool" where
  "relay_effect ids = list_all2 (row_effect ids)"

lemma relay_effect_refl [simp]: "relay_effect ids t t"
  by (simp add: relay_effect_def row_effect_def list_all2_same)

lemma row_effect_trans: "row_effect A x y \<Longrightarrow> row_effect B y z \<Longrightarrow> row_effect (A \<union> B) x z"
  by (auto simp: row_effect_def dest: identity_fields)

lemma relay_effect_trans: "relay_effect A t u \<Longrightarrow> relay_effect B u v \<Longrightarrow> relay_effect (A \<union> B) t v"
  unfolding relay_effect_def by (rule list_all2_trans [OF row_effect_trans])

lemma update_effect:
  assumes "\<And>r. identity_of (f r) = identity_of r" and "\<And>r. P r \<Longrightarrow> ob_id r \<in> ids \<and> ob_published_at r = None"
  shows "relay_effect ids t (update_where P f t)"
  using assms by (induction t) (simp_all add: relay_effect_def row_effect_def)

lemma update_outbox_effect:
  "(\<And>r. identity_of (f r) = identity_of r) \<Longrightarrow> relay_effect {i} (outbox s) (outbox (update_outbox i f s))"
  by (simp add: update_outbox_def) (rule update_effect, simp_all add: unpublished_id_def)

lemma update_outbox_only: "\<exists>t. update_outbox i f s = s\<lparr>outbox := t\<rparr>"
  by (auto simp: update_outbox_def)

lemma recordFailure_effect:
  assumes "recordFailure c e nano publish n (pending_of r) err s = (sent, Inr s1)"
  shows "relay_effect {ob_id r} (outbox s) (outbox s1) \<and> (\<exists>t. s1 = s\<lparr>outbox := t\<rparr>)"
  using assms
  by (auto simp: recordFailure_def Let_def pending_of_def event_of_row_def split: if_splits option.splits
      intro!: update_outbox_effect update_outbox_only)

lemma relay_loop_effect:
  "relay_loop c e nanos publish n rs s = (sent, Inr (k, s')) \<Longrightarrow>
   relay_effect (ob_id ` set rs) (outbox s) (outbox s') \<and> (\<exists>t. s' = s\<lparr>outbox := t\<rparr>)"
proof (induction rs arbitrary: n s sent k)
  case (Cons r rs)
  obtain s1 later j n' where s1: "relay_effect {ob_id r} (outbox s) (outbox s1) \<and> (\<exists>t. s1 = s\<lparr>outbox := t\<rparr>)" and
    rest: "relay_loop c e nanos publish n' rs s1 = (later, Inr (j, s'))"
  proof (cases "publish n (ob_topic r) (event_of_row r)")
    case None
    with Cons.prems obtain later j where
      "relay_loop c e nanos publish (n + 2) rs (update_outbox (ob_id r) (published_row (env_now e)) s) = (later, Inr (j, s'))"
      by (auto split: if_splits prod.splits sum.splits)
    then show thesis
      by (intro that [of "update_outbox (ob_id r) (published_row (env_now e)) s"] conjI update_outbox_effect
          update_outbox_only identity_updates)
  next
    case (Some err)
    with Cons.prems obtain first s1 later where
      f: "recordFailure c e (nanos n) publish n (pending_of r) err s = (first, Inr s1)" and
      "relay_loop c e nanos publish (n + 2) rs s1 = (later, Inr (k, s'))"
      by (auto split: prod.splits sum.splits)
    with recordFailure_effect [OF f] show thesis by (intro that)
  qed
  have "relay_effect ({ob_id r} \<union> ob_id ` set rs) (outbox s) (outbox s')"
    using relay_effect_trans conjunct1 [OF s1] conjunct1 [OF Cons.IH [OF rest]] by blast
  moreover have "\<exists>t. s' = s\<lparr>outbox := t\<rparr>" using conjunct2 [OF s1] conjunct2 [OF Cons.IH [OF rest]] by auto
  ultimately show ?case by simp
qed (auto intro: exI [of _ "outbox s'"])


lemma RelayOnce_effect:
  assumes "RelayOnce c e nanos publish locked s = (s', sent, r)"
  shows "relay_effect (ob_id ` set (relay_claim c (env_now e) locked (outbox s))) (outbox s) (outbox s') \<and>
    (\<exists>t. s' = s\<lparr>outbox := t\<rparr>)"
  using assms relay_loop_effect
  by (fastforce simp: RelayOnce_def split: prod.splits sum.splits intro: exI [of _ "outbox s"])

lemma relay_claim_memb:
  "r \<in> set (relay_claim c now locked t) \<Longrightarrow> r \<in> set t \<and> relay_eligible now t r \<and> \<not> locked (ob_id r)"
  by (auto simp: relay_claim_def dest: in_set_takeD)

subsection \<open>The history of an aggregate\<close>

text \<open>Sequence numbers grow and are below the next one; the published rows of an aggregate are a prefix.\<close>

definition outbox_numbered :: "db \<Rightarrow> bool" where
  "outbox_numbered s \<longleftrightarrow> distinct (map ob_seq (outbox s)) \<and> list_all (\<lambda>r. ob_seq r < outbox_seq s) (outbox s)"

definition published_prefix :: "outbox_row list \<Rightarrow> bool" where
  "published_prefix t \<longleftrightarrow> list_all (\<lambda>y. ob_published_at y = None \<or>
     list_all (\<lambda>x. same_aggregate x y \<and> ob_seq x < ob_seq y \<longrightarrow> ob_published_at x \<noteq> None) t) t"

definition outbox_history :: "db \<Rightarrow> bool" where
  "outbox_history s \<longleftrightarrow> outbox_numbered s \<and> published_prefix (outbox s)"

lemma published_prefix_iff:
  "published_prefix t \<longleftrightarrow> (\<forall>y\<in>set t. \<forall>x\<in>set t. ob_published_at y \<noteq> None \<longrightarrow> same_aggregate x y \<longrightarrow> ob_seq x < ob_seq y \<longrightarrow>
     ob_published_at x \<noteq> None)"
  unfolding published_prefix_def list_all_iff by (intro ball_cong refl) (metis (full_types))

lemma relay_effect_maps:
  assumes "relay_effect ids t t'"
  shows "map ob_seq t' = map ob_seq t" and "map ob_id t' = map ob_id t"
  using assms unfolding relay_effect_def
  by (induction rule: list_all2_induct) (auto simp: row_effect_def dest: identity_fields)

lemma relay_effect_memb:
  "relay_effect ids t t' \<Longrightarrow> x' \<in> set t' \<Longrightarrow> \<exists>x\<in>set t. row_effect ids x x'"
  unfolding relay_effect_def by (induction rule: list_all2_induct) auto

lemma effect_keeps_prefix:
  assumes "relay_effect ids t t'" and "published_prefix t"
    and heads: "\<And>y x. y \<in> set t \<Longrightarrow> ob_id y \<in> ids \<Longrightarrow> x \<in> set t \<Longrightarrow> same_aggregate x y \<Longrightarrow> ob_seq x < ob_seq y \<Longrightarrow>
      ob_published_at x \<noteq> None"
  shows "published_prefix t'"
proof -
  have "ob_published_at x' \<noteq> None"
    if "y' \<in> set t'" "x' \<in> set t'" "ob_published_at y' \<noteq> None" "same_aggregate x' y'" "ob_seq x' < ob_seq y'" for x' y'
  proof -
    from relay_effect_memb [OF assms(1) that(1)] obtain y where y: "y \<in> set t" "row_effect ids y y'" by blast
    from relay_effect_memb [OF assms(1) that(2)] obtain x where x: "x \<in> set t" "row_effect ids x x'" by blast
    have same: "same_aggregate x y" "ob_seq x < ob_seq y"
      using x(2) y(2) that(4,5) identity_fields [of x' x] identity_fields [of y' y] by (auto simp: row_effect_def)
    have "ob_published_at x \<noteq> None"
    proof (cases "y' = y")
      case True
      with that(3) y(1) x(1) same assms(2) show ?thesis unfolding published_prefix_iff by blast
    next
      case False
      with y heads x(1) same show ?thesis by (auto simp: row_effect_def)
    qed
    with x(2) show ?thesis by (auto simp: row_effect_def)
  qed
  then show ?thesis unfolding published_prefix_iff by blast
qed

lemma effect_keeps_numbered:
  assumes "relay_effect ids (outbox s) (outbox s')" and "outbox_seq s' = outbox_seq s" and "outbox_numbered s"
  shows "outbox_numbered s'"
proof -
  have same: "ob_seq ` set (outbox s') = ob_seq ` set (outbox s)"
    unfolding set_map [symmetric] relay_effect_maps(1) [OF assms(1)] ..
  have "\<forall>r\<in>set (outbox s'). ob_seq r < outbox_seq s"
  proof
    fix r assume "r \<in> set (outbox s')"
    then have "ob_seq r \<in> ob_seq ` set (outbox s)" unfolding same [symmetric] by simp
    then show "ob_seq r < outbox_seq s" using assms(3) by (auto simp: outbox_numbered_def list_all_iff)
  qed
  then show ?thesis
    using assms(2,3) relay_effect_maps(1) [OF assms(1)] by (simp add: outbox_numbered_def list_all_iff)
qed

text \<open>An update that publishes nothing keeps the history.\<close>

lemma prefix_frame:
  assumes "\<And>r. identity_of (f r) = identity_of r \<and> ob_published_at (f r) = ob_published_at r" and "published_prefix t"
  shows "published_prefix (update_where P f t)"
proof -
  let ?g = "\<lambda>r. if P r then f r else r"
  have g: "identity_of (?g r) = identity_of r" "ob_published_at (?g r) = ob_published_at r" for r using assms(1) by auto
  show ?thesis
    using assms(2) identity_fields(1,3,4) [OF g(1)]
    unfolding published_prefix_iff set_update_where by (simp only: ball_simps g)
qed

lemma RelayOnce_history:
  assumes "RelayOnce c e nanos publish locked s = (s', sent, r)" and "outbox_ok (outbox s)" and "outbox_history s"
  shows "outbox_history s'"
proof -
  let ?claim = "relay_claim c (env_now e) locked (outbox s)"
  note eff = RelayOnce_effect [OF assms(1)]
  have "published_prefix (outbox s')"
  proof (rule effect_keeps_prefix)
    show "relay_effect (ob_id ` set ?claim) (outbox s) (outbox s')" using eff by blast
    show "published_prefix (outbox s)" using assms(3) by (simp add: outbox_history_def)
    fix y x assume y: "y \<in> set (outbox s)" "ob_id y \<in> ob_id ` set ?claim" and x: "x \<in> set (outbox s)" "same_aggregate x y" "ob_seq x < ob_seq y"
    from y(2) obtain z where z: "z \<in> set ?claim" "ob_id z = ob_id y" by auto
    have "z = y" using relay_claim_memb [OF z(1)] z(2) y(1) assms(2) by (auto simp: outbox_ok_def distinct_map dest: inj_onD)
    with relay_claim_memb [OF z(1)] x show "ob_published_at x \<noteq> None" by (auto simp: relay_eligible_def list_ex_iff)
  qed
  moreover have "outbox_numbered s'"
    using effect_keeps_numbered eff assms(3) by (auto simp: outbox_history_def)
  ultimately show ?thesis by (simp add: outbox_history_def)
qed

lemma Relay_Redrive_history:
  assumes "Relay_Redrive e i s = Inr s'" and "outbox_history s"
  shows "outbox_history s'"
proof -
  from assms(1) have s': "s' = s\<lparr>outbox := update_where (dead_lettered i) (redriven_row (env_now e)) (outbox s)\<rparr>"
    by (auto simp: Relay_Redrive_def split: if_splits)
  have "published_prefix (outbox s')"
    using assms(2) prefix_frame [of "redriven_row (env_now e)" "outbox s" "dead_lettered i"]
    by (simp add: s' outbox_history_def) (simp add: redriven_row_def)
  moreover have "outbox_numbered s'"
    using assms(2) by (simp add: s' outbox_history_def outbox_numbered_def table_simps redriven_row_def)
  ultimately show ?thesis by (simp add: outbox_history_def)
qed

lemma new_outbox_published: "ob_published_at (new_outbox i topic ty ver agg aggty payload at) = None"
  by (simp add: new_outbox_def)

lemma insert_outbox_history:
  assumes "insert_outbox r s = Inr s'" and "ob_published_at r = None" and "outbox_history s"
  shows "outbox_history s'"
proof -
  from assms(1) have s': "s' = s\<lparr>outbox := outbox s @ [r\<lparr>ob_seq := outbox_seq s\<rparr>], outbox_seq := Suc (outbox_seq s)\<rparr>"
    by (auto simp: insert_outbox_def split: if_splits)
  from assms(3) have below: "\<forall>x\<in>set (outbox s). ob_seq x < outbox_seq s"
    by (simp add: outbox_history_def outbox_numbered_def list_all_iff)
  then have "published_prefix (outbox s')"
    using assms(2,3) by (auto simp: s' outbox_history_def published_prefix_def list_all_iff same_aggregate_def)
  moreover have "outbox_numbered s'"
    using assms(3) below by (fastforce simp: s' outbox_history_def outbox_numbered_def list_all_iff)
  ultimately show ?thesis by (simp add: outbox_history_def)
qed


subsection \<open>Bounded retries\<close>

text \<open>A row that is still to be delivered has attempts left.\<close>

definition attempts_ok :: "Relay \<Rightarrow> outbox_row \<Rightarrow> bool" where
  "attempts_ok c r \<longleftrightarrow> 0 \<le> ob_attempts r \<and>
     (ob_published_at r = None \<and> ob_failed_at r = None \<longrightarrow> ob_attempts r < rl_maxAttempts c)"

lemma attempts_ok_update:
  "list_all Q t \<Longrightarrow> (\<And>r. P r \<Longrightarrow> Q r \<Longrightarrow> Q (f r)) \<Longrightarrow> list_all Q (update_where P f t)"
  by (induction t) auto

lemma recordFailure_attempts:
  assumes "recordFailure c e nano publish n (pending_of r) err s = (sent, Inr s1)"
    and "list_all (attempts_ok c) (outbox s)" and "0 \<le> ob_attempts r"
  shows "list_all (attempts_ok c) (outbox s1)"
proof -
  let ?a = "ob_attempts r + 1"
  from assms(1) have "(\<exists>cause. s1 = update_outbox (ob_id r) (failed_row ?a cause (env_now e)) s) \<or>
      ?a < rl_maxAttempts c \<and> (\<exists>cause nxt. s1 = update_outbox (ob_id r) (retry_row ?a cause nxt) s)"
    by (auto simp: recordFailure_def Let_def pending_of_def event_of_row_def exhausted_def split: if_splits option.splits)
  then show ?thesis
    using assms(2,3)
    by (auto simp: update_outbox_def attempts_ok_def failed_row_def retry_row_def intro!: attempts_ok_update)
qed

lemma relay_loop_attempts:
  "relay_loop c e nanos publish n rs s = (sent, Inr (k, s')) \<Longrightarrow> list_all (attempts_ok c) (outbox s) \<Longrightarrow>
   list_all (\<lambda>r. 0 \<le> ob_attempts r) rs \<Longrightarrow> list_all (attempts_ok c) (outbox s')"
proof (induction rs arbitrary: n s sent k)
  case (Cons r rs)
  show ?case
  proof (cases "publish n (ob_topic r) (event_of_row r)")
    case None
    with Cons.prems(1) obtain later j where
      rest: "relay_loop c e nanos publish (n + 2) rs (update_outbox (ob_id r) (published_row (env_now e)) s) = (later, Inr (j, s'))"
      by (auto split: if_splits prod.splits sum.splits)
    have "list_all (attempts_ok c) (outbox (update_outbox (ob_id r) (published_row (env_now e)) s))"
      by (simp add: update_outbox_def, rule attempts_ok_update [OF Cons.prems(2)]) (simp add: attempts_ok_def published_row_def)
    with Cons.IH [OF rest] Cons.prems(3) show ?thesis by simp
  next
    case (Some err)
    with Cons.prems(1) obtain first s1 later where
      f: "recordFailure c e (nanos n) publish n (pending_of r) err s = (first, Inr s1)" and
      rest: "relay_loop c e nanos publish (n + 2) rs s1 = (later, Inr (k, s'))"
      by (auto split: prod.splits sum.splits)
    with Cons.IH [OF rest] recordFailure_attempts [OF f Cons.prems(2)] Cons.prems(3) show ?thesis by simp
  qed
qed auto

lemma RelayOnce_attempts:
  assumes "RelayOnce c e nanos publish locked s = (s', sent, r)" and "list_all (attempts_ok c) (outbox s)"
  shows "list_all (attempts_ok c) (outbox s')"
proof -
  have "list_all (\<lambda>r. 0 \<le> ob_attempts r) (relay_claim c (env_now e) locked (outbox s))"
    using relay_claim_memb assms(2) by (fastforce simp: list_all_iff attempts_ok_def)
  with assms relay_loop_attempts show ?thesis
    by (fastforce simp: RelayOnce_def split: prod.splits sum.splits)
qed

subsection \<open>A working broker\<close>

definition accept_all :: producer where
  "accept_all n topic ev = None"

lemma accept_all_app: "accept_all n topic ev = None"
  by (simp add: accept_all_def)

definition message_of :: "outbox_row \<Rightarrow> string \<times> event" where
  "message_of r = (ob_topic r, event_of_row r)"

definition pending_rows :: "outbox_row list \<Rightarrow> outbox_row list" where
  "pending_rows t = filter (\<lambda>r. ob_published_at r = None) t"

definition mark_published :: "string set \<Rightarrow> time \<Rightarrow> outbox_row list \<Rightarrow> outbox_row list" where
  "mark_published ids now t = update_where (\<lambda>r. ob_id r \<in> ids \<and> ob_published_at r = None) (published_row now) t"

lemma affected_unique:
  "distinct (map ob_id t) \<Longrightarrow> r \<in> set t \<Longrightarrow> ob_published_at r = None \<Longrightarrow> affected (unpublished_id (ob_id r)) t = 1"
proof (induction t)
  case (Cons x t)
  show ?case
  proof (cases "x = r")
    case True
    with Cons.prems have "affected (unpublished_id (ob_id r)) t = 0"
      by (auto simp: affected_zero_iff unpublished_id_def image_iff)
    moreover have "unpublished_id (ob_id r) r" using Cons.prems by (simp add: unpublished_id_def)
    ultimately show ?thesis using True by simp
  next
    case False
    with Cons show ?thesis by (auto simp: unpublished_id_def image_iff)
  qed
qed simp

lemma mark_published_step:
  "mark_published ids now (update_where (unpublished_id i) (published_row now) t) = mark_published (insert i ids) now t"
  by (induction t) (auto simp: mark_published_def unpublished_id_def published_row_def)

lemma relay_loop_accept:
  "distinct (map ob_id (outbox s)) \<Longrightarrow> distinct (map ob_id rs) \<Longrightarrow> set rs \<subseteq> set (outbox s) \<Longrightarrow>
   list_all (\<lambda>r. ob_published_at r = None) rs \<Longrightarrow>
   relay_loop c e nanos accept_all n rs s =
     (map message_of rs, Inr (length rs, s\<lparr>outbox := mark_published (ob_id ` set rs) (env_now e) (outbox s)\<rparr>))"
proof (induction rs arbitrary: n s)
  case Nil
  then show ?case by (simp add: mark_published_def update_where_none)
next
  case (Cons r rs)
  let ?s1 = "update_outbox (ob_id r) (published_row (env_now e)) s"
  have one: "affected (unpublished_id (ob_id r)) (outbox s) = 1" using Cons.prems by (intro affected_unique) auto
  have "x \<in> set (outbox ?s1)" if "x \<in> set rs" for x
  proof -
    have "ob_id x \<noteq> ob_id r" using that Cons.prems(2) by (metis distinct.simps(2) image_eqI list.set_map list.simps(9))
    with that Cons.prems(3) show ?thesis by (auto simp: update_outbox_def set_update_where unpublished_id_def image_iff)
  qed
  moreover have "map ob_id (outbox ?s1) = map ob_id (outbox s)"
    by (simp add: update_outbox_def map_update_where published_row_def)
  ultimately have "relay_loop c e nanos accept_all (n + 2) rs ?s1 =
      (map message_of rs, Inr (length rs, ?s1\<lparr>outbox := mark_published (ob_id ` set rs) (env_now e) (outbox ?s1)\<rparr>))"
    using Cons.prems by (intro Cons.IH) auto
  with one show ?case
    by (simp add: accept_all_app [of n "ob_topic r" "event_of_row r"] message_of_def [of r] update_outbox_def mark_published_step)
qed


lemma relay_claim_distinct:
  "distinct (map ob_id t) \<Longrightarrow> distinct (map ob_id (relay_claim c now locked t))"
  unfolding relay_claim_def take_map [symmetric]
  by (intro distinct_take) (simp add: distinct_map inj_on_def distinct_map_filter)

lemma pending_mark:
  assumes "distinct (map ob_id t)" and "set rs \<subseteq> set (pending_rows t)" and "distinct (map ob_id rs)"
  shows "mset (map message_of (pending_rows t)) =
      mset (map message_of rs) + mset (map message_of (pending_rows (mark_published (ob_id ` set rs) now t)))"
    and "length (pending_rows t) = length rs + length (pending_rows (mark_published (ob_id ` set rs) now t))"
proof -
  let ?in = "\<lambda>r. ob_id r \<in> ob_id ` set rs"
  have rest: "pending_rows (mark_published (ob_id ` set rs) now t) = filter (\<lambda>r. \<not> ?in r) (pending_rows t)"
    by (induction t) (auto simp: pending_rows_def mark_published_def published_row_def)
  have "set (filter ?in (pending_rows t)) = set rs"
  proof
    show "set (filter ?in (pending_rows t)) \<subseteq> set rs"
    proof
      fix x assume "x \<in> set (filter ?in (pending_rows t))"
      then obtain r where "x \<in> set t" "r \<in> set rs" "ob_id x = ob_id r" by (auto simp: pending_rows_def)
      moreover from this assms(2) have "r \<in> set t" by (auto simp: pending_rows_def)
      ultimately have "x = r" using assms(1) by (auto simp: distinct_map dest: inj_onD)
      with \<open>r \<in> set rs\<close> show "x \<in> set rs" by simp
    qed
    show "set rs \<subseteq> set (filter ?in (pending_rows t))" using assms(2) by auto
  qed
  moreover have "distinct (filter ?in (pending_rows t))"
    using assms(1) by (simp add: pending_rows_def distinct_map)
  moreover have "distinct rs" using assms(3) by (simp add: distinct_map)
  ultimately have perm: "mset (filter ?in (pending_rows t)) = mset rs" by (simp only: set_eq_iff_mset_eq_distinct [symmetric])
  have split: "mset (pending_rows t) = mset (filter ?in (pending_rows t)) + mset (filter (\<lambda>r. \<not> ?in r) (pending_rows t))"
    by (simp add: mset_filter)
  show "mset (map message_of (pending_rows t)) =
      mset (map message_of rs) + mset (map message_of (pending_rows (mark_published (ob_id ` set rs) now t)))"
    by (simp only: mset_map split perm rest image_mset_union)
  show "length (pending_rows t) = length rs + length (pending_rows (mark_published (ob_id ` set rs) now t))"
    by (simp only: size_mset [symmetric] split perm rest size_union)
qed

text \<open>Every pending row can be delivered: none is dead-lettered and none waits for a later time.\<close>

definition all_due :: "time \<Rightarrow> outbox_row list \<Rightarrow> bool" where
  "all_due now t \<longleftrightarrow> list_all (\<lambda>r. ob_published_at r = None \<longrightarrow> ob_failed_at r = None \<and> ob_next_attempt r \<le> now) t"

lemma claim_nonempty:
  assumes "all_due now t" and "pending_rows t \<noteq> []" and "relay_ok c"
  shows "relay_claim c now (\<lambda>_. False) t \<noteq> []"
proof -
  from assms(2) obtain r where r: "r \<in> set (pending_rows t)" "\<forall>x\<in>set (pending_rows t). ob_seq r \<le> ob_seq x"
    using ex_min_if_finite [of "ob_seq ` set (pending_rows t)"] by (auto simp: not_less)
  then have "relay_eligible now t r"
    using assms(1) by (auto simp: relay_eligible_def all_due_def list_all_iff list_ex_iff pending_rows_def not_less)
  with r(1) have "filter (\<lambda>r. relay_eligible now t r \<and> \<not> (\<lambda>_. False) (ob_id r)) t \<noteq> []"
    by (auto simp: filter_empty_conv pending_rows_def)
  then have "sort_key ob_seq (filter (\<lambda>r. relay_eligible now t r \<and> \<not> (\<lambda>_. False) (ob_id r)) t) \<noteq> []"
    by (metis set_empty set_sort)
  with assms(3) show ?thesis by (simp add: relay_claim_def relay_ok_def take_eq_Nil)
qed

lemma RelayOnce_accept:
  fixes c :: Relay and e :: env
  assumes "distinct (map ob_id (outbox s))"
  defines "rs \<equiv> relay_claim c (env_now e) (\<lambda>_. False) (outbox s)"
  shows "RelayOnce c e nanos accept_all (\<lambda>_. False) s =
    (s\<lparr>outbox := mark_published (ob_id ` set rs) (env_now e) (outbox s)\<rparr>, map message_of rs, Inr (length rs))"
  and "set rs \<subseteq> set (pending_rows (outbox s))"
proof -
  have memb: "r \<in> set (outbox s) \<and> ob_published_at r = None" if "r \<in> set rs" for r
    using relay_claim_memb that by (auto simp: rs_def relay_eligible_def)
  then show "set rs \<subseteq> set (pending_rows (outbox s))" by (auto simp: pending_rows_def)
  have "relay_loop c e nanos accept_all 0 rs s =
     (map message_of rs, Inr (length rs, s\<lparr>outbox := mark_published (ob_id ` set rs) (env_now e) (outbox s)\<rparr>))"
    using memb assms(1) relay_claim_distinct [OF assms(1)] by (intro relay_loop_accept) (auto simp: rs_def list_all_iff)
  then show "RelayOnce c e nanos accept_all (\<lambda>_. False) s =
    (s\<lparr>outbox := mark_published (ob_id ` set rs) (env_now e) (outbox s)\<rparr>, map message_of rs, Inr (length rs))"
    by (simp add: RelayOnce_def rs_def)
qed

lemma mark_published_keeps:
  "map ob_id (mark_published ids now t) = map ob_id t"
  "all_due d t \<Longrightarrow> all_due d (mark_published ids now t)"
  by (simp_all add: mark_published_def map_update_where published_row_def)
    (auto simp: all_due_def published_row_def intro!: attempts_ok_update)

lemma all_due_mono: "all_due now t \<Longrightarrow> now \<le> later \<Longrightarrow> all_due later t"
  by (auto simp: all_due_def list_all_iff)


subsection \<open>Properties\<close>


definition sample_outbox_row :: "nat \<Rightarrow> string \<Rightarrow> outbox_row" where
  "sample_outbox_row n i = (new_outbox i PayoutEventsTopic ''payout.created'' 1 ''p1'' ''payout'' (Raw (JObj [])) 5)\<lparr>ob_seq := n\<rparr>"

definition sample_outbox_db :: db where
  "sample_outbox_db = empty_db\<lparr>outbox := [sample_outbox_row 0 ''a'', sample_outbox_row 1 ''b'',
     (sample_outbox_row 2 ''c'')\<lparr>ob_aggregate_id := ''p2''\<rparr>], outbox_seq := 3\<rparr>"

definition sample_relay :: Relay where
  "sample_relay = \<lparr>rl_batchSize = 100, rl_pollInterval = Second, rl_initialBackoff = Second, rl_maxBackoff = Minute,
     rl_maxAttempts = 10, rl_maxAge = 24 * Hour, rl_deadLetterTopic = DeadLetterTopic\<rparr>"

definition sample_relay_env :: env where
  "sample_relay_env = \<lparr>env_now = 100, env_rand = (\<lambda>_. None)\<rparr>"

text \<open>A broker that refuses the first message of a round.\<close>

definition sample_broker :: producer where
  "sample_broker n topic ev = (if n = 0 then Some (ErrText ''unavailable'') else None)"

lemma sample_outbox_db_ok: "outbox_ok (outbox sample_outbox_db)" "outbox_history sample_outbox_db"
  by code_simp+


text \<open>
  C21: nothing stays in the outbox. With a working broker, no competing relay and no row dead-lettered or
  scheduled for later, as many rounds as there are pending rows publish all of them; the broker receives
  every pending event exactly once.
\<close>

theorem relay_drains:
  assumes "relay_ok c" and "distinct (map ob_id (outbox s))" and "all_due now (outbox s)"
    and "length (pending_rows (outbox s)) \<le> length rounds"
    and "\<And>x. x \<in> set rounds \<Longrightarrow> rd_publish x = accept_all \<and> rd_locked x = (\<lambda>_. False) \<and> now \<le> env_now (rd_env x)"
  shows "\<exists>s' sent. Relay_Run c rounds s = (s', sent, None) \<and> pending_rows (outbox s') = [] \<and>
    mset sent = mset (map message_of (pending_rows (outbox s)))"
  using assms(2-5)
proof (induction rounds arbitrary: s)
  case (Cons x xs)
  let ?rs = "relay_claim c (env_now (rd_env x)) (\<lambda>_. False) (outbox s)"
  let ?t = "mark_published (ob_id ` set ?rs) (env_now (rd_env x)) (outbox s)"
  have x: "rd_publish x = accept_all" "rd_locked x = (\<lambda>_. False)" "now \<le> env_now (rd_env x)" using Cons.prems(4) by simp_all
  note once = RelayOnce_accept [OF Cons.prems(1), of c "rd_env x"]
  note split = pending_mark [OF Cons.prems(1) once(2) relay_claim_distinct [OF Cons.prems(1)], of "env_now (rd_env x)"]
  have "length (pending_rows ?t) \<le> length xs"
  proof (cases "pending_rows (outbox s) = []")
    case True
    then have "length (pending_rows (outbox s)) = 0" by simp
    then have "length (pending_rows ?t) = 0" using split(2) by linarith
    then show ?thesis by linarith
  next
    case False
    with claim_nonempty [OF all_due_mono [OF Cons.prems(2) x(3)] _ assms(1)] have "?rs \<noteq> []" by blast
    then have "0 < length ?rs" by (rule length_greater_0_conv [THEN iffD2])
    moreover have "length (pending_rows (outbox s)) \<le> Suc (length xs)" using Cons.prems(3) by (simp only: list.size)
    ultimately show ?thesis using split(2) by linarith
  qed
  with Cons.prems mark_published_keeps obtain s' sent where rest: "Relay_Run c xs (s\<lparr>outbox := ?t\<rparr>) = (s', sent, None)"
    and fin: "pending_rows (outbox s') = []" "mset sent = mset (map message_of (pending_rows ?t))"
    using Cons.IH [of "s\<lparr>outbox := ?t\<rparr>"] by auto
  from once(1) [of "rd_nanos x"] rest x have "Relay_Run c (x # xs) s = (s', map message_of ?rs @ sent, None)" by simp
  with fin split(1) show ?case by simp
qed simp

theorem relay_drains_witness:
  "\<exists>s' sent. Relay_Run sample_relay (replicate 3 \<lparr>rd_env = sample_relay_env, rd_nanos = (\<lambda>_. 0), rd_publish = accept_all,
       rd_locked = (\<lambda>_. False)\<rparr>) sample_outbox_db = (s', sent, None) \<and> pending_rows (outbox s') = [] \<and> length sent = 3"
proof -
  have hyps: "relay_ok sample_relay" "distinct (map ob_id (outbox sample_outbox_db))" "all_due 100 (outbox sample_outbox_db)"
    "length (pending_rows (outbox sample_outbox_db)) = 3" by code_simp+
  have "\<exists>s' sent. Relay_Run sample_relay (replicate 3 \<lparr>rd_env = sample_relay_env, rd_nanos = (\<lambda>_. 0), rd_publish = accept_all,
       rd_locked = (\<lambda>_. False)\<rparr>) sample_outbox_db = (s', sent, None) \<and> pending_rows (outbox s') = [] \<and>
    mset sent = mset (map message_of (pending_rows (outbox sample_outbox_db)))"
    by (rule relay_drains [OF hyps(1-3)]) (simp_all add: hyps(4) sample_relay_env_def)
  then show ?thesis using hyps(4) by (metis length_map size_mset)
qed

text \<open>
  Delivery attempts are bounded. Relay rounds, redrives and new events keep it true that an
  undelivered row that is not dead-lettered has used fewer attempts than allowed.
\<close>

theorem relay_attempts_bounded:
  assumes "relay_ok c" and "list_all (attempts_ok c) (outbox s)"
    and "RelayOnce c e nanos publish locked s = (s', sent, r) \<or> Relay_Redrive e i s = Inr s' \<or>
      insert_outbox (new_outbox j topic ty ver agg aggty payload at) s = Inr s'"
  shows "list_all (attempts_ok c) (outbox s')"
proof -
  have "list_all (attempts_ok c) (outbox s')" if "Relay_Redrive e i s = Inr s'"
  proof -
    from that have s': "s' = s\<lparr>outbox := update_where (dead_lettered i) (redriven_row (env_now e)) (outbox s)\<rparr>"
      by (auto simp: Relay_Redrive_def split: if_splits)
    show ?thesis
      by (simp add: s', rule attempts_ok_update [OF assms(2)])
        (use assms(1) in \<open>simp add: attempts_ok_def redriven_row_def relay_ok_def\<close>)
  qed
  moreover have "list_all (attempts_ok c) (outbox s')"
    if "insert_outbox (new_outbox j topic ty ver agg aggty payload at) s = Inr s'"
    using that assms(1,2) by (auto simp: insert_outbox_def attempts_ok_def new_outbox_def relay_ok_def split: if_splits)
  ultimately show ?thesis using assms RelayOnce_attempts by blast
qed

theorem relay_attempts_bounded_witness:
  "\<exists>s' sent. RelayOnce sample_relay sample_relay_env (\<lambda>_. 0) sample_broker (\<lambda>_. False) sample_outbox_db = (s', sent, Inr 1) \<and>
     list_all (attempts_ok sample_relay) (outbox s') \<and> map ob_attempts (outbox s') = [1, 0, 0]"
proof -
  let ?run = "RelayOnce sample_relay sample_relay_env (\<lambda>_. 0) sample_broker (\<lambda>_. False) sample_outbox_db"
  have vals: "snd (snd ?run) = Inr 1" "map ob_attempts (outbox (fst ?run)) = [1, 0, 0]" by code_simp+
  have hyps: "relay_ok sample_relay" "list_all (attempts_ok sample_relay) (outbox sample_outbox_db)" by code_simp+
  obtain s' sent r where run: "?run = (s', sent, r)" by (metis prod_cases3)
  with relay_attempts_bounded [OF hyps disjI1 [OF run]] vals show ?thesis by simp
qed

text \<open>
  C31: the relay's backoff is the capped power of two. The doubling loop on 64-bit durations computes
  \<open>min maxBackoff (initialBackoff * 2 ^ (attempts - 1))\<close> for every valid configuration without ever
  wrapping, and the jitter keeps the wait between half of that and all of it.
\<close>

theorem relay_backoff_exact:
  assumes "NewRelay config = Inr c" and "rl_maxBackoff c \<le> max_int64" and "1 \<le> attempts"
  shows "relay_delay c attempts = capped_power (rl_maxBackoff c) (rl_initialBackoff c) (nat (attempts - 1)) \<and>
    relay_delay c attempts div 2 \<le> jitter nanos (relay_delay c attempts) \<and>
    jitter nanos (relay_delay c attempts) \<le> relay_delay c attempts \<and> relay_delay c attempts \<le> rl_maxBackoff c"
proof -
  from NewRelay_ok [OF assms(1)] have ok: "0 < rl_initialBackoff c" "rl_initialBackoff c \<le> rl_maxBackoff c"
    by (simp_all add: relay_ok_def)
  let ?d = "relay_delay c attempts"
  from relay_backoff.loop_bounds [OF ok assms(2)] ok have d: "0 < ?d" "?d \<le> rl_maxBackoff c"
    unfolding relay_delay_def by (metis less_le_trans, blast)
  have "0 \<le> nanos mod (?d div 2 + 1)" "nanos mod (?d div 2 + 1) < ?d div 2 + 1"
    using d(1) by (intro pos_mod_sign pos_mod_bound; linarith)+
  then have "?d div 2 \<le> jitter nanos ?d" "jitter nanos ?d \<le> ?d" unfolding jitter_def by linarith+
  with relay_backoff.loop_capped [OF ok assms(2)] d(2) show ?thesis by (simp add: relay_delay_def)
qed

theorem relay_backoff_exact_witness:
  "relay_delay sample_relay 4 = 8 * Second \<and> relay_delay sample_relay 9 = Minute"
proof -
  have new: "NewRelay \<lparr>rc_BatchSize = 0, rc_PollInterval = 0, rc_InitialBackoff = 0, rc_MaxBackoff = 0, rc_MaxAttempts = 0,
      rc_MaxAge = 0, rc_DeadLetterTopic = ''''\<rparr> = Inr sample_relay" by code_simp
  have "rl_maxBackoff sample_relay \<le> max_int64" by code_simp
  from relay_backoff_exact [OF new this, of 4] relay_backoff_exact [OF new this, of 9]
  show ?thesis by (simp add: capped_power_def sample_relay_def Second_def Minute_def)
qed

end
