(* ===== verification/Payment_Core.thy ===== *)
theory Payment_Core
  imports Store
begin

text \<open>
  Package \<^verbatim>\<open>paymentcore\<close>: execution results and requests with their validation (\<^verbatim>\<open>execution.go\<close>), the
  audit and timeline history (\<^verbatim>\<open>history.go\<close>), the read model of a payment (\<^verbatim>\<open>repository.go\<close>) and the
  policy evaluator of package \<^verbatim>\<open>policy\<close>.
\<close>

subsection \<open>Execution\<close>

text \<open>Go's string type admits other values than the four constants; they are \<open>ExecutionOther\<close>.\<close>

datatype ExecutionStatus =
    ExecutionPending
  | ExecutionOnHold
  | ExecutionSucceeded
  | ExecutionFailed
  | ExecutionOther string

fun execution_status_text :: "ExecutionStatus \<Rightarrow> string" where
  "execution_status_text ExecutionPending = ''pending''"
| "execution_status_text ExecutionOnHold = ''on_hold''"
| "execution_status_text ExecutionSucceeded = ''succeeded''"
| "execution_status_text ExecutionFailed = ''failed''"
| "execution_status_text (ExecutionOther t) = t"

record ProviderQuote =
  pq_ProviderQuoteID :: string
  pq_SourceCurrency :: string
  pq_DestinationCurrency :: string
  pq_SenderAmountMinor :: int
  pq_ReceiverAmountMinor :: int
  pq_CommercialRate :: string
  pq_ProviderRate :: string
  pq_FlatFeeMinor :: int
  pq_PartnerFeeMinor :: int
  pq_BillingFeeMinor :: "int option"
  pq_ExpiresAt :: time
  pq_Payload :: raw
  pq_ExecutionContext :: raw

record ExecuteRequest =
  xr_IdempotencyKey :: string
  xr_ProviderQuoteID :: string

definition ExecuteRequest_Validate :: "ExecuteRequest \<Rightarrow> unit result" where
  "ExecuteRequest_Validate r =
     (if xr_IdempotencyKey r = '''' \<or> xr_ProviderQuoteID r = ''''
      then Inl (ErrText ''execution idempotency key and provider quote ID are required'') else Inr ())"

record QuoteRequest =
  qr_IdempotencyKey :: string
  qr_TenantID :: string
  qr_FundingMethod :: string
  qr_SourceCurrency :: string
  qr_DestinationCurrency :: string
  qr_CurrencyType :: string
  qr_AmountMinor :: int
  qr_CoverFees :: bool

record ExecutionResult =
  er_ProviderReference :: string
  er_Status :: ExecutionStatus
  er_FailureCode :: string
  er_FailureMessage :: string
  er_Payload :: raw

definition ExecutionResult_Validate :: "ExecutionResult \<Rightarrow> unit result" where
  "ExecutionResult_Validate r =
     (if er_ProviderReference r = '''' then Inl (ErrText ''provider reference is required'') else
      case er_Status r of
        ExecutionPending \<Rightarrow> Inr ()
      | ExecutionOnHold \<Rightarrow> Inr ()
      | ExecutionSucceeded \<Rightarrow> Inr ()
      | ExecutionFailed \<Rightarrow>
          if er_FailureCode r = '''' then Inl (ErrText ''failed execution requires a failure code'')
          else Inr ()
      | ExecutionOther t \<Rightarrow> Inl (ErrText ''invalid execution status''))"

lemma ExecutionResult_Validate_Inr [result_simps]:
  "ExecutionResult_Validate r = Inr u \<longleftrightarrow> er_ProviderReference r \<noteq> '''' \<and>
     (er_Status r = ExecutionPending \<or> er_Status r = ExecutionOnHold \<or> er_Status r = ExecutionSucceeded \<or>
      er_Status r = ExecutionFailed \<and> er_FailureCode r \<noteq> '''')"
  by (auto simp: ExecutionResult_Validate_def split: ExecutionStatus.splits)

subsection \<open>History\<close>

definition RecordAudit :: "audit_row \<Rightarrow> db \<Rightarrow> db result" where
  "RecordAudit r s =
     (if au_payment r = '''' \<or> au_event r = ''''
      then Inl (ErrText ''audit payment ID and event are required'') else insert_audit r s)"

text \<open>A payment status is never the empty string here, its type has no such value.\<close>

definition RecordTimeline :: "timeline_row \<Rightarrow> db \<Rightarrow> db result" where
  "RecordTimeline r s =
     (if tl_payment r = '''' then Inl (ErrText ''timeline payment ID and status are required'')
      else insert_timeline r s)"

definition History_Record :: "audit_row \<Rightarrow> timeline_row \<Rightarrow> db \<Rightarrow> db result" where
  "History_Record a t s = bindE (RecordAudit a s) (RecordTimeline t)"

lemma RecordAudit_Inr [result_simps]:
  "RecordAudit r s = Inr s' \<longleftrightarrow>
     au_payment r \<noteq> '''' \<and> au_event r \<noteq> '''' \<and> has_payment (au_payment r) s \<and>
     s' = s\<lparr>audits := audits s @ [r]\<rparr>"
  by (auto simp: RecordAudit_def insert_audit_def)

lemma RecordTimeline_Inr [result_simps]:
  "RecordTimeline r s = Inr s' \<longleftrightarrow>
     tl_payment r \<noteq> '''' \<and> has_payment (tl_payment r) s \<and> s' = s\<lparr>timeline := timeline s @ [r]\<rparr>"
  by (auto simp: RecordTimeline_def insert_timeline_def)

lemma History_Record_Inr [result_simps]:
  "History_Record a t s = Inr s' \<longleftrightarrow>
     au_payment a \<noteq> '''' \<and> au_event a \<noteq> '''' \<and> has_payment (au_payment a) s \<and>
     tl_payment t \<noteq> '''' \<and> has_payment (tl_payment t) s \<and>
     s' = s\<lparr>audits := audits s @ [a], timeline := timeline s @ [t]\<rparr>"
  by (auto simp: History_Record_def result_simps has_defs)

lemma RecordTimeline_keeps [store_keeps]:
  "RecordTimeline r s = Inr s' \<Longrightarrow> store_ok s \<Longrightarrow> store_ok s'"
  by (auto simp: RecordTimeline_def split: if_splits intro: store_keeps)

lemma History_Record_keeps [store_keeps]:
  "History_Record a t s = Inr s' \<Longrightarrow> store_ok s \<Longrightarrow> store_ok s'"
  by (auto simp: History_Record_def RecordAudit_def result_simps split: if_splits
      intro: RecordTimeline_keeps insert_audit_keeps)

subsection \<open>Reading payments\<close>

record SettlementOperation =
  so_Provider :: string
  so_ProviderReference :: string
  so_Status :: string
  so_ReconciliationStatus :: ReconciliationStatus
  so_Instructions :: "json option"

record Payment =
  pm_ID :: string
  pm_Direction :: PaymentDirection
  pm_ExternalReference :: string
  pm_Currency :: string
  pm_AmountMinor :: int
  pm_TenantID :: string
  pm_PaymentStatus :: PaymentStatus
  pm_AuditLog :: "audit_row list"
  pm_Timeline :: "timeline_row list"
  pm_CreatedAt :: time
  pm_UpdatedAt :: time
  pm_IdempotencyKey :: string
  pm_QuoteID :: string
  pm_Settlement :: "SettlementOperation option"

definition find_payment :: "string \<Rightarrow> db \<Rightarrow> payment_row option" where
  "find_payment i s = List.find (\<lambda>p. pay_id p = i) (payments s)"

definition status_of :: "string \<Rightarrow> db \<Rightarrow> PaymentStatus option" where
  "status_of i s = map_option pay_status (find_payment i s)"

definition payment_of_row :: "payment_row \<Rightarrow> Payment" where
  "payment_of_row p = \<lparr>pm_ID = pay_id p, pm_Direction = pay_direction p,
     pm_ExternalReference = pay_external_reference p, pm_Currency = pay_currency p,
     pm_AmountMinor = pay_amount p, pm_TenantID = pay_tenant p, pm_PaymentStatus = pay_status p,
     pm_AuditLog = [], pm_Timeline = [], pm_CreatedAt = pay_created_at p,
     pm_UpdatedAt = pay_updated_at p, pm_IdempotencyKey = pay_idempotency_key p, pm_QuoteID = '''',
     pm_Settlement = None\<rparr>"

definition quote_of_payment :: "string \<Rightarrow> db \<Rightarrow> string" where
  "quote_of_payment i s =
     (case List.find (\<lambda>q. q_payment q = Some i) (quotes s) of None \<Rightarrow> '''' | Some q \<Rightarrow> q_id q)"

definition settlement_of :: "PaymentDirection \<Rightarrow> string \<Rightarrow> db \<Rightarrow> SettlementOperation option" where
  "settlement_of d i s =
     (case d of
        PaymentDirectionPayin \<Rightarrow>
          map_option (\<lambda>r. \<lparr>so_Provider = pi_provider r, so_ProviderReference = coalesce (pi_provider_payin r),
             so_Status = pi_status r, so_ReconciliationStatus = pi_reconciliation r,
             so_Instructions = (case pi_instructions r of Raw j \<Rightarrow> Some j | _ \<Rightarrow> None)\<rparr>)
            (List.find (\<lambda>r. pi_payment r = i) (payins s))
      | PaymentDirectionPayout \<Rightarrow>
          map_option (\<lambda>r. \<lparr>so_Provider = po_provider r, so_ProviderReference = coalesce (po_provider_payout r),
             so_Status = po_status r, so_ReconciliationStatus = po_reconciliation r,
             so_Instructions = None\<rparr>)
            (List.find (\<lambda>r. po_payment r = i) (payouts s)))"

text \<open>\<open>ORDER BY occurred_at, id\<close>: the rows are in insertion (id) order and the sort is stable.\<close>

definition timeline_of :: "string \<Rightarrow> db \<Rightarrow> timeline_row list" where
  "timeline_of i s = sort_key tl_at (filter (\<lambda>t. tl_payment t = i) (timeline s))"

definition GetPayment :: "string \<Rightarrow> db \<Rightarrow> Payment result" where
  "GetPayment i s =
     (case find_payment i s of
        None \<Rightarrow> Inl ErrPaymentNotFound
      | Some p \<Rightarrow> Inr ((payment_of_row p)\<lparr>pm_QuoteID := quote_of_payment i s,
                      pm_Settlement := settlement_of (pay_direction p) i s,
                      pm_Timeline := timeline_of i s\<rparr>))"

definition Repository_Timeline :: "string \<Rightarrow> db \<Rightarrow> timeline_row list result" where
  "Repository_Timeline i s = bindE (GetPayment i s) (\<lambda>p. Inr (pm_Timeline p))"

subsection \<open>How the payments table changes\<close>

lemma find_payment_id: "find_payment i s = Some p \<Longrightarrow> pay_id p = i \<and> p \<in> set (payments s)"
  by (auto simp: find_payment_def dest: find_Some_memb)

lemma find_payment_None: "find_payment i s = None \<longleftrightarrow> \<not> has_payment i s"
  by (auto simp: find_payment_def find_None_iff_all has_payment_def)

lemma find_payment_has: "find_payment i s = Some p \<Longrightarrow> has_payment i s"
  by (metis find_payment_None option.distinct(1))

lemma find_payment_set_status [simp]:
  "find_payment j (set_payment_status i st at s) =
     (if i = j then map_option (\<lambda>p. p\<lparr>pay_status := st, pay_updated_at := at\<rparr>) (find_payment j s)
      else find_payment j s)"
  by (cases "find_payment j s")
    (auto simp: find_payment_def set_payment_status_def find_update_where dest!: find_Some_memb)

lemma find_payment_frame:
  "payments s' = payments s \<Longrightarrow> find_payment i s' = find_payment i s"
  by (simp add: find_payment_def)

lemma status_of_frame: "payments s' = payments s \<Longrightarrow> status_of i s' = status_of i s"
  by (simp add: status_of_def find_payment_def)

lemma status_of_set_status:
  "status_of j (set_payment_status i st at s) =
     (if i = j \<and> has_payment j s then Some st else status_of j s)"
proof (cases "find_payment j s")
  case None
  then have "\<not> has_payment j s" by (simp add: find_payment_None)
  with None show ?thesis by (simp add: status_of_def)
next
  case (Some p)
  then show ?thesis by (simp add: status_of_def find_payment_has)
qed

subsection \<open>Policy\<close>

record PolicyRequest =
  pr_OperationID :: string
  pr_Direction :: string
  pr_AmountMinor :: int
  pr_Currency :: string

record PolicyDecision =
  pd_Approved :: bool
  pd_Reason :: string

type_synonym evaluator = "PolicyRequest \<Rightarrow> PolicyDecision result"

text \<open>\<open>DeterministicEvaluator{RejectAmountMinor: reject}.Evaluate\<close>\<close>

definition DeterministicEvaluator_Evaluate :: "int \<Rightarrow> evaluator" where
  "DeterministicEvaluator_Evaluate reject r =
     (if pr_OperationID r = '''' \<or> (pr_Direction r \<noteq> ''payin'' \<and> pr_Direction r \<noteq> ''payout'') \<or>
         pr_AmountMinor r \<le> 0 \<or> pr_Currency r = ''''
      then Inr \<lparr>pd_Approved = False, pd_Reason = ''invalid payment''\<rparr>
      else if 0 < reject \<and> pr_AmountMinor r = reject
      then Inr \<lparr>pd_Approved = False, pd_Reason = ''rejected by local policy''\<rparr>
      else Inr \<lparr>pd_Approved = True, pd_Reason = ''''\<rparr>)"

end
