(* ===== verification/Inbox.thy ===== *)
theory Inbox
  imports Payment_Core
begin

text \<open>
  Packages \<^verbatim>\<open>inbox\<close> and \<^verbatim>\<open>consumer\<close>: the transactional inbox that makes a handler run once per event and
  consumer, and the Kafka loop that retries a message until it is processed or permanently rejected.

  A handler maps an event and the database to a pair: the database as the handler's own side
  transactions leave it (what remains when the inbox transaction rolls back) and the result of the inbox
  transaction. The locale \<open>event_handler\<close> is the contract the processor relies on; every handler of the
  program interprets it.
\<close>

subsection \<open>The processor\<close>

type_synonym handler = "env \<Rightarrow> event \<Rightarrow> db \<Rightarrow> db \<times> db result"

text \<open>A handler that works only in the supplied transaction.\<close>

definition in_tx :: "(env \<Rightarrow> event \<Rightarrow> db \<Rightarrow> db result) \<Rightarrow> handler" where
  "in_tx h e ev s = (s, h e ev s)"

definition inbox_row_of :: "string \<Rightarrow> event \<Rightarrow> time \<Rightarrow> inbox_row" where
  "inbox_row_of consumer ev now = \<lparr>ib_consumer = consumer, ib_event = ev_ID ev, ib_type = ev_Type ev,
     ib_version = ev_Version ev, ib_aggregate_id = ev_AggregateID ev, ib_aggregate_type = ev_AggregateType ev,
     ib_occurred_at = ev_OccurredAt ev, ib_received_at = now\<rparr>"

definition upcast_with :: "registry option \<Rightarrow> event \<Rightarrow> event result" where
  "upcast_with schemas ev = (case schemas of None \<Rightarrow> Inr ev | Some r \<Rightarrow> Upcast r ev)"

text \<open>The database after the call and its result: \<open>True\<close> when the handler ran, \<open>False\<close> for a duplicate.\<close>

definition Process :: "registry option \<Rightarrow> string \<Rightarrow> handler \<Rightarrow> env \<Rightarrow> event \<Rightarrow> db \<Rightarrow> db \<times> bool result" where
  "Process schemas consumer handler e ev s =
     (if consumer = '''' then (s, Inl (ErrText ''inbox consumer name is required'')) else
      case Event_Validate ev of
        Inl err \<Rightarrow> (s, Inl err)
      | Inr _ \<Rightarrow>
         (case insert_inbox_once (inbox_row_of consumer ev (env_now e)) s of
            Inl err \<Rightarrow> (s, Inl err)
          | Inr (s1, inserted) \<Rightarrow>
              if inserted = 0 then (s, Inr False)
              else (case upcast_with schemas ev of
                      Inl err \<Rightarrow> (s, Inl err)
                    | Inr handlerEvent \<Rightarrow>
                        (case handler e handlerEvent s1 of
                           (side, Inl err) \<Rightarrow> (side\<lparr>inbox := inbox s\<rparr>, Inl err)
                         | (side, Inr s2) \<Rightarrow> (s2, Inr True)))))"

definition processed :: "string \<Rightarrow> string \<Rightarrow> db \<Rightarrow> bool" where
  "processed consumer i s \<longleftrightarrow> list_ex (\<lambda>r. ib_consumer r = consumer \<and> ib_event r = i) (inbox s)"

text \<open>A sequence of deliveries, each with its own clock and random source; failed ones included.\<close>

fun deliver :: "registry option \<Rightarrow> string \<Rightarrow> handler \<Rightarrow> (env \<times> event) list \<Rightarrow> db \<Rightarrow> db" where
  "deliver schemas consumer handler [] s = s"
| "deliver schemas consumer handler ((e, ev) # ds) s =
     deliver schemas consumer handler ds (fst (Process schemas consumer handler e ev s))"

subsection \<open>The contract of a handler\<close>

locale event_handler =
  fixes handler :: handler
  assumes commit_inbox: "handler e ev s = (side, Inr s2) \<Longrightarrow> inbox s2 = inbox s"
    and side_inbox: "handler e ev s = (side, r) \<Longrightarrow> inbox side = inbox s"
begin

lemma Process_inbox:
  assumes "Process schemas consumer handler e ev s = (s', r)"
  shows "inbox s' = (if r = Inr True then inbox s @ [inbox_row_of consumer ev (env_now e)] else inbox s)"
  using assms commit_inbox
  by (auto simp: Process_def insert_inbox_once_def split: if_splits sum.splits prod.splits)

lemma Process_processed:
  assumes "Process schemas consumer handler e ev s = (s', Inr b)"
  shows "processed consumer (ev_ID ev) s' \<and> (b \<longleftrightarrow> \<not> processed consumer (ev_ID ev) s)"
proof (cases b)
  case True
  with assms Process_inbox [OF assms] show ?thesis
    by (auto simp: Process_def insert_inbox_once_def processed_def inbox_row_of_def
        split: if_splits sum.splits prod.splits)
next
  case False
  with assms show ?thesis
    by (auto simp: Process_def insert_inbox_once_def processed_def inbox_row_of_def
        split: if_splits sum.splits prod.splits)
qed

lemma Process_duplicate:
  assumes "processed consumer (ev_ID ev) s" and "consumer \<noteq> ''''" and "Event_Validate ev = Inr ()"
  shows "Process schemas consumer handler e ev s = (s, Inr False)"
proof -
  have "1 \<le> ev_Version ev" using assms(3) by (simp add: result_simps)
  with assms show ?thesis
    by (simp add: Process_def insert_inbox_once_def processed_def inbox_row_of_def)
qed

lemma deliver_processed:
  "processed consumer i s \<Longrightarrow> processed consumer i (deliver schemas consumer' handler ds s)"
proof (induction ds arbitrary: s)
  case (Cons d ds)
  obtain e ev where d: "d = (e, ev)" by (cases d)
  obtain s' r where p: "Process schemas consumer' handler e ev s = (s', r)" by fastforce
  have "processed consumer i s'" using Cons.prems Process_inbox [OF p] by (auto simp: processed_def)
  with Cons.IH show ?case by (simp add: d p)
qed simp

text \<open>Once an event has been processed, no later delivery runs the handler on it again.\<close>

lemma exactly_once:
  assumes "Process schemas consumer handler e ev s = (s1, Inr b)"
  shows "Process schemas consumer handler e' ev (deliver schemas consumer' handler ds s1) =
    (deliver schemas consumer' handler ds s1, Inr False)"
proof (rule Process_duplicate)
  show "processed consumer (ev_ID ev) (deliver schemas consumer' handler ds s1)"
    using deliver_processed Process_processed [OF assms] by blast
  show "consumer \<noteq> ''''" "Event_Validate ev = Inr ()"
    using assms by (auto simp: Process_def split: if_splits sum.splits)
qed

text \<open>A failed delivery leaves no inbox row, so the event is handled again when it is redelivered.\<close>

lemma failed_not_recorded:
  "Process schemas consumer handler e ev s = (s1, Inl err) \<Longrightarrow> inbox s1 = inbox s"
  using Process_inbox by fastforce

end

text \<open>A handler that works only in the transaction rolls back completely.\<close>

lemma in_tx_rollback:
  "Process schemas consumer (in_tx h) e ev s = (s1, Inl err) \<Longrightarrow> s1 = s"
  by (auto simp: Process_def in_tx_def insert_inbox_once_def split: if_splits sum.splits prod.splits)

lemma in_tx_commit:
  assumes "Process None consumer (in_tx h) e ev s = (s1, Inr True)"
  shows "h e ev (s\<lparr>inbox := inbox s @ [inbox_row_of consumer ev (env_now e)]\<rparr>) = Inr s1"
  using assms
  by (auto simp: Process_def in_tx_def insert_inbox_once_def upcast_with_def split: if_splits sum.splits prod.splits)

subsection \<open>The consumer loop\<close>

datatype loop_outcome = Committed "err option" | Retrying

text \<open>
  The retry loop on one message. \<open>process k\<close> is the processor at attempt \<open>k\<close> (each attempt has its own
  clock and random source); the first argument bounds the number of attempts looked at, \<open>Retrying\<close>
  means that all of them failed transiently.
\<close>

fun retry_loop ::
  "nat \<Rightarrow> nat \<Rightarrow> (nat \<Rightarrow> event \<Rightarrow> db \<Rightarrow> db \<times> bool result) \<Rightarrow> event \<Rightarrow> db \<Rightarrow> db \<times> loop_outcome" where
  "retry_loop 0 k process ev s = (s, Retrying)"
| "retry_loop (Suc n) k process ev s =
     (case process k ev s of
        (s1, Inr b) \<Rightarrow> (s1, Committed None)
      | (s1, Inl err) \<Rightarrow> if IsPermanent err then (s1, Committed (Some err))
                        else retry_loop n (Suc k) process ev s1)"

text \<open>One message: \<open>decoded\<close> is the result of \<^verbatim>\<open>json.Unmarshal\<close> on its value.\<close>

definition consume_message ::
  "nat \<Rightarrow> (nat \<Rightarrow> event \<Rightarrow> db \<Rightarrow> db \<times> bool result) \<Rightarrow> event result \<Rightarrow> db \<Rightarrow> db \<times> loop_outcome" where
  "consume_message fuel process decoded s =
     (case decoded of
        Inl err \<Rightarrow> (s, Committed (Some (Permanent err)))
      | Inr ev \<Rightarrow>
         (case Event_Validate ev of
            Inl err \<Rightarrow> (s, Committed (Some (Permanent err)))
          | Inr _ \<Rightarrow> retry_loop fuel 0 process ev s))"

text \<open>
  The loop over the fetched messages: it stops at the first message that is not committed, and returns
  the number of committed messages with the permanent errors reported. \<open>process i k\<close> is the processor at
  attempt \<open>k\<close> on the \<open>i\<close>-th message.
\<close>

fun Loop_Run ::
  "nat \<Rightarrow> nat \<Rightarrow> (nat \<Rightarrow> nat \<Rightarrow> event \<Rightarrow> db \<Rightarrow> db \<times> bool result) \<Rightarrow> event result list \<Rightarrow> db \<Rightarrow> db \<times> nat \<times> err list" where
  "Loop_Run fuel i process [] s = (s, 0, [])"
| "Loop_Run fuel i process (m # ms) s =
     (case consume_message fuel (process i) m s of
        (s1, Retrying) \<Rightarrow> (s1, 0, [])
      | (s1, Committed perm) \<Rightarrow>
          (case Loop_Run fuel (Suc i) process ms s1 of
             (s2, n, errs) \<Rightarrow> (s2, Suc n, (case perm of None \<Rightarrow> errs | Some err \<Rightarrow> err # errs))))"

lemma retry_loop_transient:
  assumes "\<And>j. j < n \<Longrightarrow> \<exists>err. process (k + j) ev s = (s, Inl err) \<and> \<not> IsPermanent err"
  shows "retry_loop (n + m) k process ev s = retry_loop m (k + n) process ev s"
  using assms
proof (induction n arbitrary: k)
  case (Suc n)
  from Suc.prems [of 0] obtain err where "process k ev s = (s, Inl err)" "\<not> IsPermanent err" by auto
  then have "retry_loop (Suc n + m) k process ev s = retry_loop (n + m) (Suc k) process ev s" by simp
  also have "\<dots> = retry_loop m (Suc k + n) process ev s"
  proof (rule Suc.IH)
    fix j assume "j < n"
    with Suc.prems [of "Suc j"] show "\<exists>err. process (Suc k + j) ev s = (s, Inl err) \<and> \<not> IsPermanent err" by simp
  qed
  finally show ?case by simp
qed simp

lemma retry_loop_success:
  "retry_loop n k process ev s = (s', Committed None) \<Longrightarrow> \<exists>j s1 b. process j ev s1 = (s', Inr b)"
proof (induction n arbitrary: k s)
  case (Suc n)
  then show ?case by (auto split: prod.splits sum.splits if_splits)
qed simp

lemma Loop_Run_length: "Loop_Run fuel i process ms s = (s', n, errs) \<Longrightarrow> n \<le> length ms \<and> length errs \<le> n"
  by (induction ms arbitrary: i s s' n errs)
    (auto split: prod.splits loop_outcome.splits option.splits, fastforce+)

text \<open>With the processor of a well-behaved handler, the loop loses no message.\<close>

context event_handler
begin

lemma Process_mono:
  "Process schemas consumer' handler e ev s = (s', r) \<Longrightarrow> processed consumer i s \<Longrightarrow> processed consumer i s'"
  using Process_inbox by (auto simp: processed_def)

lemma retry_loop_mono:
  "retry_loop n k (\<lambda>j. Process schemas consumer' handler (envs j)) ev s = (s', out) \<Longrightarrow>
   processed consumer i s \<Longrightarrow> processed consumer i s'"
proof (induction n arbitrary: k s)
  case (Suc n)
  obtain s1 r where p: "Process schemas consumer' handler (envs k) ev s = (s1, r)" by fastforce
  from Process_mono [OF p Suc.prems(2)] have "processed consumer i s1" .
  with Suc.prems(1) Suc.IH p show ?case by (auto split: sum.splits if_splits)
qed simp

lemma retry_loop_processed:
  "retry_loop n k (\<lambda>j. Process schemas consumer handler (envs j)) ev s = (s', Committed None) \<Longrightarrow>
   processed consumer (ev_ID ev) s'"
  using retry_loop_success [of n k "\<lambda>j. Process schemas consumer handler (envs j)" ev s s'] Process_processed by blast

lemma consume_message_mono:
  "consume_message fuel (\<lambda>j. Process schemas consumer' handler (envs j)) m s = (s', out) \<Longrightarrow>
   processed consumer i s \<Longrightarrow> processed consumer i s'"
  using retry_loop_mono by (auto simp: consume_message_def split: sum.splits)

lemma Loop_Run_mono:
  "Loop_Run fuel k (\<lambda>j l. Process schemas consumer' handler (envs j l)) ms s = (s', n, errs) \<Longrightarrow>
   processed consumer i s \<Longrightarrow> processed consumer i s'"
proof (induction ms arbitrary: k s s' n errs)
  case (Cons m ms)
  let ?p = "\<lambda>j l. Process schemas consumer' handler (envs j l)"
  obtain s1 out where c: "consume_message fuel (?p k) m s = (s1, out)" by fastforce
  obtain s2 n2 errs2 where rest: "Loop_Run fuel (Suc k) ?p ms s1 = (s2, n2, errs2)" by (metis prod_cases3)
  have one: "processed consumer i s1" using consume_message_mono [OF c Cons.prems(2)] .
  from Cons.IH [OF rest one] one Cons.prems(1) c rest show ?case by (auto split: loop_outcome.splits)
qed simp

text \<open>
  Every message the loop has committed was handled, unless it was reported as permanently rejected:
  without such reports all committed messages are events whose handler ran.
\<close>

lemma Loop_Run_processed:
  "Loop_Run fuel k (\<lambda>j l. Process schemas consumer handler (envs j l)) ms s = (s', n, []) \<Longrightarrow> m < n \<Longrightarrow>
   \<exists>ev. ms ! m = Inr ev \<and> processed consumer (ev_ID ev) s'"
proof (induction ms arbitrary: k s s' n m)
  case (Cons msg ms)
  let ?p = "\<lambda>j l. Process schemas consumer handler (envs j l)"
  obtain s1 out where c: "consume_message fuel (?p k) msg s = (s1, out)" by fastforce
  obtain s2 n2 errs2 where rest: "Loop_Run fuel (Suc k) ?p ms s1 = (s2, n2, errs2)" by (metis prod_cases3)
  from Cons.prems c rest have out: "out = Committed None" and s': "s' = s2" "n = Suc n2" "errs2 = []"
    by (auto split: loop_outcome.splits option.splits)
  show ?case
  proof (cases m)
    case 0
    from c out obtain ev where ev: "msg = Inr ev" and "processed consumer (ev_ID ev) s1"
      using retry_loop_processed by (auto simp: consume_message_def split: sum.splits)
    with Loop_Run_mono [OF rest] 0 s' show ?thesis by auto
  next
    case (Suc j)
    with Cons.IH [OF rest [unfolded s'(3)]] Cons.prems(2) s' show ?thesis by auto
  qed
qed simp

end

end
