(* ===== verification/Notification.thy ===== *)
theory Notification
  imports Inbox Backoff
begin

text \<open>
  Package \<^verbatim>\<open>notification\<close> (\<^verbatim>\<open>webhook.go\<close>): one signed webhook delivery per tenant endpoint and public payment
  event, created in the inbox transaction of the event, and the dispatcher that posts pending deliveries
  until they are delivered or given up.

  What the code does not define is a parameter: PostgreSQL's \<^verbatim>\<open>md5\<close>, the HMAC-SHA256, the byte text of a
  JSON document, and the HTTP exchange.
\<close>

subsection \<open>Configuration\<close>

record WebhookConfig =
  nc_BatchSize :: int
  nc_PollInterval :: duration
  nc_InitialBackoff :: duration
  nc_MaxBackoff :: duration
  nc_MaxAge :: duration
  nc_MaxAttempts :: int

definition NewDispatcher :: "WebhookConfig \<Rightarrow> WebhookConfig result" where
  "NewDispatcher c =
     (if nc_BatchSize c < 0 \<or> nc_PollInterval c < 0 \<or> nc_InitialBackoff c < 0 \<or> nc_MaxBackoff c < 0 \<or>
         nc_MaxAttempts c < 0 \<or> nc_MaxAge c < 0
      then Inl (ErrText ''webhook settings cannot be negative'')
      else let initial = or_default (nc_InitialBackoff c) Second; mx = or_default (nc_MaxBackoff c) Minute
           in if mx < initial then Inl (ErrText ''webhook maximum backoff cannot be less than initial backoff'')
              else Inr \<lparr>nc_BatchSize = or_default (nc_BatchSize c) 50, nc_PollInterval = or_default (nc_PollInterval c) Second,
                     nc_InitialBackoff = initial, nc_MaxBackoff = mx, nc_MaxAge = or_default (nc_MaxAge c) (24 * Hour),
                     nc_MaxAttempts = or_default (nc_MaxAttempts c) 10\<rparr>)"

definition dispatcher_ok :: "WebhookConfig \<Rightarrow> bool" where
  "dispatcher_ok c \<longleftrightarrow> 1 \<le> nc_BatchSize c \<and> 1 \<le> nc_MaxAttempts c \<and> 0 < nc_InitialBackoff c \<and>
     nc_InitialBackoff c \<le> nc_MaxBackoff c \<and> 0 < nc_MaxAge c"

subsection \<open>Creating deliveries\<close>

definition webhook_events :: "string list" where
  "webhook_events = [''payment.created'', ''payment.processing'', ''payment.succeeded'', ''payment.failed'', ''payment.return.succeeded'']"

definition webhook_body :: "event \<Rightarrow> json" where
  "webhook_body ev = JObj [(''data'', raw_json (ev_Payload ev)), (''id'', JStr (ev_ID ev)),
     (''occurred_at'', at_json (ev_OccurredAt ev)), (''payment_id'', JStr (ev_AggregateID ev)), (''type'', JStr (ev_Type ev))]"

definition new_delivery :: "(string \<Rightarrow> string) \<Rightarrow> event \<Rightarrow> endpoint_row \<Rightarrow> delivery_row" where
  "new_delivery md5 ev w = \<lparr>wd_id = ''whd_'' @ md5 (we_id w @ ev_ID ev), wd_endpoint = we_id w, wd_event = ev_ID ev,
     wd_payment = ev_AggregateID ev, wd_type = ev_Type ev, wd_payload = Raw (webhook_body ev), wd_status = DeliveryPending,
     wd_attempts = 0, wd_next_attempt = ev_OccurredAt ev, wd_last_error = None, wd_response_status = None,
     wd_delivered_at = None, wd_failed_at = None, wd_created_at = ev_OccurredAt ev\<rparr>"

definition delivery_for :: "string \<Rightarrow> string \<Rightarrow> delivery_row \<Rightarrow> bool" where
  "delivery_for endpoint event d \<longleftrightarrow> wd_endpoint d = endpoint \<and> wd_event d = event"

text \<open>\<open>ON CONFLICT(endpoint_id,event_id) DO NOTHING\<close>; a clash of the primary key is an error.\<close>

definition insert_delivery_once :: "delivery_row \<Rightarrow> db \<Rightarrow> db result" where
  "insert_delivery_once d s =
     (if list_ex (delivery_for (wd_endpoint d) (wd_event d)) (deliveries s) then Inr s
      else if \<not> has_payment (wd_payment d) s \<or> list_ex (\<lambda>x. wd_id x = wd_id d) (deliveries s)
      then Inl (ErrConstraint ''webhook_deliveries'')
      else Inr (s\<lparr>deliveries := deliveries s @ [d]\<rparr>))"

definition subscribed :: "string \<Rightarrow> db \<Rightarrow> endpoint_row list" where
  "subscribed tenant s = filter (\<lambda>w. we_tenant w = tenant \<and> we_active w) (endpoints s)"

definition webhook_EventHandler :: "(string \<Rightarrow> string) \<Rightarrow> env \<Rightarrow> event \<Rightarrow> db \<Rightarrow> db result" where
  "webhook_EventHandler md5 e ev s =
     (if ev_Type ev \<notin> set webhook_events then Inr s
      else case find_payment (ev_AggregateID ev) s of
        None \<Rightarrow> Inl ErrNoRows
      | Some p \<Rightarrow>
          if \<not> json_Valid (ev_Payload ev) then Inl (ErrText ''encode webhook payload'')
          else foldE (\<lambda>w. insert_delivery_once (new_delivery md5 ev w)) (subscribed (pay_tenant p) s) s)"

subsection \<open>Dispatching\<close>

record Delivery =
  dl_ID :: string
  dl_EndpointID :: string
  dl_EventID :: string
  dl_PaymentID :: string
  dl_EventType :: string
  dl_URL :: string
  dl_Secret :: string
  dl_Payload :: raw
  dl_AttemptCount :: int
  dl_CreatedAt :: time

text \<open>The claim query: the join with the active endpoints, oldest first.\<close>

definition delivery_of :: "endpoint_row \<Rightarrow> delivery_row \<Rightarrow> Delivery" where
  "delivery_of w d = \<lparr>dl_ID = wd_id d, dl_EndpointID = wd_endpoint d, dl_EventID = wd_event d, dl_PaymentID = wd_payment d,
     dl_EventType = wd_type d, dl_URL = we_url w, dl_Secret = we_secret w, dl_Payload = wd_payload d,
     dl_AttemptCount = wd_attempts d, dl_CreatedAt = wd_created_at d\<rparr>"

definition due_delivery :: "time \<Rightarrow> delivery_row \<Rightarrow> bool" where
  "due_delivery now d \<longleftrightarrow> wd_status d = DeliveryPending \<and> wd_next_attempt d \<le> now"

definition find_endpoint :: "string \<Rightarrow> db \<Rightarrow> endpoint_row option" where
  "find_endpoint i s = List.find (\<lambda>w. we_id w = i \<and> we_active w) (endpoints s)"

definition joined :: "db \<Rightarrow> delivery_row \<Rightarrow> Delivery option" where
  "joined s d = map_option (\<lambda>w. delivery_of w d) (find_endpoint (wd_endpoint d) s)"

definition dispatch_claim :: "WebhookConfig \<Rightarrow> time \<Rightarrow> db \<Rightarrow> Delivery list" where
  "dispatch_claim c now s =
     take (nat (nc_BatchSize c)) (List.map_filter (joined s) (sort_key wd_created_at (filter (due_delivery now) (deliveries s))))"

datatype http_outcome = HttpError string | HttpStatus int

text \<open>The Unix time of a clock reading.\<close>

definition Unix :: "time \<Rightarrow> int" where
  "Unix t = t div Second - 62135596800"

record webhook_world =
  ww_hmac :: "string \<Rightarrow> string \<Rightarrow> string"
  ww_encode :: "raw \<Rightarrow> string"
  ww_post :: "nat \<Rightarrow> Delivery \<Rightarrow> string \<Rightarrow> string \<Rightarrow> http_outcome"

definition Signature :: "webhook_world \<Rightarrow> string \<Rightarrow> string \<Rightarrow> string \<Rightarrow> string" where
  "Signature world secret timestamp body = ''v1='' @ ww_hmac world secret (timestamp @ ''.'' @ body)"

definition pending_delivery :: "string \<Rightarrow> delivery_row \<Rightarrow> bool" where
  "pending_delivery i d \<longleftrightarrow> wd_id d = i \<and> wd_status d = DeliveryPending"

definition update_delivery :: "string \<Rightarrow> (delivery_row \<Rightarrow> delivery_row) \<Rightarrow> db \<Rightarrow> db" where
  "update_delivery i f s = s\<lparr>deliveries := update_where (pending_delivery i) f (deliveries s)\<rparr>"

definition notify_delay :: "WebhookConfig \<Rightarrow> int \<Rightarrow> duration" where
  "notify_delay c attempts = backoff_loop notify_double (nc_MaxBackoff c) (nat (attempts - 1)) (nc_InitialBackoff c)"

definition null_status :: "int \<Rightarrow> int option" where
  "null_status st = (if st = 0 then None else Some st)"

definition given_up :: "WebhookConfig \<Rightarrow> time \<Rightarrow> Delivery \<Rightarrow> bool" where
  "given_up c now v \<longleftrightarrow> nc_MaxAttempts c \<le> dl_AttemptCount v + 1 \<or> nc_MaxAge c \<le> now - dl_CreatedAt v"

definition failed_delivery :: "int \<Rightarrow> int \<Rightarrow> string \<Rightarrow> time \<Rightarrow> delivery_row \<Rightarrow> delivery_row" where
  "failed_delivery attempts status message now d = d\<lparr>wd_status := DeliveryFailed, wd_attempts := attempts,
     wd_response_status := null_status status, wd_last_error := Some message, wd_failed_at := Some now\<rparr>"

definition retried_delivery :: "int \<Rightarrow> int \<Rightarrow> string \<Rightarrow> time \<Rightarrow> delivery_row \<Rightarrow> delivery_row" where
  "retried_delivery attempts status message next d = d\<lparr>wd_attempts := attempts,
     wd_response_status := null_status status, wd_last_error := Some message, wd_next_attempt := next\<rparr>"

definition delivered_delivery :: "int \<Rightarrow> time \<Rightarrow> delivery_row \<Rightarrow> delivery_row" where
  "delivered_delivery status now d = d\<lparr>wd_status := DeliveryDelivered, wd_attempts := wd_attempts d + 1,
     wd_response_status := Some status, wd_delivered_at := Some now, wd_last_error := None\<rparr>"

definition webhook_recordFailure :: "WebhookConfig \<Rightarrow> time \<Rightarrow> Delivery \<Rightarrow> string \<Rightarrow> int \<Rightarrow> db \<Rightarrow> db" where
  "webhook_recordFailure c now v message status s =
     (let attempts = dl_AttemptCount v + 1
      in if given_up c now v then update_delivery (dl_ID v) (failed_delivery attempts status message now) s
         else update_delivery (dl_ID v) (retried_delivery attempts status message (now + notify_delay c attempts)) s)"

definition webhook_deliver :: "WebhookConfig \<Rightarrow> webhook_world \<Rightarrow> env \<Rightarrow> nat \<Rightarrow> Delivery \<Rightarrow> db \<Rightarrow> db" where
  "webhook_deliver c world e n v s =
     (let now = env_now e; timestamp = FormatInt (Unix now)
      in case ww_post world n v timestamp (Signature world (dl_Secret v) timestamp (ww_encode world (dl_Payload v))) of
           HttpError message \<Rightarrow> webhook_recordFailure c now v message 0 s
         | HttpStatus code \<Rightarrow>
             if 200 \<le> code \<and> code < 300 then update_delivery (dl_ID v) (delivered_delivery code now) s
             else webhook_recordFailure c now v (''unexpected HTTP status '' @ FormatInt code) code s)"

fun dispatch_loop :: "WebhookConfig \<Rightarrow> webhook_world \<Rightarrow> env \<Rightarrow> nat \<Rightarrow> Delivery list \<Rightarrow> db \<Rightarrow> db" where
  "dispatch_loop c world e n [] s = s"
| "dispatch_loop c world e n (v # vs) s = dispatch_loop c world e (Suc n) vs (webhook_deliver c world e n v s)"

definition DispatchOnce :: "WebhookConfig \<Rightarrow> webhook_world \<Rightarrow> env \<Rightarrow> db \<Rightarrow> nat \<times> db" where
  "DispatchOnce c world e s =
     (let vs = dispatch_claim c (env_now e) s in (length vs, dispatch_loop c world e 0 vs s))"

definition redriven_delivery :: "time \<Rightarrow> delivery_row \<Rightarrow> delivery_row" where
  "redriven_delivery now d = d\<lparr>wd_status := DeliveryPending, wd_attempts := 0, wd_next_attempt := now,
     wd_last_error := None, wd_response_status := None, wd_failed_at := None\<rparr>"

definition webhook_Redrive :: "env \<Rightarrow> string \<Rightarrow> db \<Rightarrow> db result" where
  "webhook_Redrive e i s =
     (let P = (\<lambda>d. wd_id d = i \<and> wd_status d = DeliveryFailed)
      in if affected P (deliveries s) \<noteq> 1 then Inl ErrDeliveryNotFailed
         else Inr (s\<lparr>deliveries := update_where P (redriven_delivery (env_now e)) (deliveries s)\<rparr>))"

text \<open>The loop of \<open>Run\<close>: one round per environment, until the process is cancelled.\<close>

fun Dispatcher_Run :: "WebhookConfig \<Rightarrow> (webhook_world \<times> env) list \<Rightarrow> db \<Rightarrow> db" where
  "Dispatcher_Run c [] s = s"
| "Dispatcher_Run c ((world, e) # rounds) s = Dispatcher_Run c rounds (snd (DispatchOnce c world e s))"


subsection \<open>Fan-out\<close>

lemma insert_delivery_once_Inr:
  assumes "insert_delivery_once d s = Inr s'"
  shows "\<exists>new. s' = s\<lparr>deliveries := deliveries s @ new\<rparr> \<and> set new \<subseteq> {d} \<and>
    list_ex (delivery_for (wd_endpoint d) (wd_event d)) (deliveries s')"
proof (cases "list_ex (delivery_for (wd_endpoint d) (wd_event d)) (deliveries s)")
  case True
  with assms show ?thesis by (intro exI [of _ "[]"]) (simp add: insert_delivery_once_def)
next
  case False
  with assms show ?thesis
    by (intro exI [of _ "[d]"]) (auto simp: insert_delivery_once_def delivery_for_def split: if_splits)
qed

lemma fan_out_Inr:
  "foldE (\<lambda>w. insert_delivery_once (new_delivery md5 ev w)) ws s = Inr s' \<Longrightarrow>
   \<exists>new. s' = s\<lparr>deliveries := deliveries s @ new\<rparr> \<and> set new \<subseteq> new_delivery md5 ev ` set ws \<and>
     (\<forall>w\<in>set ws. list_ex (delivery_for (we_id w) (ev_ID ev)) (deliveries s'))"
proof (induction ws arbitrary: s)
  case Nil
  then show ?case by (intro exI [of _ "[]"]) simp
next
  case (Cons w ws)
  then obtain s1 where 1: "insert_delivery_once (new_delivery md5 ev w) s = Inr s1"
    and 2: "foldE (\<lambda>w. insert_delivery_once (new_delivery md5 ev w)) ws s1 = Inr s'" by (auto simp: result_simps)
  from insert_delivery_once_Inr [OF 1] obtain n1 where n1: "s1 = s\<lparr>deliveries := deliveries s @ n1\<rparr>"
    "set n1 \<subseteq> {new_delivery md5 ev w}" "list_ex (delivery_for (we_id w) (ev_ID ev)) (deliveries s1)"
    by (auto simp: new_delivery_def)
  from Cons.IH [OF 2] obtain n2 where n2: "s' = s1\<lparr>deliveries := deliveries s1 @ n2\<rparr>"
    "set n2 \<subseteq> new_delivery md5 ev ` set ws" "\<forall>w\<in>set ws. list_ex (delivery_for (we_id w) (ev_ID ev)) (deliveries s')" by blast
  from n1 n2 show ?case by (intro exI [of _ "n1 @ n2"]) auto
qed

lemma fan_out_again:
  "(\<And>w. w \<in> set ws \<Longrightarrow> list_ex (delivery_for (we_id w) (ev_ID ev)) (deliveries s)) \<Longrightarrow>
   foldE (\<lambda>w. insert_delivery_once (new_delivery md5 ev w)) ws s = Inr s"
  by (induction ws) (simp_all add: insert_delivery_once_def new_delivery_def)

lemma EventHandler_frame:
  assumes "webhook_EventHandler md5 e ev s = Inr s'"
  shows "\<exists>new. s' = s\<lparr>deliveries := deliveries s @ new\<rparr>"
proof -
  have "\<exists>new. s = s\<lparr>deliveries := deliveries s @ new\<rparr>" by (rule exI [of _ "[]"]) simp
  with assms show ?thesis
    by (fastforce simp: webhook_EventHandler_def split: if_splits option.splits dest!: fan_out_Inr)
qed

interpretation webhook_handler: event_handler "in_tx (webhook_EventHandler md5)" for md5
  by unfold_locales (auto simp: in_tx_def dest: EventHandler_frame)

subsection \<open>Rounds\<close>

text \<open>The row a delivery attempt leaves.\<close>

definition attempt_row :: "WebhookConfig \<Rightarrow> webhook_world \<Rightarrow> env \<Rightarrow> nat \<Rightarrow> Delivery \<Rightarrow> delivery_row \<Rightarrow> delivery_row" where
  "attempt_row c world e n v =
     (let now = env_now e; timestamp = FormatInt (Unix now); attempts = dl_AttemptCount v + 1;
          fail = (\<lambda>message status. if given_up c now v then failed_delivery attempts status message now
                    else retried_delivery attempts status message (now + notify_delay c attempts))
      in case ww_post world n v timestamp (Signature world (dl_Secret v) timestamp (ww_encode world (dl_Payload v))) of
           HttpError message \<Rightarrow> fail message 0
         | HttpStatus code \<Rightarrow> if 200 \<le> code \<and> code < 300 then delivered_delivery code now
                               else fail (''unexpected HTTP status '' @ FormatInt code) code)"

lemma webhook_deliver_row: "webhook_deliver c world e n v s = update_delivery (dl_ID v) (attempt_row c world e n v) s"
  by (simp add: webhook_deliver_def attempt_row_def webhook_recordFailure_def Let_def split: http_outcome.splits)

lemma attempt_row_cases:
  obtains (delivered) code where "attempt_row c world e n v = delivered_delivery code (env_now e)"
  | (failed) status message where "given_up c (env_now e) v"
      "attempt_row c world e n v = failed_delivery (dl_AttemptCount v + 1) status message (env_now e)"
  | (retried) status message where "\<not> given_up c (env_now e) v"
      "attempt_row c world e n v = retried_delivery (dl_AttemptCount v + 1) status message
         (env_now e + notify_delay c (dl_AttemptCount v + 1))"
proof -
  let ?o = "ww_post world n v (FormatInt (Unix (env_now e))) (Signature world (dl_Secret v) (FormatInt (Unix (env_now e)))
      (ww_encode world (dl_Payload v)))"
  show thesis
  proof (cases ?o)
    case (HttpError m)
    then show thesis using that(2,3) by (cases "given_up c (env_now e) v") (simp_all add: attempt_row_def Let_def)
  next
    case (HttpStatus code)
    show thesis
    proof (cases "200 \<le> code \<and> code < 300")
      case True
      with HttpStatus have "attempt_row c world e n v = delivered_delivery code (env_now e)"
        by (simp add: attempt_row_def Let_def)
      then show thesis by (rule that(1))
    next
      case False
      with HttpStatus show thesis using that(2,3)
        by (cases "given_up c (env_now e) v") (auto simp: attempt_row_def Let_def)
    qed
  qed
qed

definition find_delivery :: "string \<Rightarrow> db \<Rightarrow> delivery_row option" where
  "find_delivery i s = List.find (\<lambda>d. wd_id d = i) (deliveries s)"

lemma attempt_row_id [simp]: "wd_id (attempt_row c world e n v d) = wd_id d"
  by (cases rule: attempt_row_cases [of c world e n v])
    (simp_all add: delivered_delivery_def failed_delivery_def retried_delivery_def)

lemma find_update_delivery:
  assumes "\<And>d. wd_id (f d) = wd_id d"
  shows "find_delivery i (update_delivery j f s) =
    (if i = j then map_option (\<lambda>d. if wd_status d = DeliveryPending then f d else d) (find_delivery i s)
     else find_delivery i s)"
proof -
  have "find_delivery i (update_delivery j f s) =
      map_option (\<lambda>d. if pending_delivery j d then f d else d) (find_delivery i s)"
    unfolding find_delivery_def update_delivery_def using assms by (simp add: find_update_where)
  then show ?thesis
    by (cases "find_delivery i s") (auto simp: pending_delivery_def find_delivery_def dest: find_Some_memb)
qed

lemma dispatch_loop_other:
  "i \<notin> dl_ID ` set vs \<Longrightarrow> find_delivery i (dispatch_loop c world e n vs s) = find_delivery i s"
  by (induction vs arbitrary: n s) (simp_all add: webhook_deliver_row find_update_delivery)

lemma dispatch_loop_final:
  "find_delivery i s = Some d \<Longrightarrow> wd_status d \<noteq> DeliveryPending \<Longrightarrow> find_delivery i (dispatch_loop c world e n vs s) = Some d"
proof (induction vs arbitrary: n s)
  case (Cons v vs)
  then have "find_delivery i (webhook_deliver c world e n v s) = Some d"
    by (cases "i = dl_ID v") (simp_all add: webhook_deliver_row find_update_delivery)
  with Cons show ?case by simp
qed simp

lemma dispatch_loop_claimed:
  "distinct (map dl_ID vs) \<Longrightarrow> v \<in> set vs \<Longrightarrow> find_delivery (dl_ID v) s = Some d \<Longrightarrow> wd_status d = DeliveryPending \<Longrightarrow>
   \<exists>k. find_delivery (dl_ID v) (dispatch_loop c world e n vs s) = Some (attempt_row c world e k v d)"
proof (induction vs arbitrary: n s)
  case (Cons u vs)
  show ?case
  proof (cases "u = v")
    case True
    with Cons.prems show ?thesis
      by (auto simp: webhook_deliver_row find_update_delivery dispatch_loop_other)
  next
    case False
    with Cons.prems have "dl_ID u \<noteq> dl_ID v" "v \<in> set vs" by auto
    with Cons show ?thesis by (simp add: webhook_deliver_row find_update_delivery)
  qed
qed simp

lemma dispatch_claim_memb:
  assumes "v \<in> set (dispatch_claim c now s)" and "distinct (map wd_id (deliveries s))"
  shows "\<exists>d w. find_delivery (dl_ID v) s = Some d \<and> due_delivery now d \<and> v = delivery_of w d"
proof -
  from assms(1) have "v \<in> set (List.map_filter (joined s) (sort_key wd_created_at (filter (due_delivery now) (deliveries s))))"
    unfolding dispatch_claim_def by (rule in_set_takeD)
  then obtain d where d: "d \<in> set (deliveries s)" "due_delivery now d" "joined s d = Some v"
    by (auto simp: List.map_filter_def)
  then obtain w where w: "v = delivery_of w d" by (auto simp: joined_def)
  with d find_unique_key [OF assms(2) d(1)] show ?thesis by (auto simp: find_delivery_def delivery_of_def)
qed

lemma map_filter_distinct:
  "distinct (map wd_id ds) \<Longrightarrow> distinct (map dl_ID (List.map_filter (joined s) ds))"
proof (induction ds)
  case Nil
  then show ?case by (simp add: List.map_filter_def)
next
  case (Cons d ds)
  have "dl_ID v \<in> wd_id ` set ds" if "v \<in> set (List.map_filter (joined s) ds)" for v
    using that by (auto simp: List.map_filter_def joined_def delivery_of_def)
  then have "wd_id d \<notin> dl_ID ` set (List.map_filter (joined s) ds)" using Cons.prems by auto
  moreover have "dl_ID v = wd_id d" if "joined s d = Some v" for v using that by (auto simp: joined_def delivery_of_def)
  ultimately show ?case using Cons by (cases "joined s d") (simp_all add: List.map_filter_simps)
qed

lemma dispatch_claim_distinct:
  assumes "distinct (map wd_id (deliveries s))"
  shows "distinct (map dl_ID (dispatch_claim c now s))"
proof -
  have "distinct (map wd_id (sort_key wd_created_at (filter (due_delivery now) (deliveries s))))"
    using assms by (simp add: distinct_map inj_on_def)
  then show ?thesis unfolding dispatch_claim_def take_map [symmetric] by (intro distinct_take map_filter_distinct)
qed


lemma notify_delay_pos:
  assumes "dispatcher_ok c" and "nc_MaxBackoff c \<le> 2 ^ 62"
  shows "0 < notify_delay c attempts"
proof -
  from assms(1) have "0 < nc_InitialBackoff c" "nc_InitialBackoff c \<le> nc_MaxBackoff c" by (simp_all add: dispatcher_ok_def)
  with notify_backoff.loop_bounds(1) [OF this assms(2), of "nat (attempts - 1)"] show ?thesis
    unfolding notify_delay_def by linarith
qed

text \<open>
  Without the bound the doubling wraps: a dispatcher with the largest possible maximum retries a delivery
  with a negative wait, that is, at once.
\<close>

lemma notify_backoff_wraps:
  "\<exists>config c. NewDispatcher config = Inr c \<and> nc_MaxBackoff c = max_int64 \<and> notify_delay c 2 < 0"
proof -
  let ?config = "\<lparr>nc_BatchSize = 0, nc_PollInterval = 0, nc_InitialBackoff = 2 ^ 62, nc_MaxBackoff = max_int64,
      nc_MaxAge = 0, nc_MaxAttempts = 0\<rparr>"
  let ?c = "\<lparr>nc_BatchSize = 50, nc_PollInterval = Second, nc_InitialBackoff = 2 ^ 62, nc_MaxBackoff = max_int64,
      nc_MaxAge = 24 * Hour, nc_MaxAttempts = 10\<rparr>"
  have "NewDispatcher ?config = Inr ?c" by (simp add: NewDispatcher_def or_default_def max_int64_def Let_def)
  moreover have "notify_delay ?c 2 < 0" by code_simp
  ultimately show ?thesis by fastforce
qed

subsection \<open>Properties\<close>


definition sample_endpoint :: "string \<Rightarrow> bool \<Rightarrow> endpoint_row" where
  "sample_endpoint i active = \<lparr>we_id = i, we_tenant = ''t1'', we_url = ''https://example.org'', we_secret = ''s'',
     we_active = active, we_created_at = 1\<rparr>"

definition sample_webhook_payment :: payment_row where
  "sample_webhook_payment = \<lparr>pay_id = ''p1'', pay_direction = PaymentDirectionPayout, pay_external_reference = ''o'',
     pay_currency = ''USD'', pay_amount = 100, pay_tenant = ''t1'', pay_status = PaymentStatusCreated,
     pay_idempotency_key = ''k'', pay_created_at = 1, pay_updated_at = 1\<rparr>"

definition sample_webhook_db :: db where
  "sample_webhook_db = empty_db\<lparr>payments := [sample_webhook_payment],
     endpoints := [sample_endpoint ''w1'' True, sample_endpoint ''w2'' False, sample_endpoint ''w3'' True]\<rparr>"

definition sample_public_event :: event where
  "sample_public_event = \<lparr>ev_ID = ''ev1'', ev_Type = ''payment.created'', ev_Version = 1, ev_AggregateID = ''p1'',
     ev_AggregateType = ''payment'', ev_OccurredAt = 5, ev_Payload = Raw (JObj [])\<rparr>"

definition sample_webhook_env :: env where
  "sample_webhook_env = \<lparr>env_now = 1000, env_rand = (\<lambda>_. None)\<rparr>"

definition sample_fanned :: db where
  "sample_fanned = (case webhook_EventHandler (\<lambda>x. x) sample_webhook_env sample_public_event sample_webhook_db of
     Inr s \<Rightarrow> s | Inl _ \<Rightarrow> sample_webhook_db)"

lemma sample_fanned_run: "webhook_EventHandler (\<lambda>x. x) sample_webhook_env sample_public_event sample_webhook_db = Inr sample_fanned"
proof -
  have "\<exists>s. webhook_EventHandler (\<lambda>x. x) sample_webhook_env sample_public_event sample_webhook_db = Inr s"
    by (rule not_isl_Inr) code_simp
  then show ?thesis by (auto simp: sample_fanned_def)
qed


text \<open>
  A dispatch round settles or reschedules every delivery it claims: afterwards the delivery is
  delivered, or given up, or pending with one more attempt used, fewer attempts than allowed and a next
  attempt in the future. A delivery that was not claimed is untouched.
\<close>

theorem webhook_round:
  assumes "dispatcher_ok c" and "nc_MaxBackoff c \<le> 2 ^ 62" and "distinct (map wd_id (deliveries s))"
    and "DispatchOnce c world e s = (n, s')"
  shows "n \<le> nat (nc_BatchSize c) \<and>
    (\<forall>v\<in>set (dispatch_claim c (env_now e) s). \<exists>d d'. find_delivery (dl_ID v) s = Some d \<and> find_delivery (dl_ID v) s' = Some d' \<and>
       (wd_status d' \<noteq> DeliveryPending \<or>
        wd_attempts d' = wd_attempts d + 1 \<and> wd_attempts d' < nc_MaxAttempts c \<and> env_now e < wd_next_attempt d')) \<and>
    (\<forall>i. i \<notin> dl_ID ` set (dispatch_claim c (env_now e) s) \<longrightarrow> find_delivery i s' = find_delivery i s)"
proof (intro conjI ballI allI impI)
  let ?vs = "dispatch_claim c (env_now e) s"
  have s': "s' = dispatch_loop c world e 0 ?vs s" and n: "n = length ?vs"
    using assms(4) by (simp_all add: DispatchOnce_def Let_def)
  show "n \<le> nat (nc_BatchSize c)" by (simp add: n dispatch_claim_def)
  show "find_delivery i s' = find_delivery i s" if "i \<notin> dl_ID ` set ?vs" for i using that by (simp add: s' dispatch_loop_other)
  fix v assume v: "v \<in> set ?vs"
  from dispatch_claim_memb [OF v assms(3)] obtain d w where d: "find_delivery (dl_ID v) s = Some d" "due_delivery (env_now e) d"
    "v = delivery_of w d" by blast
  have "wd_status d = DeliveryPending" using d(2) by (simp add: due_delivery_def)
  from dispatch_loop_claimed [OF dispatch_claim_distinct [OF assms(3)] v d(1) this] obtain k where
    k: "find_delivery (dl_ID v) s' = Some (attempt_row c world e k v d)" unfolding s' by blast
  have "dl_AttemptCount v = wd_attempts d" by (simp add: d(3) delivery_of_def)
  then have "wd_status (attempt_row c world e k v d) \<noteq> DeliveryPending \<or>
      wd_attempts (attempt_row c world e k v d) = wd_attempts d + 1 \<and> wd_attempts (attempt_row c world e k v d) < nc_MaxAttempts c \<and>
      env_now e < wd_next_attempt (attempt_row c world e k v d)"
    using notify_delay_pos [OF assms(1,2), of "wd_attempts d + 1"]
    by (cases rule: attempt_row_cases [of c world e k v])
      (simp_all add: delivered_delivery_def failed_delivery_def retried_delivery_def given_up_def)
  with d(1) k show "\<exists>d d'. find_delivery (dl_ID v) s = Some d \<and> find_delivery (dl_ID v) s' = Some d' \<and>
       (wd_status d' \<noteq> DeliveryPending \<or>
        wd_attempts d' = wd_attempts d + 1 \<and> wd_attempts d' < nc_MaxAttempts c \<and> env_now e < wd_next_attempt d')" by blast
qed

definition sample_dispatcher :: WebhookConfig where
  "sample_dispatcher = \<lparr>nc_BatchSize = 50, nc_PollInterval = Second, nc_InitialBackoff = Second, nc_MaxBackoff = Minute,
     nc_MaxAge = 24 * Hour, nc_MaxAttempts = 10\<rparr>"

definition sample_world :: webhook_world where
  "sample_world = \<lparr>ww_hmac = (\<lambda>_ m. m), ww_encode = (\<lambda>_. ''{}''),
     ww_post = (\<lambda>n v ts sig. if n = 0 then HttpStatus 200 else HttpStatus 500)\<rparr>"

theorem webhook_round_witness:
  "\<exists>s'. DispatchOnce sample_dispatcher sample_world sample_webhook_env sample_fanned = (2, s') \<and>
     map wd_status (deliveries s') = [DeliveryDelivered, DeliveryPending] \<and>
     (\<exists>d'. find_delivery ''whd_w3ev1'' s' = Some d' \<and> (wd_status d' \<noteq> DeliveryPending \<or> 1000 < wd_next_attempt d'))"
proof -
  let ?run = "DispatchOnce sample_dispatcher sample_world sample_webhook_env sample_fanned"
  have vals: "fst ?run = 2" "map wd_status (deliveries (snd ?run)) = [DeliveryDelivered, DeliveryPending]" by code_simp+
  have hyps: "dispatcher_ok sample_dispatcher" "nc_MaxBackoff sample_dispatcher \<le> 2 ^ 62"
    "distinct (map wd_id (deliveries sample_fanned))"
    "map dl_ID (dispatch_claim sample_dispatcher (env_now sample_webhook_env) sample_fanned) = [''whd_w1ev1'', ''whd_w3ev1'']"
    by code_simp+
  have "''whd_w3ev1'' \<in> set (map dl_ID (dispatch_claim sample_dispatcher (env_now sample_webhook_env) sample_fanned))"
    unfolding hyps(4) by simp
  then obtain v where v: "v \<in> set (dispatch_claim sample_dispatcher (env_now sample_webhook_env) sample_fanned)" "dl_ID v = ''whd_w3ev1''"
    by auto
  obtain n s' where run: "?run = (n, s')" by fastforce
  from webhook_round [OF hyps(1-3) run] v vals run show ?thesis by (fastforce simp: sample_webhook_env_def)
qed

text \<open>
  A delivered webhook is final: no later round, redrive or event changes its row.
\<close>

theorem webhook_delivered_final:
  assumes "find_delivery i s = Some d" and "wd_status d = DeliveryDelivered"
    and "DispatchOnce c world e s = (n, s') \<or> webhook_Redrive e j s = Inr s' \<or> webhook_EventHandler md5 e ev s = Inr s'"
  shows "find_delivery i s' = Some d"
proof -
  have "find_delivery i s' = Some d" if "webhook_Redrive e j s = Inr s'"
  proof -
    from that have s': "s' = s\<lparr>deliveries := update_where (\<lambda>d. wd_id d = j \<and> wd_status d = DeliveryFailed)
        (redriven_delivery (env_now e)) (deliveries s)\<rparr>"
      by (auto simp: webhook_Redrive_def Let_def split: if_splits)
    show ?thesis using assms(1,2) by (simp add: s' find_delivery_def find_update_where redriven_delivery_def)
  qed
  moreover have "find_delivery i s' = Some d" if "webhook_EventHandler md5 e ev s = Inr s'"
    using EventHandler_frame [OF that] assms(1) by (auto simp: find_delivery_def find_append)
  moreover have "find_delivery i s' = Some d" if "DispatchOnce c world e s = (n, s')"
    using that dispatch_loop_final [OF assms(1)] assms(2) by (auto simp: DispatchOnce_def Let_def)
  ultimately show ?thesis using assms(3) by blast
qed

theorem webhook_delivered_final_witness:
  "\<exists>s1 s2 d. DispatchOnce sample_dispatcher sample_world sample_webhook_env sample_fanned = (2, s1) \<and>
     webhook_EventHandler (\<lambda>x. x) sample_webhook_env sample_public_event s1 = Inr s2 \<and>
     find_delivery ''whd_w1ev1'' s1 = Some d \<and> find_delivery ''whd_w1ev1'' s2 = Some d"
proof -
  let ?s1 = "snd (DispatchOnce sample_dispatcher sample_world sample_webhook_env sample_fanned)"
  have "fst (DispatchOnce sample_dispatcher sample_world sample_webhook_env sample_fanned) = 2"
    and st: "map_option wd_status (find_delivery ''whd_w1ev1'' ?s1) = Some DeliveryDelivered" by code_simp+
  then have run: "DispatchOnce sample_dispatcher sample_world sample_webhook_env sample_fanned = (2, ?s1)" by (metis prod.collapse)
  have "\<exists>s2. webhook_EventHandler (\<lambda>x. x) sample_webhook_env sample_public_event ?s1 = Inr s2" by (rule not_isl_Inr) code_simp
  then obtain s2 where s2: "webhook_EventHandler (\<lambda>x. x) sample_webhook_env sample_public_event ?s1 = Inr s2" by blast
  from st obtain d where d: "find_delivery ''whd_w1ev1'' ?s1 = Some d" "wd_status d = DeliveryDelivered" by auto
  from webhook_delivered_final [OF d disjI2 [OF disjI2 [OF s2]]] run s2 d show ?thesis by blast
qed

end
