(* ===== verification/Ledger.thy ===== *)
theory Ledger
  imports Payment_Core
begin

text \<open>
  Package \<^verbatim>\<open>ledger\<close> (\<^verbatim>\<open>service.go\<close>): the double-entry postings of payouts (reserve, release,
  settle), of received pay-ins and of provider returns. The state is the database; every operation
  runs inside the caller's transaction, so an error result means that nothing is written.

  \<open>ledger_balanced\<close> is the accounting invariant: every journal has entries, and its debits equal
  its credits. \<open>balance\<close> abstracts the entries to one signed amount per account; a posting refines a
  transfer between two accounts. The locale \<open>ledger_service\<close> is the Go interface
  \<^verbatim>\<open>LedgerService\<close> as its callers use it, interpreted by the PostgreSQL service.
\<close>

subsection \<open>Operations\<close>

definition insert_line :: "string \<Rightarrow> EntrySide \<Rightarrow> string \<Rightarrow> int \<Rightarrow> string \<Rightarrow> db \<Rightarrow> db result" where
  "insert_line journal side account amount currency s =
     insert_entry \<lparr>en_id = journal @ '':'' @ side_text side, en_journal = journal, en_account = account,
       en_side = side, en_amount = amount, en_currency = currency\<rparr> s"

text \<open>The loop over the debit line and the credit line of a journal.\<close>

definition insert_lines :: "string \<Rightarrow> string \<Rightarrow> string \<Rightarrow> int \<Rightarrow> string \<Rightarrow> db \<Rightarrow> db result" where
  "insert_lines journal debit credit amount currency s =
     bindE (insert_line journal EntryDebit debit amount currency s)
       (insert_line journal EntryCredit credit amount currency)"

definition postFrom ::
  "string \<Rightarrow> PaymentStatus list \<Rightarrow> PaymentStatus \<Rightarrow> string \<Rightarrow> string \<Rightarrow> string \<Rightarrow> string \<Rightarrow> string \<Rightarrow>
   string \<Rightarrow> time \<Rightarrow> bool \<Rightarrow> db \<Rightarrow> db result" where
  "postFrom i from to eventType sfx debit credit message note at updateState s =
     (case find_payment i s of
        None \<Rightarrow> Inl ErrNoRows
      | Some p \<Rightarrow>
          if updateState \<and> pay_status p = to then Inr s
          else if pay_status p \<notin> set from then Inl ErrInvalidPaymentStatus
          else let journal = ''jrn_'' @ i @ ''_'' @ sfx;
                   s1 = (if updateState then set_payment_status i to at s else s)
               in bindE (insert_journal_once journal i eventType at s1) (\<lambda>(s2, rows).
                    if rows = 0 then Inr s2
                    else bindE (insert_lines journal debit credit (pay_amount p) (pay_currency p) s2) (\<lambda>s3.
                      let timelineStatus = (if updateState then to else pay_status p)
                      in History_Record
                           \<lparr>au_payment = i, au_event = sfx, au_message = message, au_at = at\<rparr>
                           \<lparr>tl_payment = i, tl_status = timelineStatus, tl_note = note, tl_at = at\<rparr> s3)))"

definition post ::
  "string \<Rightarrow> PaymentStatus \<Rightarrow> PaymentStatus \<Rightarrow> string \<Rightarrow> string \<Rightarrow> string \<Rightarrow> string \<Rightarrow> string \<Rightarrow>
   string \<Rightarrow> time \<Rightarrow> bool \<Rightarrow> db \<Rightarrow> db result" where
  "post i from to eventType sfx debit credit message note at updateState s =
     postFrom i [from] to eventType sfx debit credit message note at updateState s"

definition Reserve :: "string \<Rightarrow> time \<Rightarrow> db \<Rightarrow> db result" where
  "Reserve i at s = post i PaymentStatusCreated PaymentStatusProcessing
     ''payment.processing'' ''processing'' CashOperatingAccount SettlementAccount
     ''payment processing started'' ''payment processing'' at True s"

definition Release :: "string \<Rightarrow> time \<Rightarrow> db \<Rightarrow> db result" where
  "Release i at s = post i PaymentStatusProcessing PaymentStatusProcessing
     ''payment.released'' ''released'' SettlementAccount CashOperatingAccount
     ''ledger reservation released'' ''ledger reservation released'' at False s"

definition Settle :: "string \<Rightarrow> time \<Rightarrow> db \<Rightarrow> db result" where
  "Settle i at s = post i PaymentStatusProcessing PaymentStatusSucceeded
     ''payment.succeeded'' ''succeeded'' SettlementAccount CashOperatingAccount
     ''payment succeeded'' ''payment succeeded'' at True s"

definition RecordPayin :: "string \<Rightarrow> time \<Rightarrow> db \<Rightarrow> db result" where
  "RecordPayin payin at s =
     (if payin = '''' then Inl (ErrText ''payin ID is required'') else
      case List.find (\<lambda>r. pi_payment r = payin) (payins s) of
        None \<Rightarrow> Inl ErrNoRows
      | Some r \<Rightarrow>
          if pi_status r \<noteq> ''received'' then Inl ErrInvalidPaymentStatus
          else let payment = pi_payment r; journal = ''jrn_'' @ payin @ ''_succeeded''
               in bindE (insert_journal_once journal payment ''payin.succeeded'' at s) (\<lambda>(s1, rows).
                  bindE (if rows = 1
                         then insert_lines journal CashOperatingAccount SettlementAccount
                                (pi_destination_amount r) (pi_destination_currency r) s1
                         else Inr s1) (\<lambda>s2.
                  bindE (RecordTimeline \<lparr>tl_payment = payment, tl_status = PaymentStatusSucceeded,
                           tl_note = ''payin ledger recorded'', tl_at = at\<rparr>
                         (set_payment_status payment PaymentStatusSucceeded at s2)) (\<lambda>s3.
                  let eventID = ''evt_'' @ payin @ ''_succeeded'';
                      body = Raw (JObj [(''data'', JObj [(''status'', JStr ''succeeded'')]),
                                   (''id'', JStr eventID), (''occurred_at'', at_json at),
                                   (''payin_id'', JStr payin), (''type'', JStr ''payin.succeeded'')])
                  in bindE (insert_outbox_once (new_outbox eventID PayinEventsTopic ''payin.succeeded'' SchemaVersion
                               payment ''payin'' body at) s3)
                       (insert_outbox_once (new_outbox (eventID @ ''_payment'') PaymentEventsTopic
                               ''payment.succeeded'' SchemaVersion payment ''payment'' body at))))))"

record ReturnRequest =
  rq_ID :: string
  rq_PaymentID :: string
  rq_Provider :: string
  rq_ProviderEventID :: string
  rq_Reason :: string
  rq_At :: time

text \<open>A posted settlement journal of a payment, as refunds and returns ask for it.\<close>

definition settled :: "string \<Rightarrow> db \<Rightarrow> bool" where
  "settled i s \<longleftrightarrow> list_ex (\<lambda>j. jr_payment j = i \<and> jr_event j = ''payment.succeeded'' \<and>
     jr_status j = LedgerPosted) (journals s)"

definition RecordReturn :: "ReturnRequest \<Rightarrow> db \<Rightarrow> db result" where
  "RecordReturn r s =
     (if rq_ID r = '''' \<or> rq_PaymentID r = '''' \<or> rq_Provider r = '''' \<or> rq_ProviderEventID r = '''' \<or>
         rq_Reason r = ''''
      then Inl (ErrText ''return ID, payment ID, provider, provider event ID, and reason are required'') else
      case find_payment (rq_PaymentID r) s of
        None \<Rightarrow> Inl ErrNoRows
      | Some p \<Rightarrow>
          if pay_status p \<noteq> PaymentStatusSucceeded \<or> \<not> settled (rq_PaymentID r) s
          then Inl ErrInvalidPaymentStatus
          else let journal = ''jrn_'' @ rq_ID r
               in bindE (insert_journal_once journal (rq_PaymentID r) ''payment.return.succeeded'' (rq_At r) s)
                    (\<lambda>(s1, rows).
                      if rows = 0 then Inr s1
                      else bindE (insert_lines journal CashOperatingAccount SettlementAccount
                                    (pay_amount p) (pay_currency p) s1) (\<lambda>s2.
                           bindE (insert_return \<lparr>rt_id = rq_ID r, rt_payment = rq_PaymentID r,
                                    rt_provider = rq_Provider r, rt_provider_event = rq_ProviderEventID r,
                                    rt_amount = pay_amount p, rt_currency = pay_currency p,
                                    rt_reason = rq_Reason r, rt_journal = journal, rt_at = rq_At r\<rparr> s2)
                             (History_Record
                               \<lparr>au_payment = rq_PaymentID r, au_event = ''return_succeeded'',
                                au_message = rq_Reason r, au_at = rq_At r\<rparr>
                               \<lparr>tl_payment = rq_PaymentID r, tl_status = PaymentStatusSucceeded,
                                tl_note = rq_Reason r, tl_at = rq_At r\<rparr>))))"

subsection \<open>The interface\<close>

text \<open>The Go interface \<^verbatim>\<open>LedgerService\<close>, as a record of its methods.\<close>

record LedgerService =
  ls_Reserve :: "string \<Rightarrow> time \<Rightarrow> db \<Rightarrow> db result"
  ls_Release :: "string \<Rightarrow> time \<Rightarrow> db \<Rightarrow> db result"
  ls_Settle :: "string \<Rightarrow> time \<Rightarrow> db \<Rightarrow> db result"
  ls_RecordPayin :: "string \<Rightarrow> time \<Rightarrow> db \<Rightarrow> db result"
  ls_RecordReturn :: "ReturnRequest \<Rightarrow> db \<Rightarrow> db result"

definition PostgresService :: LedgerService where
  "PostgresService = \<lparr>ls_Reserve = Reserve, ls_Release = Release, ls_Settle = Settle,
     ls_RecordPayin = RecordPayin, ls_RecordReturn = RecordReturn\<rparr>"

subsection \<open>Double entry\<close>

definition side_total :: "EntrySide \<Rightarrow> string \<Rightarrow> db \<Rightarrow> int" where
  "side_total sd j s =
     sum_list (map en_amount (filter (\<lambda>e. en_journal e = j \<and> en_side e = sd) (entries s)))"

definition one_currency :: "string \<Rightarrow> db \<Rightarrow> bool" where
  "one_currency j s \<longleftrightarrow>
     length (remdups (map en_currency (filter (\<lambda>e. en_journal e = j) (entries s)))) = 1"

definition journal_balanced :: "string \<Rightarrow> db \<Rightarrow> bool" where
  "journal_balanced j s \<longleftrightarrow> side_total EntryDebit j s = side_total EntryCredit j s \<and>
     0 < side_total EntryDebit j s \<and> one_currency j s"

definition entry_named :: "entry_row \<Rightarrow> bool" where
  "entry_named e \<longleftrightarrow> en_id e = en_journal e @ '':'' @ side_text (en_side e)"

definition ledger_balanced :: "db \<Rightarrow> bool" where
  "ledger_balanced s \<longleftrightarrow> list_all (\<lambda>j. journal_balanced (jr_id j) s) (journals s) \<and>
     list_all entry_named (entries s)"

text \<open>The signed balance of an account in one currency: debits minus credits.\<close>

definition signed_amount :: "entry_row \<Rightarrow> int" where
  "signed_amount e = (case en_side e of EntryDebit \<Rightarrow> en_amount e | EntryCredit \<Rightarrow> - en_amount e)"

definition balance :: "string \<Rightarrow> string \<Rightarrow> db \<Rightarrow> int" where
  "balance account currency s = sum_list (map signed_amount
     (filter (\<lambda>e. en_account e = account \<and> en_currency e = currency) (entries s)))"

text \<open>The abstract effect of a posting on the balances.\<close>

definition transfer ::
  "string \<Rightarrow> string \<Rightarrow> string \<Rightarrow> int \<Rightarrow> (string \<Rightarrow> string \<Rightarrow> int) \<Rightarrow> string \<Rightarrow> string \<Rightarrow> int" where
  "transfer debit credit currency amount b account cur =
     b account cur + (if cur = currency
       then (if account = debit then amount else 0) - (if account = credit then amount else 0) else 0)"

definition debit_entry :: "string \<Rightarrow> string \<Rightarrow> int \<Rightarrow> string \<Rightarrow> entry_row" where
  "debit_entry j account amount currency = \<lparr>en_id = j @ '':debit'', en_journal = j, en_account = account,
     en_side = EntryDebit, en_amount = amount, en_currency = currency\<rparr>"

definition credit_entry :: "string \<Rightarrow> string \<Rightarrow> int \<Rightarrow> string \<Rightarrow> entry_row" where
  "credit_entry j account amount currency = \<lparr>en_id = j @ '':credit'', en_journal = j, en_account = account,
     en_side = EntryCredit, en_amount = amount, en_currency = currency\<rparr>"

definition posted ::
  "string \<Rightarrow> string \<Rightarrow> string \<Rightarrow> string \<Rightarrow> string \<Rightarrow> int \<Rightarrow> string \<Rightarrow> time \<Rightarrow> db \<Rightarrow> db" where
  "posted j i ty debit credit amount currency at s =
     s\<lparr>journals := journals s @
         [\<lparr>jr_id = j, jr_payment = i, jr_event = ty, jr_status = LedgerPosted, jr_at = at\<rparr>],
       entries := entries s @ [debit_entry j debit amount currency, credit_entry j credit amount currency]\<rparr>"

definition has_event :: "string \<Rightarrow> string \<Rightarrow> db \<Rightarrow> bool" where
  "has_event i ty s \<longleftrightarrow> list_ex (\<lambda>j. jr_payment j = i \<and> jr_event j = ty) (journals s)"

lemma insert_entry_Inr:
  "insert_entry r s = Inr s' \<Longrightarrow> s' = s\<lparr>entries := entries s @ [r]\<rparr> \<and> 0 < en_amount r"
  by (simp add: insert_entry_def entries_ok_def split: if_splits)

lemma insert_lines_Inr:
  assumes "insert_lines j d c amt cur s = Inr s'"
  shows "s' = s\<lparr>entries := entries s @ [debit_entry j d amt cur, credit_entry j c amt cur]\<rparr> \<and> 0 < amt"
proof -
  from assms obtain s1 where
    s1: "insert_line j EntryDebit d amt cur s = Inr s1" and
    s2: "insert_line j EntryCredit c amt cur s1 = Inr s'"
    by (auto simp: insert_lines_def result_simps)
  show ?thesis
    using insert_entry_Inr [OF s1 [unfolded insert_line_def]]
      insert_entry_Inr [OF s2 [unfolded insert_line_def]]
    by (simp add: debit_entry_def credit_entry_def)
qed

lemma insert_journal_once_0:
  "insert_journal_once j i ty at s = Inr (s', 0) \<longleftrightarrow> has_event i ty s \<and> s' = s"
  by (auto simp: insert_journal_once_def has_event_def)

lemma insert_journal_once_rows:
  "insert_journal_once j i ty at s = Inr (s', n) \<Longrightarrow> n = 0 \<or> n = 1"
  by (auto simp: insert_journal_once_def split: if_splits)

lemma insert_journal_once_new:
  assumes "insert_journal_once j i ty at s = Inr (s', n)" and "n \<noteq> 0"
  shows "s' = s\<lparr>journals := journals s @
      [\<lparr>jr_id = j, jr_payment = i, jr_event = ty, jr_status = LedgerPosted, jr_at = at\<rparr>]\<rparr>"
    and "\<not> has_event i ty s" and "has_payment i s" and "\<not> has_journal j s" and "n = 1"
  using assms by (simp_all add: insert_journal_once_def has_event_def split: if_splits)

lemma posted_steps:
  assumes "insert_journal_once j i ty at s = Inr (s1, n)" and "n \<noteq> 0"
    and "insert_lines j d c amt cur s1 = Inr s2"
  shows "s2 = posted j i ty d c amt cur at s" and "\<not> has_journal j s" and "0 < amt"
    and "\<not> has_event i ty s" and "has_payment i s"
  using insert_journal_once_new [OF assms(1,2)] insert_lines_Inr [OF assms(3)]
  by (simp_all add: posted_def)

lemma posted_frame [simp]:
  "payments (posted j i ty d c amt cur at s) = payments s"
  "has_payment k (posted j i ty d c amt cur at s) = has_payment k s"
  "outbox (posted j i ty d c amt cur at s) = outbox s"
  "sagas (posted j i ty d c amt cur at s) = sagas s"
  "inbox (posted j i ty d c amt cur at s) = inbox s"
  "payins (posted j i ty d c amt cur at s) = payins s"
  "payouts (posted j i ty d c amt cur at s) = payouts s"
  "refunds (posted j i ty d c amt cur at s) = refunds s"
  "quotes (posted j i ty d c amt cur at s) = quotes s"
  "endpoints (posted j i ty d c amt cur at s) = endpoints s"
  by (simp_all add: posted_def has_payment_def)

lemma ledger_balanced_frame:
  assumes "journals s' = journals s" and "entries s' = entries s"
  shows "ledger_balanced s' = ledger_balanced s"
  using assms by (simp add: ledger_balanced_def journal_balanced_def side_total_def one_currency_def)

lemma balance_frame: "entries s' = entries s \<Longrightarrow> balance a c s' = balance a c s"
  by (simp add: balance_def)

lemma journal_balanced_posted_other:
  assumes "k \<noteq> j"
  shows "journal_balanced k (posted j i ty d c amt cur at s) = journal_balanced k s"
  using assms
  by (simp add: journal_balanced_def side_total_def one_currency_def posted_def debit_entry_def credit_entry_def)

lemma no_entries_of_new_journal:
  assumes "store_ok s" and "\<not> has_journal j s"
  shows "filter (\<lambda>e. en_journal e = j) (entries s) = []"
    and "filter (\<lambda>e. en_journal e = j \<and> P e) (entries s) = []"
  using assms by (auto simp: store_ok_def list_all_iff filter_empty_conv)

lemma ledger_balanced_posted:
  assumes "ledger_balanced s" and "store_ok s" and "\<not> has_journal j s" and "0 < amt"
  shows "ledger_balanced (posted j i ty d c amt cur at s)"
proof -
  have new: "journal_balanced j (posted j i ty d c amt cur at s)"
    using no_entries_of_new_journal [OF assms(2,3)] assms(4)
    by (simp add: journal_balanced_def side_total_def one_currency_def posted_def debit_entry_def
        credit_entry_def)
  have old: "journal_balanced (jr_id r) (posted j i ty d c amt cur at s)" if "r \<in> set (journals s)" for r
  proof -
    from that assms(3) have "jr_id r \<noteq> j" by (auto simp: has_journal_def)
    with that assms(1) show ?thesis
      by (simp add: journal_balanced_posted_other ledger_balanced_def list_all_iff)
  qed
  have "list_all entry_named (entries (posted j i ty d c amt cur at s))"
    using assms(1) by (simp add: ledger_balanced_def posted_def entry_named_def debit_entry_def credit_entry_def)
  with new old show ?thesis
    by (simp add: ledger_balanced_def posted_def list_all_iff)
qed

lemma balance_posted:
  "(\<lambda>a b. balance a b (posted j i ty d c amt cur at s)) = transfer d c cur amt (\<lambda>a b. balance a b s)"
  by (rule ext)+
    (auto simp: balance_def posted_def transfer_def debit_entry_def credit_entry_def signed_amount_def)

subsection \<open>What a successful posting does\<close>

lemma has_event_set_status [simp]: "has_event k ty (set_payment_status i st at s) = has_event k ty s"
  by (simp add: has_event_def)

definition with_status :: "bool \<Rightarrow> string \<Rightarrow> PaymentStatus \<Rightarrow> time \<Rightarrow> db \<Rightarrow> db" where
  "with_status b i to at s = (if b then set_payment_status i to at s else s)"

lemma with_status_frame [simp]:
  "journals (with_status b i to at s) = journals s"
  "entries (with_status b i to at s) = entries s"
  "sagas (with_status b i to at s) = sagas s"
  "inbox (with_status b i to at s) = inbox s"
  "outbox (with_status b i to at s) = outbox s"
  "payouts (with_status b i to at s) = payouts s"
  "payins (with_status b i to at s) = payins s"
  "refunds (with_status b i to at s) = refunds s"
  "quotes (with_status b i to at s) = quotes s"
  "endpoints (with_status b i to at s) = endpoints s"
  "has_event k ty (with_status b i to at s) = has_event k ty s"
  "has_journal k (with_status b i to at s) = has_journal k s"
  "has_payment k (with_status b i to at s) = has_payment k s"
  by (simp_all add: with_status_def)

lemma postFrom_cases [consumes 1, case_names same again new]:
  assumes "postFrom i from to ty sfx d c msg note at upd s = Inr s'"
  obtains
    p where "find_payment i s = Some p" "upd" "pay_status p = to" "s' = s"
  | p where "find_payment i s = Some p" "pay_status p \<in> set from" "has_event i ty s"
      "s' = with_status upd i to at s"
  | p a t where "find_payment i s = Some p" "pay_status p \<in> set from" "\<not> has_event i ty s"
      "\<not> has_journal (''jrn_'' @ i @ ''_'' @ sfx) s" "0 < pay_amount p"
      "s' = (posted (''jrn_'' @ i @ ''_'' @ sfx) i ty d c (pay_amount p) (pay_currency p) at
               (with_status upd i to at s))\<lparr>audits := a, timeline := t\<rparr>"
proof -
  let ?j = "''jrn_'' @ i @ ''_'' @ sfx" and ?s1 = "with_status upd i to at s"
  from assms obtain p where p: "find_payment i s = Some p"
    by (auto simp: postFrom_def split: option.splits)
  show thesis
  proof (cases "upd \<and> pay_status p = to")
    case True
    with assms p show thesis by (intro that(1)) (auto simp: postFrom_def)
  next
    case False
    with assms p have from_ok: "pay_status p \<in> set from"
      by (auto simp: postFrom_def split: if_splits)
    let ?hist = "History_Record \<lparr>au_payment = i, au_event = sfx, au_message = msg, au_at = at\<rparr>
      \<lparr>tl_payment = i, tl_status = (if upd then to else pay_status p), tl_note = note, tl_at = at\<rparr>"
    have "bindE (insert_journal_once ?j i ty at ?s1) (\<lambda>(s2, n). if n = 0 then Inr s2
        else bindE (insert_lines ?j d c (pay_amount p) (pay_currency p) s2) ?hist) = Inr s'"
      using assms p False from_ok unfolding postFrom_def Let_def with_status_def
      by (simp del: append.simps)
    then obtain s2 n where j: "insert_journal_once ?j i ty at ?s1 = Inr (s2, n)"
      and rest: "(if n = 0 then Inr s2
        else bindE (insert_lines ?j d c (pay_amount p) (pay_currency p) s2) ?hist) = Inr s'"
      by (auto simp: bindE_Inr_iff simp del: append.simps)
    show thesis
    proof (cases "n = 0")
      case True
      with j rest p from_ok show thesis by (intro that(2)) (auto simp: insert_journal_once_0)
    next
      case False
      with rest obtain s3 where l: "insert_lines ?j d c (pay_amount p) (pay_currency p) s2 = Inr s3"
        and h: "\<exists>a t. s' = s3\<lparr>audits := a, timeline := t\<rparr>"
        by (auto simp: bindE_Inr_iff History_Record_Inr)
      from h obtain a t where s': "s' = s3\<lparr>audits := a, timeline := t\<rparr>" by blast
      show thesis
        using posted_steps [OF j False l] p from_ok s' by (intro that(3)) simp_all
    qed
  qed
qed

lemma store_ok_history [store_keeps]: "store_ok s \<Longrightarrow> store_ok (s\<lparr>audits := a, timeline := t\<rparr>)"
  by (simp add: store_ok_def has_defs)

lemma new_entry_ids:
  assumes "ledger_balanced s" and "store_ok s" and "\<not> has_journal j s"
  shows "j @ '':debit'' \<notin> set (map en_id (entries s)) \<and> j @ '':credit'' \<notin> set (map en_id (entries s))"
proof -
  have "en_id e \<noteq> j @ '':debit'' \<and> en_id e \<noteq> j @ '':credit''" if "e \<in> set (entries s)" for e
  proof -
    from that assms(2,3) have "en_journal e \<noteq> j" by (auto simp: store_ok_def list_all_iff)
    with that assms(1) show ?thesis
      by (cases "en_side e") (auto simp: ledger_balanced_def entry_named_def list_all_iff)
  qed
  then show ?thesis by fastforce
qed

lemma store_ok_posted:
  assumes "store_ok s" and "ledger_balanced s" and "has_payment i s" and "\<not> has_journal j s"
    and "\<not> has_event i ty s" and "0 < amt"
    and "{d, c} \<subseteq> {CashOperatingAccount, SettlementAccount}"
  shows "store_ok (posted j i ty d c amt cur at s)"
proof -
  have "{j @ '':debit'', j @ '':credit''} \<inter> set (map en_id (entries s)) = {}"
    using new_entry_ids [OF assms(2,1,4)] by simp
  then have "entries_ok (entries (posted j i ty d c amt cur at s))"
    using assms(1,6,7)
    by (simp add: store_ok_def entries_ok_def posted_def debit_entry_def credit_entry_def)
  moreover have "journals_ok (journals (posted j i ty d c amt cur at s))"
    using assms(1,4,5)
    by (auto simp: store_ok_def journals_ok_def posted_def has_event_def list_ex_iff has_journal_def)
  ultimately show ?thesis
    using assms(1,3) by (auto simp: store_ok_def posted_def has_defs list_all_iff debit_entry_def credit_entry_def)
qed

subsection \<open>The ledger invariant and its preservation\<close>

definition ledger_ok :: "db \<Rightarrow> bool" where
  "ledger_ok s \<longleftrightarrow> store_ok s \<and> ledger_balanced s"

definition accounts :: "string set" where
  "accounts = {CashOperatingAccount, SettlementAccount}"

lemma ledger_ok_history [simp]: "ledger_ok (s\<lparr>audits := a, timeline := t\<rparr>) = ledger_ok s"
  by (simp add: ledger_ok_def store_ok_def has_defs ledger_balanced_def journal_balanced_def side_total_def
      one_currency_def)

lemma ledger_ok_with_status:
  "ledger_ok s \<Longrightarrow> ledger_ok (with_status b i to at s)"
  using ledger_balanced_frame [of "with_status b i to at s" s]
  by (simp add: ledger_ok_def) (simp add: with_status_def store_keeps)

lemma ledger_ok_set_status: "ledger_ok s \<Longrightarrow> ledger_ok (set_payment_status i to at s)"
  using ledger_ok_with_status [of s True] by (simp add: with_status_def)

lemma ledger_ok_posted:
  assumes "ledger_ok s" and "has_payment i s" and "\<not> has_journal j s" and "\<not> has_event i ty s"
    and "0 < amt" and "{d, c} \<subseteq> accounts"
  shows "ledger_ok (posted j i ty d c amt cur at s)"
  using assms store_ok_posted ledger_balanced_posted by (auto simp: ledger_ok_def accounts_def)

lemma postFrom_ledger_ok:
  assumes "postFrom i from to ty sfx d c msg note at upd s = Inr s'" and "ledger_ok s"
    and "{d, c} \<subseteq> accounts"
  shows "ledger_ok s'"
  using assms(1)
proof (cases rule: postFrom_cases)
  case (new p a t)
  then show ?thesis
    using assms(2,3) find_payment_has [OF new(1)]
    by (simp add: ledger_ok_posted ledger_ok_with_status)
qed (use assms in \<open>simp_all add: ledger_ok_with_status\<close>)

lemma status_of_with_status:
  "status_of k (with_status b i to at s) = (if b \<and> k = i \<and> has_payment k s then Some to else status_of k s)"
  by (auto simp: with_status_def status_of_set_status)

lemma postFrom_status:
  assumes "postFrom i from to ty sfx d c msg note at upd s = Inr s'"
  shows "status_of k s' = (if upd \<and> k = i then Some to else status_of k s)"
  using assms
proof (cases rule: postFrom_cases)
  case (same p)
  then show ?thesis by (simp add: status_of_def)
next
  case (again p)
  then show ?thesis using find_payment_has by (auto simp: status_of_with_status)
next
  case (new p a t)
  have "status_of k s' = status_of k (with_status upd i to at s)"
    by (rule status_of_frame) (simp add: new(6))
  then show ?thesis using find_payment_has [OF new(1)] by (auto simp: status_of_with_status)
qed

lemma postFrom_from:
  assumes "postFrom i from to ty sfx d c msg note at upd s = Inr s'"
  shows "\<exists>st. status_of i s = Some st \<and> (st \<in> set from \<or> upd \<and> st = to)"
  using assms by (cases rule: postFrom_cases) (auto simp: status_of_def)

text \<open>The tables beside the payments, their operations and the ledger.\<close>

definition tables_kept :: "db \<Rightarrow> db \<Rightarrow> bool" where
  "tables_kept s s' \<longleftrightarrow> sagas s' = sagas s \<and> inbox s' = inbox s \<and> quotes s' = quotes s \<and> endpoints s' = endpoints s"

lemma postFrom_frame:
  assumes "postFrom i from to ty sfx d c msg note at upd s = Inr s'"
  shows "tables_kept s s'" and "outbox s' = outbox s" and
    "payouts s' = payouts s" and "payins s' = payins s" and "refunds s' = refunds s"
  by (use assms in \<open>cases rule: postFrom_cases; simp add: tables_kept_def\<close>)+

text \<open>One posting moves the payment's amount once, between the two accounts it names.\<close>

lemma postFrom_balance:
  assumes "postFrom i from to ty sfx d c msg note at upd s = Inr s'" and "find_payment i s = Some p"
  shows "(\<lambda>a b. balance a b s') =
    (if has_event i ty s \<or> upd \<and> pay_status p = to then (\<lambda>a b. balance a b s)
     else transfer d c (pay_currency p) (pay_amount p) (\<lambda>a b. balance a b s))"
proof -
  have frame: "balance a b (with_status upd i to at s) = balance a b s" for a b
    by (rule balance_frame) simp
  from assms(1) show ?thesis
  proof (cases rule: postFrom_cases)
    case (same q)
    with assms(2) show ?thesis by simp
  next
    case (again q)
    with frame show ?thesis by simp
  next
    case (new q a t)
    then have "q = p" using assms(2) by simp
    have "\<not> (upd \<and> pay_status p = to)"
    proof
      assume same: "upd \<and> pay_status p = to"
      with assms have "s' = s" by (simp add: postFrom_def)
      then have "journals s' = journals s" by simp
      with new(6) show False by (simp add: posted_def)
    qed
    moreover have "balance x y s' = balance x y (posted (''jrn_'' @ i @ ''_'' @ sfx) i ty d c
        (pay_amount p) (pay_currency p) at (with_status upd i to at s))" for x y
      unfolding new(6) \<open>q = p\<close> by (rule balance_frame) simp
    ultimately show ?thesis
      using new(3) frame balance_posted by auto
  qed
qed

lemmas post_ops = post_def Reserve_def Release_def Settle_def

lemma accounts_ok [simp]:
  "{CashOperatingAccount, SettlementAccount} \<subseteq> accounts" "{SettlementAccount, CashOperatingAccount} \<subseteq> accounts"
  by (auto simp: accounts_def)

subsection \<open>Received pay-ins and returns\<close>

lemma insert_outbox_shape:
  "insert_outbox r s = Inr s' \<Longrightarrow> \<exists>ob n. s' = s\<lparr>outbox := ob, outbox_seq := n\<rparr>"
  by (auto simp: insert_outbox_def split: if_splits)

lemma insert_outbox_once_shape:
  assumes "insert_outbox_once r s = Inr s'"
  shows "\<exists>ob n. s' = s\<lparr>outbox := ob, outbox_seq := n\<rparr>"
proof (cases "s' = s")
  case True
  then have "s' = s\<lparr>outbox := outbox s, outbox_seq := outbox_seq s\<rparr>" by simp
  then show ?thesis by blast
next
  case False
  with assms have "insert_outbox r s = Inr s'"
    by (auto simp: insert_outbox_once_def split: if_splits)
  then show ?thesis by (rule insert_outbox_shape)
qed

definition payin_posting :: "string \<Rightarrow> time \<Rightarrow> payin_row \<Rightarrow> db \<Rightarrow> db \<Rightarrow> bool" where
  "payin_posting i at r s s2 \<longleftrightarrow>
     (if has_event i ''payin.succeeded'' s then s2 = s
      else s2 = posted (''jrn_'' @ i @ ''_succeeded'') i ''payin.succeeded'' CashOperatingAccount SettlementAccount
        (pi_destination_amount r) (pi_destination_currency r) at s \<and>
        \<not> has_journal (''jrn_'' @ i @ ''_succeeded'') s \<and> 0 < pi_destination_amount r)"

lemma payin_posting_payments: "payin_posting i at r s s2 \<Longrightarrow> payments s2 = payments s"
  by (auto simp: payin_posting_def split: if_splits)

lemma RecordPayin_cases:
  assumes "RecordPayin i at s = Inr s'"
  obtains r s2 ob n t where
    "List.find (\<lambda>r. pi_payment r = i) (payins s) = Some r" "pi_status r = ''received''" "has_payment i s"
    "payin_posting i at r s s2"
    "s' = (set_payment_status i PaymentStatusSucceeded at s2)\<lparr>timeline := t, outbox := ob, outbox_seq := n\<rparr>"
    "store_ok s2 \<longrightarrow> store_ok s'"
proof -
  let ?j = "''jrn_'' @ i @ ''_succeeded''"
  from assms obtain r where r: "List.find (\<lambda>r. pi_payment r = i) (payins s) = Some r" "pi_status r = ''received''"
    by (auto simp: RecordPayin_def split: if_splits option.splits)
  from r(1) have i: "pi_payment r = i" by (auto dest: find_Some_memb)
  let ?tl = "RecordTimeline \<lparr>tl_payment = i, tl_status = PaymentStatusSucceeded,
                           tl_note = ''payin ledger recorded'', tl_at = at\<rparr>"
  from assms r i obtain s1 m s2 s3 s4 e1 e2 where
    j: "insert_journal_once ?j i ''payin.succeeded'' at s = Inr (s1, m)" and
    l: "(if m = 1 then insert_lines ?j CashOperatingAccount SettlementAccount
          (pi_destination_amount r) (pi_destination_currency r) s1 else Inr s1) = Inr s2" and
    tl: "?tl (set_payment_status i PaymentStatusSucceeded at s2) = Inr s3" and
    ob: "insert_outbox_once e1 s3 = Inr s4" "insert_outbox_once e2 s4 = Inr s'"
    unfolding RecordPayin_def Let_def
    by (auto simp: bindE_Inr_iff simp del: append.simps split: if_splits)
  have two: "payin_posting i at r s s2"
  proof (cases "m = 0")
    case True
    with j l show ?thesis by (simp add: insert_journal_once_0 payin_posting_def)
  next
    case False
    with insert_journal_once_rows [OF j] l have "insert_lines ?j CashOperatingAccount SettlementAccount
          (pi_destination_amount r) (pi_destination_currency r) s1 = Inr s2" by simp
    from posted_steps [OF j False this] show ?thesis by (simp add: payin_posting_def del: append.simps)
  qed
  from tl have p: "has_payment i s2" and s3: "\<exists>t. s3 = (set_payment_status i PaymentStatusSucceeded at s2)\<lparr>timeline := t\<rparr>"
    by (auto simp: RecordTimeline_Inr)
  have keeps: "store_ok s2 \<longrightarrow> store_ok s'"
    using RecordTimeline_keeps [OF tl] insert_outbox_once_keeps [OF ob(1)] insert_outbox_once_keeps [OF ob(2)]
      store_ok_set_payment_status by blast
  from s3 ob obtain t ob' n where
    s': "s' = (set_payment_status i PaymentStatusSucceeded at s2)\<lparr>timeline := t, outbox := ob', outbox_seq := n\<rparr>"
    by (fastforce dest!: insert_outbox_once_shape)
  from payin_posting_payments [OF two] p have "has_payment i s" by (simp add: has_payment_def)
  with r two s' keeps that show thesis by blast
qed

lemma ledger_balanced_after_payin:
  "ledger_balanced ((set_payment_status i st at s)\<lparr>timeline := t, outbox := ob, outbox_seq := n\<rparr>) =
   ledger_balanced s"
  by (rule ledger_balanced_frame) simp_all

lemma RecordPayin_ledger_ok:
  assumes "RecordPayin i at s = Inr s'" and "ledger_ok s"
  shows "ledger_ok s'"
proof -
  from assms(1) obtain r s2 ob n t where p: "has_payment i s" and two: "payin_posting i at r s s2" and
    s': "s' = (set_payment_status i PaymentStatusSucceeded at s2)\<lparr>timeline := t, outbox := ob, outbox_seq := n\<rparr>"
    and keeps: "store_ok s2 \<longrightarrow> store_ok s'"
    by (rule RecordPayin_cases)
  from two p assms(2) have "ledger_ok s2"
    by (auto simp: payin_posting_def accounts_def simp del: append.simps split: if_splits intro!: ledger_ok_posted)
  then show ?thesis using keeps ledger_balanced_after_payin by (simp add: ledger_ok_def s')
qed

lemma RecordPayin_status:
  assumes "RecordPayin i at s = Inr s'"
  shows "status_of k s' = (if k = i then Some PaymentStatusSucceeded else status_of k s)"
proof -
  from assms obtain r s2 ob n t where p: "has_payment i s" and two: "payin_posting i at r s s2" and
    s': "s' = (set_payment_status i PaymentStatusSucceeded at s2)\<lparr>timeline := t, outbox := ob, outbox_seq := n\<rparr>"
    by (rule RecordPayin_cases)
  note same = payin_posting_payments [OF two]
  have "has_payment k s2 = has_payment k s" by (simp add: has_payment_def same)
  moreover have "status_of k s' = status_of k (set_payment_status i PaymentStatusSucceeded at s2)"
    by (rule status_of_frame) (simp add: s')
  ultimately show ?thesis using p status_of_frame [OF same, of k] by (simp add: status_of_set_status)
qed

definition return_row_of :: "ReturnRequest \<Rightarrow> payment_row \<Rightarrow> return_row" where
  "return_row_of r p = \<lparr>rt_id = rq_ID r, rt_payment = rq_PaymentID r, rt_provider = rq_Provider r,
     rt_provider_event = rq_ProviderEventID r, rt_amount = pay_amount p, rt_currency = pay_currency p,
     rt_reason = rq_Reason r, rt_journal = ''jrn_'' @ rq_ID r, rt_at = rq_At r\<rparr>"

lemma RecordReturn_cases [consumes 1, case_names again new]:
  assumes "RecordReturn r s = Inr s'"
  obtains
    p where "find_payment (rq_PaymentID r) s = Some p" "pay_status p = PaymentStatusSucceeded"
      "settled (rq_PaymentID r) s" "has_event (rq_PaymentID r) ''payment.return.succeeded'' s" "s' = s"
  | p a t where "find_payment (rq_PaymentID r) s = Some p" "pay_status p = PaymentStatusSucceeded"
      "settled (rq_PaymentID r) s" "\<not> has_event (rq_PaymentID r) ''payment.return.succeeded'' s"
      "\<not> has_journal (''jrn_'' @ rq_ID r) s" "0 < pay_amount p"
      "s' = (posted (''jrn_'' @ rq_ID r) (rq_PaymentID r) ''payment.return.succeeded'' CashOperatingAccount
               SettlementAccount (pay_amount p) (pay_currency p) (rq_At r) s)
             \<lparr>returns := returns s @ [return_row_of r p], audits := a, timeline := t\<rparr>"
      "returns_ok (returns s')"
proof -
  let ?i = "rq_PaymentID r" and ?j = "''jrn_'' @ rq_ID r" and ?ty = "''payment.return.succeeded''"
  from assms obtain p where p: "find_payment ?i s = Some p" "pay_status p = PaymentStatusSucceeded" "settled ?i s"
    by (auto simp: RecordReturn_def split: if_splits option.splits)
  let ?hist = "History_Record \<lparr>au_payment = ?i, au_event = ''return_succeeded'', au_message = rq_Reason r,
      au_at = rq_At r\<rparr> \<lparr>tl_payment = ?i, tl_status = PaymentStatusSucceeded, tl_note = rq_Reason r, tl_at = rq_At r\<rparr>"
  have "bindE (insert_journal_once ?j ?i ?ty (rq_At r) s) (\<lambda>(s1, n). if n = 0 then Inr s1
      else bindE (insert_lines ?j CashOperatingAccount SettlementAccount (pay_amount p) (pay_currency p) s1)
        (\<lambda>s2. bindE (insert_return (return_row_of r p) s2) ?hist)) = Inr s'"
    using assms p unfolding RecordReturn_def Let_def return_row_of_def
    by (simp del: append.simps split: if_splits)
  then obtain s1 n where j: "insert_journal_once ?j ?i ?ty (rq_At r) s = Inr (s1, n)" and
    rest: "(if n = 0 then Inr s1
      else bindE (insert_lines ?j CashOperatingAccount SettlementAccount (pay_amount p) (pay_currency p) s1)
        (\<lambda>s2. bindE (insert_return (return_row_of r p) s2) ?hist)) = Inr s'"
    by (auto simp: bindE_Inr_iff simp del: append.simps)
  show thesis
  proof (cases "n = 0")
    case True
    with j rest p show thesis by (intro that(1)) (auto simp: insert_journal_once_0)
  next
    case False
    with rest obtain s2 s3 where
      l: "insert_lines ?j CashOperatingAccount SettlementAccount (pay_amount p) (pay_currency p) s1 = Inr s2" and
      r: "insert_return (return_row_of r p) s2 = Inr s3" and h: "?hist s3 = Inr s'"
      by (auto simp: bindE_Inr_iff simp del: append.simps)
    from r have s3: "s3 = s2\<lparr>returns := returns s2 @ [return_row_of r p]\<rparr>" "returns_ok (returns s3)"
      by (auto simp: insert_return_def split: if_splits)
    from h obtain a t where s': "s' = s3\<lparr>audits := a, timeline := t\<rparr>"
      by (auto simp: History_Record_Inr)
    note post = posted_steps [OF j False l]
    have "returns s2 = returns s" by (simp add: post(1) posted_def)
    with p post s3 s' show thesis by (intro that(2)) simp_all
  qed
qed

lemma ledger_ok_returns:
  "ledger_ok s \<Longrightarrow> returns_ok rs \<Longrightarrow> ledger_ok (s\<lparr>returns := rs\<rparr>)"
  using ledger_balanced_frame [of "s\<lparr>returns := rs\<rparr>" s]
  by (simp add: ledger_ok_def store_ok_def has_defs)

lemma RecordReturn_ledger_ok:
  assumes "RecordReturn r s = Inr s'" and "ledger_ok s"
  shows "ledger_ok s'"
  using assms(1)
proof (cases rule: RecordReturn_cases)
  case (new p a t)
  then have "returns_ok (returns s @ [return_row_of r p])" by simp
  with new(1,4,5,6) assms(2) show ?thesis
    by (auto simp: new(7) accounts_def find_payment_has simp del: append.simps
        intro!: ledger_ok_returns ledger_ok_posted)
qed (use assms in simp)

lemma RecordReturn_frame:
  assumes "RecordReturn r s = Inr s'"
  shows "payments s' = payments s" and "tables_kept s s'" and "outbox s' = outbox s"
  by (use assms in \<open>cases rule: RecordReturn_cases; simp add: tables_kept_def\<close>)+

lemma RecordPayin_frame:
  assumes "RecordPayin i at s = Inr s'"
  shows "tables_kept s s'"
proof -
  from assms obtain r s2 ob n t where two: "payin_posting i at r s s2" and
    s': "s' = (set_payment_status i PaymentStatusSucceeded at s2)\<lparr>timeline := t, outbox := ob, outbox_seq := n\<rparr>"
    by (rule RecordPayin_cases)
  from two have "tables_kept s s2" by (auto simp: payin_posting_def tables_kept_def split: if_splits)
  then show ?thesis by (simp add: s' tables_kept_def)
qed

text \<open>The ledger is append-only: every journal and entry stays where it is.\<close>

definition ledger_extends :: "db \<Rightarrow> db \<Rightarrow> bool" where
  "ledger_extends s s' \<longleftrightarrow> prefix (journals s) (journals s') \<and> prefix (entries s) (entries s')"

lemma ledger_extends_frame: "journals s' = journals s \<Longrightarrow> entries s' = entries s \<Longrightarrow> ledger_extends s s'"
  by (simp add: ledger_extends_def)

lemma ledger_extends_trans: "ledger_extends s t \<Longrightarrow> ledger_extends t u \<Longrightarrow> ledger_extends s u"
  unfolding ledger_extends_def by (blast intro: prefix_order.trans)

lemma ledger_extends_posted:
  "journals s' = journals (posted j i ty d c amt cur at s) \<Longrightarrow>
   entries s' = entries (posted j i ty d c amt cur at s) \<Longrightarrow> ledger_extends s s'"
  by (simp add: ledger_extends_def posted_def)

lemma postFrom_extends:
  assumes "postFrom i from to ty sfx d c msg note at upd s = Inr s'"
  shows "ledger_extends s s'"
  using assms
proof (cases rule: postFrom_cases)
  case (new p a t)
  have "ledger_extends (with_status upd i to at s) s'" by (rule ledger_extends_posted) (simp_all add: new(6))
  then show ?thesis by (simp add: ledger_extends_def)
qed (auto intro: ledger_extends_frame)

lemma RecordPayin_extends:
  assumes "RecordPayin i at s = Inr s'"
  shows "ledger_extends s s'"
proof -
  from assms obtain r s2 ob n t where two: "payin_posting i at r s s2" and
    s': "s' = (set_payment_status i PaymentStatusSucceeded at s2)\<lparr>timeline := t, outbox := ob, outbox_seq := n\<rparr>"
    by (rule RecordPayin_cases)
  from two have "ledger_extends s s2"
    by (auto simp: payin_posting_def split: if_splits intro: ledger_extends_frame ledger_extends_posted)
  then show ?thesis by (simp add: s' ledger_extends_def)
qed

lemma RecordReturn_extends:
  assumes "RecordReturn r s = Inr s'"
  shows "ledger_extends s s'"
  using assms
proof (cases rule: RecordReturn_cases)
  case (new p a t)
  show ?thesis by (rule ledger_extends_posted) (simp_all add: new(7))
qed (auto intro: ledger_extends_frame)

subsection \<open>The contract of a ledger service\<close>

locale ledger_service =
  fixes svc :: LedgerService
  assumes reserve_ok: "ls_Reserve svc i at s = Inr s' \<Longrightarrow> ledger_ok s \<Longrightarrow> ledger_ok s'"
    and release_ok: "ls_Release svc i at s = Inr s' \<Longrightarrow> ledger_ok s \<Longrightarrow> ledger_ok s'"
    and settle_ok: "ls_Settle svc i at s = Inr s' \<Longrightarrow> ledger_ok s \<Longrightarrow> ledger_ok s'"
    and payin_ok: "ls_RecordPayin svc i at s = Inr s' \<Longrightarrow> ledger_ok s \<Longrightarrow> ledger_ok s'"
    and return_ok: "ls_RecordReturn svc r s = Inr s' \<Longrightarrow> ledger_ok s \<Longrightarrow> ledger_ok s'"
    and reserve_from: "ls_Reserve svc i at s = Inr s' \<Longrightarrow>
      status_of i s \<in> {Some PaymentStatusCreated, Some PaymentStatusProcessing}"
    and reserve_status: "ls_Reserve svc i at s = Inr s' \<Longrightarrow>
      status_of k s' = (if k = i then Some PaymentStatusProcessing else status_of k s)"
    and release_status: "ls_Release svc i at s = Inr s' \<Longrightarrow>
      status_of i s = Some PaymentStatusProcessing \<and> status_of k s' = status_of k s"
    and settle_from: "ls_Settle svc i at s = Inr s' \<Longrightarrow>
      status_of i s \<in> {Some PaymentStatusProcessing, Some PaymentStatusSucceeded}"
    and settle_status: "ls_Settle svc i at s = Inr s' \<Longrightarrow>
      status_of k s' = (if k = i then Some PaymentStatusSucceeded else status_of k s)"
    and payin_status: "ls_RecordPayin svc i at s = Inr s' \<Longrightarrow>
      status_of k s' = (if k = i then Some PaymentStatusSucceeded else status_of k s)"
    and return_status: "ls_RecordReturn svc r s = Inr s' \<Longrightarrow> status_of k s' = status_of k s"
    and reserve_frame: "ls_Reserve svc i at s = Inr s' \<Longrightarrow> tables_kept s s' \<and> ledger_extends s s'"
    and release_frame: "ls_Release svc i at s = Inr s' \<Longrightarrow> tables_kept s s' \<and> ledger_extends s s'"
    and settle_frame: "ls_Settle svc i at s = Inr s' \<Longrightarrow> tables_kept s s' \<and> ledger_extends s s'"
    and payin_frame: "ls_RecordPayin svc i at s = Inr s' \<Longrightarrow> tables_kept s s' \<and> ledger_extends s s'"

lemma payout_posting_ok:
  "Reserve i at s = Inr s' \<Longrightarrow> ledger_ok s \<Longrightarrow> ledger_ok s'"
  "Release i at s = Inr s' \<Longrightarrow> ledger_ok s \<Longrightarrow> ledger_ok s'"
  "Settle i at s = Inr s' \<Longrightarrow> ledger_ok s \<Longrightarrow> ledger_ok s'"
  by (simp_all only: post_ops postFrom_ledger_ok accounts_ok)

lemma payout_posting_from:
  "Reserve i at s = Inr s' \<Longrightarrow> status_of i s \<in> {Some PaymentStatusCreated, Some PaymentStatusProcessing}"
  "Release i at s = Inr s' \<Longrightarrow> status_of i s = Some PaymentStatusProcessing"
  "Settle i at s = Inr s' \<Longrightarrow> status_of i s \<in> {Some PaymentStatusProcessing, Some PaymentStatusSucceeded}"
  unfolding post_ops by (auto dest: postFrom_from)

lemma payout_posting_status:
  "Reserve i at s = Inr s' \<Longrightarrow>
     status_of k s' = (if k = i then Some PaymentStatusProcessing else status_of k s)"
  "Release i at s = Inr s' \<Longrightarrow> status_of k s' = status_of k s"
  "Settle i at s = Inr s' \<Longrightarrow>
     status_of k s' = (if k = i then Some PaymentStatusSucceeded else status_of k s)"
  unfolding post_ops by (drule postFrom_status [where k = k], simp)+

lemma payout_posting_frame:
  "Reserve i at s = Inr s' \<Longrightarrow> tables_kept s s' \<and> ledger_extends s s'"
  "Release i at s = Inr s' \<Longrightarrow> tables_kept s s' \<and> ledger_extends s s'"
  "Settle i at s = Inr s' \<Longrightarrow> tables_kept s s' \<and> ledger_extends s s'"
  unfolding post_ops by (simp_all only: postFrom_frame postFrom_extends simp_thms)

lemma PostgresService_sel [simp]:
  "ls_Reserve PostgresService = Reserve" "ls_Release PostgresService = Release"
  "ls_Settle PostgresService = Settle" "ls_RecordPayin PostgresService = RecordPayin"
  "ls_RecordReturn PostgresService = RecordReturn"
  by (simp_all add: PostgresService_def)

interpretation pg: ledger_service PostgresService
  by unfold_locales (simp_all only: PostgresService_sel,
    (erule payout_posting_ok payout_posting_from payout_posting_status payout_posting_frame
       RecordPayin_ledger_ok RecordReturn_ledger_ok RecordPayin_status
       RecordReturn_frame(1) [THEN status_of_frame] | assumption |
     rule conjI, erule payout_posting_from, erule payout_posting_status |
     rule conjI, erule RecordPayin_frame, erule RecordPayin_extends)+)

subsection \<open>Repeating and undoing a posting\<close>

lemma has_event_history [simp]: "has_event k ty (s\<lparr>audits := a, timeline := t\<rparr>) = has_event k ty s"
  by (simp add: has_event_def)

lemma has_event_posted [simp]:
  "has_event k ty' (posted j i ty d c amt cur at s) \<longleftrightarrow> has_event k ty' s \<or> k = i \<and> ty' = ty"
  by (auto simp: has_event_def posted_def)

lemma postFrom_event:
  assumes "postFrom i from to ty sfx d c msg note at upd s = Inr s'"
    and "\<not> (upd \<and> status_of i s = Some to)"
  shows "has_event k ty' s' \<longleftrightarrow> has_event k ty' s \<or> k = i \<and> ty' = ty"
  using assms(1) by (cases rule: postFrom_cases) (use assms(2) in \<open>auto simp: status_of_def\<close>)

lemma postFrom_payment:
  assumes "postFrom i from to ty sfx d c msg note at upd s = Inr s'" and "find_payment i s = Some p"
  shows "\<exists>p'. find_payment i s' = Some p' \<and> pay_amount p' = pay_amount p \<and> pay_currency p' = pay_currency p \<and>
    pay_status p' = (if upd then to else pay_status p)"
proof -
  have ws: "find_payment i (with_status upd i to at s) =
      Some (if upd then p\<lparr>pay_status := to, pay_updated_at := at\<rparr> else p)"
    using assms(2) by (simp add: with_status_def)
  from assms(1) show ?thesis
  proof (cases rule: postFrom_cases)
    case (new q a t)
    have "find_payment i s' = find_payment i (with_status upd i to at s)"
      by (rule find_payment_frame) (simp add: new(6))
    with ws show ?thesis by simp
  qed (use assms(2) ws in auto)
qed

lemma postFrom_again:
  assumes "postFrom i from to ty sfx d c msg note at upd s = Inr s'"
    and "upd \<or> to \<in> set from"
  shows "postFrom i from to ty sfx d c msg note at' upd s' = Inr s'"
proof -
  from assms(1) obtain p where p: "find_payment i s = Some p"
    by (auto simp: postFrom_def split: option.splits)
  from postFrom_payment [OF assms(1) p] obtain p' where p': "find_payment i s' = Some p'"
    "pay_status p' = (if upd then to else pay_status p)" by blast
  show ?thesis
  proof (cases upd)
    case True
    with p' show ?thesis by (simp add: postFrom_def)
  next
    case False
    with postFrom_event [OF assms(1)] have "has_event i ty s'" by simp
    moreover from False assms(1) p have "pay_status p \<in> set from"
      by (auto simp: postFrom_def split: if_splits)
    ultimately show ?thesis
      using p' False by (simp add: postFrom_def Let_def insert_journal_once_def has_event_def del: append.simps)
  qed
qed

lemma RecordReturn_again:
  assumes "RecordReturn r s = Inr s'"
  shows "RecordReturn r s' = Inr s'"
proof -
  have ids: "rq_ID r \<noteq> [] \<and> rq_PaymentID r \<noteq> [] \<and> rq_Provider r \<noteq> [] \<and> rq_ProviderEventID r \<noteq> [] \<and>
      rq_Reason r \<noteq> []"
    using assms by (auto simp: RecordReturn_def split: if_splits)
  from assms show ?thesis
  proof (cases rule: RecordReturn_cases)
    case (new p a t)
    have "find_payment (rq_PaymentID r) s' = Some p"
      using find_payment_frame [of s' s "rq_PaymentID r"] new(1,7) by simp
    moreover have "settled (rq_PaymentID r) s'"
      using new(3) by (simp add: settled_def new(7) posted_def)
    moreover have "has_event (rq_PaymentID r) ''payment.return.succeeded'' s'"
      by (simp add: new(7) has_event_def posted_def)
    ultimately show ?thesis
      using new(2) ids by (simp add: RecordReturn_def Let_def insert_journal_once_def has_event_def del: append.simps)
  qed (use assms in simp)
qed

text \<open>A payout journal can be posted whenever the payment is in the right status and its journal is new.\<close>

lemma insert_lines_ok:
  assumes "store_ok (posted j i ty d c amt cur at s)"
  shows "insert_lines j d c amt cur (s\<lparr>journals := journals s @
      [\<lparr>jr_id = j, jr_payment = i, jr_event = ty, jr_status = LedgerPosted, jr_at = at\<rparr>]\<rparr>) =
    Inr (posted j i ty d c amt cur at s)"
proof -
  from assms have "entries_ok (entries s @ [debit_entry j d amt cur, credit_entry j c amt cur])"
    by (simp add: store_ok_def posted_def)
  then show ?thesis
    by (simp add: insert_lines_def insert_line_def insert_entry_def has_journal_def entries_ok_def
        posted_def debit_entry_def credit_entry_def)
qed

lemma postFrom_progress:
  assumes "ledger_ok s" and "find_payment i s = Some p" and "pay_status p \<in> set from"
    and "\<not> has_event i ty s" and "\<not> has_journal (''jrn_'' @ i @ ''_'' @ sfx) s" and "{d, c} \<subseteq> accounts"
    and "i \<noteq> ''''" and "sfx \<noteq> ''''"
  shows "\<exists>s'. postFrom i from to ty sfx d c msg note at upd s = Inr s'"
proof (cases "upd \<and> pay_status p = to")
  case True
  with assms(2) show ?thesis by (simp add: postFrom_def)
next
  case False
  define j where "j = ''jrn_'' @ i @ ''_'' @ sfx"
  let ?s1 = "with_status upd i to at s"
  have pay: "has_payment i s" by (rule find_payment_has [OF assms(2)])
  have amt: "0 < pay_amount p"
    using find_payment_id [OF assms(2)] assms(1)
    by (auto simp: ledger_ok_def store_ok_def payments_ok_def list_all_iff)
  have "ledger_ok (posted j i ty d c (pay_amount p) (pay_currency p) at ?s1)"
    using assms pay amt by (intro ledger_ok_posted ledger_ok_with_status) (simp_all add: j_def)
  then have lines: "insert_lines j d c (pay_amount p) (pay_currency p) (?s1\<lparr>journals := journals ?s1 @
      [\<lparr>jr_id = j, jr_payment = i, jr_event = ty, jr_status = LedgerPosted, jr_at = at\<rparr>]\<rparr>) =
    Inr (posted j i ty d c (pay_amount p) (pay_currency p) at ?s1)"
    by (intro insert_lines_ok) (simp add: ledger_ok_def)
  have journal: "insert_journal_once j i ty at ?s1 = Inr (?s1\<lparr>journals := journals ?s1 @
      [\<lparr>jr_id = j, jr_payment = i, jr_event = ty, jr_status = LedgerPosted, jr_at = at\<rparr>]\<rparr>, 1)"
    using assms(4,5) pay by (simp add: insert_journal_once_def has_event_def j_def)
  have hist: "\<exists>s'. History_Record a t (posted j i ty d c (pay_amount p) (pay_currency p) at ?s1) = Inr s'"
    if "au_payment a = i" "au_event a \<noteq> ''''" "tl_payment t = i" for a t
    using that pay assms(7) by (simp add: History_Record_Inr)
  show ?thesis
    using assms(2,3,8) False journal lines hist
    unfolding postFrom_def Let_def j_def [symmetric] with_status_def by simp
qed

subsection \<open>Properties\<close>

text \<open>A payout of 100 minor units that has just been created, for the witnesses.\<close>

definition sample_payment :: "string \<Rightarrow> PaymentStatus \<Rightarrow> payment_row" where
  "sample_payment i st = \<lparr>pay_id = i, pay_direction = PaymentDirectionPayout,
     pay_external_reference = ''order'', pay_currency = ''USD'', pay_amount = 100, pay_tenant = ''t1'',
     pay_status = st, pay_idempotency_key = ''k'' @ i, pay_created_at = 1, pay_updated_at = 1\<rparr>"

definition sample_db :: "PaymentStatus \<Rightarrow> db" where
  "sample_db st = empty_db\<lparr>payments := [sample_payment ''p1'' st]\<rparr>"

lemma sample_db_find [simp]:
  "find_payment ''p1'' (sample_db st) = Some (sample_payment ''p1'' st)"
  "pay_status (sample_payment i st) = st"
  by (simp_all add: find_payment_def sample_db_def sample_payment_def)

lemma sample_db_tables [simp]:
  "journals (sample_db st) = []" "entries (sample_db st) = []" "has_payment ''p1'' (sample_db st)"
  by (simp_all add: sample_db_def empty_db_def has_payment_def sample_payment_def)

lemma sample_db_ok: "ledger_ok (sample_db st)"
proof -
  have "payments_ok [sample_payment ''p1'' st]" by (simp add: payments_ok_def sample_payment_def)
  then have "store_ok (sample_db st)"
    unfolding sample_db_def by (intro store_ok_payments store_ok_empty) (auto simp: empty_db_def)
  moreover have "ledger_balanced (sample_db st)" by (simp add: ledger_balanced_def)
  ultimately show ?thesis by (simp add: ledger_ok_def)
qed

text \<open>
  Every successful operation of the PostgreSQL ledger service keeps the books: the store
  constraints hold, and every journal has debit and credit entries of equal total, in one currency.
\<close>

theorem ledger_operations_keep_books:
  assumes "ledger_ok s"
    and "Reserve i at s = Inr s' \<or> Release i at s = Inr s' \<or> Settle i at s = Inr s' \<or>
         RecordPayin i at s = Inr s' \<or> RecordReturn r s = Inr s'"
  shows "ledger_ok s'"
  using assms pg.reserve_ok pg.release_ok pg.settle_ok pg.payin_ok pg.return_ok
  by (auto simp del: PostgresService_sel simp: PostgresService_sel [symmetric])

lemma sample_reserve: "\<exists>s'. Reserve ''p1'' 5 (sample_db PaymentStatusCreated) = Inr s'"
  by (rule not_isl_Inr) code_simp

theorem ledger_operations_keep_books_witness:
  "\<exists>s'. Reserve ''p1'' 5 (sample_db PaymentStatusCreated) = Inr s' \<and> ledger_ok s'"
  using sample_reserve ledger_operations_keep_books [OF sample_db_ok] by blast

text \<open>
  C6: a posting of a payout refines one transfer of the payment's amount between the two
  accounts: reserving debits cash and credits the settlement account, settling and releasing do the
  opposite; a repeated posting moves nothing.
\<close>

theorem ledger_posting_refines_transfer:
  assumes "find_payment i s = Some p"
  shows "(Reserve i at s = Inr s' \<longrightarrow> (\<lambda>a b. balance a b s') =
      (if has_event i ''payment.processing'' s \<or> pay_status p = PaymentStatusProcessing then (\<lambda>a b. balance a b s)
       else transfer CashOperatingAccount SettlementAccount (pay_currency p) (pay_amount p) (\<lambda>a b. balance a b s))) \<and>
    (Settle i at s = Inr s' \<longrightarrow> (\<lambda>a b. balance a b s') =
      (if has_event i ''payment.succeeded'' s \<or> pay_status p = PaymentStatusSucceeded then (\<lambda>a b. balance a b s)
       else transfer SettlementAccount CashOperatingAccount (pay_currency p) (pay_amount p) (\<lambda>a b. balance a b s))) \<and>
    (Release i at s = Inr s' \<longrightarrow> (\<lambda>a b. balance a b s') =
      (if has_event i ''payment.released'' s then (\<lambda>a b. balance a b s)
       else transfer SettlementAccount CashOperatingAccount (pay_currency p) (pay_amount p) (\<lambda>a b. balance a b s)))"
  unfolding post_ops using postFrom_balance [OF _ assms] by simp

theorem ledger_posting_refines_transfer_witness:
  "\<exists>s'. Reserve ''p1'' 5 (sample_db PaymentStatusCreated) = Inr s' \<and>
     balance CashOperatingAccount ''USD'' s' = 100 \<and> balance SettlementAccount ''USD'' s' = - 100"
proof -
  from sample_reserve obtain s' where s': "Reserve ''p1'' 5 (sample_db PaymentStatusCreated) = Inr s'" ..
  with ledger_posting_refines_transfer [of "''p1''" "sample_db PaymentStatusCreated" _ 5 s']
  have "(\<lambda>a b. balance a b s') = transfer CashOperatingAccount SettlementAccount ''USD'' 100
      (\<lambda>a b. balance a b (sample_db PaymentStatusCreated))"
    by (simp add: has_event_def sample_payment_def)
  then have "balance x y s' = transfer CashOperatingAccount SettlementAccount ''USD'' 100
      (\<lambda>a b. balance a b (sample_db PaymentStatusCreated)) x y" for x y by metis
  with s' show ?thesis
    by (simp add: transfer_def balance_def CashOperatingAccount_def SettlementAccount_def)
qed

text \<open>
  A reserved payout that is then settled, or released, leaves every account balance as it was
  before the reservation; settling also completes the payment, releasing leaves it in processing.
\<close>

theorem reserve_then_close_restores_balances:
  assumes "status_of i s = Some PaymentStatusCreated"
    and "\<not> has_event i ''payment.processing'' s" and "\<not> has_event i ''payment.succeeded'' s"
    and "\<not> has_event i ''payment.released'' s"
    and "Reserve i t1 s = Inr s1"
    and "(if settle then Settle i t2 s1 else Release i t2 s1) = Inr s2"
  shows "balance a c s2 = balance a c s \<and>
    status_of i s2 = Some (if settle then PaymentStatusSucceeded else PaymentStatusProcessing)"
proof -
  from assms(1) obtain p where p: "find_payment i s = Some p" "pay_status p = PaymentStatusCreated"
    by (auto simp: status_of_def)
  from postFrom_payment [OF assms(5) [unfolded post_ops] p(1)] obtain p' where
    p': "find_payment i s1 = Some p'" "pay_amount p' = pay_amount p" "pay_currency p' = pay_currency p"
      "pay_status p' = PaymentStatusProcessing" by auto
  have ev: "\<not> has_event i ''payment.succeeded'' s1" "\<not> has_event i ''payment.released'' s1"
    using postFrom_event [OF assms(5) [unfolded post_ops], of i] assms(1,3,4) by auto
  have b1: "(\<lambda>a b. balance a b s1) = transfer CashOperatingAccount SettlementAccount (pay_currency p)
      (pay_amount p) (\<lambda>a b. balance a b s)"
    using postFrom_balance [OF assms(5) [unfolded post_ops] p(1)] assms(2) p(2) by simp
  have b2: "(\<lambda>a b. balance a b s2) = transfer SettlementAccount CashOperatingAccount (pay_currency p)
      (pay_amount p) (\<lambda>a b. balance a b s1)"
    using assms(6) postFrom_balance [OF _ p'(1)] p' ev unfolding post_ops by (auto split: if_splits)
  have "balance a c s2 = balance a c s"
    using fun_cong [OF fun_cong [OF b2, of a], of c] fun_cong [OF fun_cong [OF b1, of a], of c]
    by (simp add: transfer_def)
  moreover have "status_of i s1 = Some PaymentStatusProcessing" by (simp add: status_of_def p')
  ultimately show ?thesis
    using assms(6) payout_posting_status [of i t2 s1 s2 i] by (auto split: if_splits)
qed

definition sample_closed :: "bool \<Rightarrow> db result" where
  "sample_closed settle = bindE (Reserve ''p1'' 5 (sample_db PaymentStatusCreated))
     (\<lambda>s1. if settle then Settle ''p1'' 6 s1 else Release ''p1'' 6 s1)"

theorem reserve_then_close_restores_balances_witness:
  "\<exists>s2. sample_closed True = Inr s2 \<and> balance CashOperatingAccount ''USD'' s2 = 0 \<and>
     status_of ''p1'' s2 = Some PaymentStatusSucceeded"
proof -
  have "\<exists>s2. sample_closed True = Inr s2" by (rule not_isl_Inr) code_simp
  then obtain s2 where s2: "sample_closed True = Inr s2" ..
  then obtain s1 where s1: "Reserve ''p1'' 5 (sample_db PaymentStatusCreated) = Inr s1"
    and close: "(if True then Settle ''p1'' 6 s1 else Release ''p1'' 6 s1) = Inr s2"
    by (auto simp: sample_closed_def bindE_Inr_iff)
  have "balance CashOperatingAccount ''USD'' s2 = balance CashOperatingAccount ''USD'' (sample_db PaymentStatusCreated) \<and>
      status_of ''p1'' s2 = Some (if True then PaymentStatusSucceeded else PaymentStatusProcessing)"
    by (rule reserve_then_close_restores_balances [OF _ _ _ _ s1 close])
      (simp_all add: status_of_def has_event_def)
  with s2 show ?thesis by (simp add: balance_def)
qed



text \<open>
  A created payment whose reservation has not been posted can always be reserved, and ends in
  processing.
\<close>

theorem reserve_progress:
  assumes "ledger_ok s" and "status_of i s = Some PaymentStatusCreated" and "i \<noteq> ''''"
    and "\<not> has_event i ''payment.processing'' s" and "\<not> has_journal (''jrn_'' @ i @ ''_processing'') s"
  shows "\<exists>s'. Reserve i at s = Inr s' \<and> status_of i s' = Some PaymentStatusProcessing \<and>
    has_event i ''payment.processing'' s'"
proof -
  from assms(2) obtain p where p: "find_payment i s = Some p" "pay_status p = PaymentStatusCreated"
    by (auto simp: status_of_def)
  have "\<exists>s'. Reserve i at s = Inr s'"
    unfolding post_ops using p assms(3,4,5)
    by (intro postFrom_progress [OF assms(1) p(1)]) (simp_all add: accounts_def)
  then obtain s' where s': "Reserve i at s = Inr s'" ..
  with payout_posting_status(1) [OF s', of i] postFrom_event [OF s' [unfolded post_ops], of i] assms(2)
  show ?thesis by simp
qed

theorem reserve_progress_witness:
  "\<exists>s'. Reserve ''p1'' 5 (sample_db PaymentStatusCreated) = Inr s' \<and>
     status_of ''p1'' s' = Some PaymentStatusProcessing \<and> has_event ''p1'' ''payment.processing'' s'"
  by (rule reserve_progress [OF sample_db_ok]) (simp_all add: status_of_def has_event_def has_journal_def)

end
