(* ===== verification/Reconciliation.thy ===== *)
theory Reconciliation
  imports Ledger
begin

text \<open>
  Package \<^verbatim>\<open>reconciliation\<close> (\<^verbatim>\<open>reconciler.go\<close>): the comparison of payments with the ledger and with the
  provider records, the table of discrepancies it maintains, and the operator's resolution. A run is one
  transaction.

  The lemmas show that after a run the open discrepancies are exactly the findings, that the payouts and
  pay-ins marked as exceptions are exactly the ones with a finding, and that a database with balanced
  books has no finding about the ledger.
\<close>

subsection \<open>Findings\<close>

record Finding =
  fd_Fingerprint :: string
  fd_Kind :: string
  fd_PaymentID :: string
  fd_Details :: json

definition entries_of :: "string \<Rightarrow> db \<Rightarrow> entry_row list" where
  "entries_of j s = filter (\<lambda>e. en_journal e = j) (entries s)"

definition ledger_finding :: "db \<Rightarrow> journal_row \<Rightarrow> Finding" where
  "ledger_finding s j = \<lparr>fd_Fingerprint = ''ledger:'' @ jr_id j, fd_Kind = ''ledger_imbalance'', fd_PaymentID = jr_payment j,
     fd_Details = JObj [(''credit_minor'', JNum (side_total EntryCredit (jr_id j) s)),
       (''debit_minor'', JNum (side_total EntryDebit (jr_id j) s)), (''journal_id'', JStr (jr_id j))]\<rparr>"

definition ledger_findings :: "db \<Rightarrow> Finding list" where
  "ledger_findings s = map (ledger_finding s) (filter (\<lambda>j. entries_of (jr_id j) s = [] \<or>
     side_total EntryDebit (jr_id j) s \<noteq> side_total EntryCredit (jr_id j) s) (journals s))"

definition status_json :: "payment_row \<Rightarrow> string \<Rightarrow> string option \<Rightarrow> json" where
  "status_json p provider reference = JObj [(''payment_status'', JStr (payment_status_text (pay_status p))),
     (''provider_reference'', JStr (coalesce reference)), (''settlement_status'', JStr provider)]"

text \<open>The lateral subquery: the newest submission of a payment at a provider other than BlindPay.\<close>

definition latest_submission :: "string \<Rightarrow> db \<Rightarrow> submission_row option" where
  "latest_submission i s =
     (case rev (sort_key sub_created_at (filter (\<lambda>r. sub_payment r = i \<and> sub_provider r \<noteq> ''blindpay'') (submissions s))) of
        [] \<Rightarrow> None | r # _ \<Rightarrow> Some r)"

definition settlement_finding :: "db \<Rightarrow> payment_row \<Rightarrow> Finding option" where
  "settlement_finding s p =
     (case latest_submission (pay_id p) s of
        None \<Rightarrow> None
      | Some r \<Rightarrow>
          if (pay_status p = PaymentStatusSucceeded \<and> sub_status r \<noteq> ''succeeded'') \<or>
             (sub_status r = ''succeeded'' \<and> pay_status p \<noteq> PaymentStatusSucceeded)
          then Some \<lparr>fd_Fingerprint = ''settlement:'' @ pay_id p, fd_Kind = ''settlement_status_mismatch'',
                 fd_PaymentID = pay_id p, fd_Details = status_json p (sub_status r) (sub_reference r)\<rparr>
          else None)"

definition has_return :: "string \<Rightarrow> db \<Rightarrow> bool" where
  "has_return i s \<longleftrightarrow> list_ex (\<lambda>r. rt_payment r = i) (returns s)"

definition payout_finding :: "db \<Rightarrow> payment_row \<Rightarrow> payout_row \<Rightarrow> Finding option" where
  "payout_finding s p b =
     (if po_payment b = pay_id p \<and>
         ((po_status b = ''completed'' \<and> pay_status p \<noteq> PaymentStatusSucceeded) \<or>
          (po_status b = ''refunded'' \<and> \<not> has_return (pay_id p) s) \<or>
          (po_status b = ''failed'' \<and> pay_status p \<noteq> PaymentStatusFailed))
      then Some \<lparr>fd_Fingerprint = ''blindpay:'' @ pay_id p, fd_Kind = ''blindpay_status_mismatch'', fd_PaymentID = pay_id p,
             fd_Details = status_json p (po_status b) (po_provider_payout b)\<rparr>
      else None)"

definition find_discrepancies :: "db \<Rightarrow> Finding list" where
  "find_discrepancies s = ledger_findings s @ List.map_filter (settlement_finding s) (payments s) @
     concat (map (\<lambda>p. List.map_filter (payout_finding s p) (payouts s)) (payments s))"

subsection \<open>A run\<close>

definition same_fingerprint :: "string \<Rightarrow> discrepancy_row \<Rightarrow> bool" where
  "same_fingerprint f d \<longleftrightarrow> di_fingerprint d = f"

definition detected_again :: "Finding \<Rightarrow> time \<Rightarrow> nat \<Rightarrow> discrepancy_row \<Rightarrow> discrepancy_row" where
  "detected_again f now run d = d\<lparr>di_kind := fd_Kind f, di_payment := nullif (fd_PaymentID f), di_details := Raw (fd_Details f),
     di_status := DiscrepancyOpen, di_last_detected := now, di_last_run := run, di_resolved_at := None,
     di_resolved_by := None, di_note := None\<rparr>"

definition new_discrepancy :: "Finding \<Rightarrow> time \<Rightarrow> nat \<Rightarrow> nat \<Rightarrow> discrepancy_row" where
  "new_discrepancy f now run i = \<lparr>di_id = i, di_fingerprint = fd_Fingerprint f, di_kind = fd_Kind f,
     di_payment = nullif (fd_PaymentID f), di_details = Raw (fd_Details f), di_status = DiscrepancyOpen,
     di_first_detected = now, di_last_detected = now, di_last_run = run, di_resolved_at = None, di_resolved_by = None,
     di_note = None\<rparr>"

definition upsert_discrepancy :: "Finding \<Rightarrow> time \<Rightarrow> nat \<Rightarrow> discrepancy_row list \<Rightarrow> discrepancy_row list" where
  "upsert_discrepancy f now run t =
     (if list_ex (same_fingerprint (fd_Fingerprint f)) t
      then update_where (same_fingerprint (fd_Fingerprint f)) (detected_again f now run) t
      else t @ [new_discrepancy f now run (Suc (length t))])"

definition set_payin_recon :: "(string \<Rightarrow> bool) \<Rightarrow> ReconciliationStatus \<Rightarrow> db \<Rightarrow> db" where
  "set_payin_recon P st s = s\<lparr>payins := update_where (\<lambda>r. P (pi_payment r)) (\<lambda>r. r\<lparr>pi_reconciliation := st\<rparr>) (payins s)\<rparr>"

definition set_payout_recon :: "(string \<Rightarrow> bool) \<Rightarrow> ReconciliationStatus \<Rightarrow> db \<Rightarrow> db" where
  "set_payout_recon P st s = s\<lparr>payouts := update_where (\<lambda>r. P (po_payment r)) (\<lambda>r. r\<lparr>po_reconciliation := st\<rparr>) (payouts s)\<rparr>"

definition record_finding :: "time \<Rightarrow> nat \<Rightarrow> Finding \<Rightarrow> db \<Rightarrow> db result" where
  "record_finding now run f s =
     (if fd_PaymentID f \<noteq> '''' \<and> \<not> has_payment (fd_PaymentID f) s
      then Inl (ErrConstraint ''reconciliation_discrepancies'')
      else let s1 = s\<lparr>discrepancies := upsert_discrepancy f now run (discrepancies s)\<rparr>
           in if fd_PaymentID f = '''' then Inr s1
              else Inr (set_payout_recon (\<lambda>i. i = fd_PaymentID f) ReconException
                         (set_payin_recon (\<lambda>i. i = fd_PaymentID f) ReconException s1)))"

definition resolve_missing :: "time \<Rightarrow> nat \<Rightarrow> discrepancy_row list \<Rightarrow> discrepancy_row list" where
  "resolve_missing now run t = update_where (\<lambda>d. di_status d = DiscrepancyOpen \<and> di_last_run d \<noteq> run)
     (\<lambda>d. d\<lparr>di_status := DiscrepancyResolved, di_resolved_at := Some now, di_resolved_by := Some ''system'',
            di_note := Some ''no longer detected''\<rparr>) t"

text \<open>The run's identity value is one more than the number of runs so far.\<close>

definition Reconciler_RunOnce :: "env \<Rightarrow> db \<Rightarrow> (nat \<times> db) result" where
  "Reconciler_RunOnce e s =
     (let now = env_now e;
          run = Suc (length (runs s));
          s1 = s\<lparr>runs := runs s @ [\<lparr>rr_id = run, rr_started = now, rr_completed = None, rr_count = 0, rr_error = None\<rparr>]\<rparr>;
          findings = find_discrepancies s1
      in bindE (foldE (record_finding now run) findings
                 (set_payout_recon (\<lambda>_. True) Matched (set_payin_recon (\<lambda>_. True) Matched s1))) (\<lambda>s2.
           Inr (length findings, s2\<lparr>discrepancies := resolve_missing now run (discrepancies s2),
                  runs := update_where (\<lambda>r. rr_id r = run)
                    (\<lambda>r. r\<lparr>rr_completed := Some now, rr_count := length findings\<rparr>) (runs s2)\<rparr>)))"

definition Reconciler_Resolve :: "env \<Rightarrow> int \<Rightarrow> string \<Rightarrow> string \<Rightarrow> db \<Rightarrow> db result" where
  "Reconciler_Resolve e i operator note s =
     (if i \<le> 0 \<or> operator = '''' \<or> note = ''''
      then Inl (ErrText ''discrepancy ID, operator, and resolution note are required'')
      else let P = (\<lambda>d. int (di_id d) = i \<and> di_status d = DiscrepancyOpen)
           in if affected P (discrepancies s) \<noteq> 1 then Inl ErrDiscrepancyNotOpen
              else Inr (s\<lparr>discrepancies := update_where P
                (\<lambda>d. d\<lparr>di_status := DiscrepancyResolved, di_resolved_at := Some (env_now e), di_resolved_by := Some operator,
                        di_note := Some note\<rparr>) (discrepancies s)\<rparr>))"

text \<open>\<open>New\<close> checks the interval and fills in the default.\<close>

definition Reconciler_New :: "duration \<Rightarrow> duration result" where
  "Reconciler_New interval =
     (if interval < 0 then Inl (ErrText ''reconciliation interval cannot be negative'') else Inr (or_default interval Minute))"

text \<open>The loop of \<open>Run\<close> over the rounds before cancellation; it ends with the first error.\<close>

fun Reconciler_Run :: "env list \<Rightarrow> db \<Rightarrow> db \<times> err option" where
  "Reconciler_Run [] s = (s, None)"
| "Reconciler_Run (e # es) s =
     (case Reconciler_RunOnce e s of Inl err \<Rightarrow> (s, Some err) | Inr (n, s1) \<Rightarrow> Reconciler_Run es s1)"


subsection \<open>The discrepancy table\<close>

text \<open>Fingerprints are unique, and every row was last seen by a run that has started.\<close>

definition recon_ok :: "db \<Rightarrow> bool" where
  "recon_ok s \<longleftrightarrow> distinct (map di_fingerprint (discrepancies s)) \<and>
     list_all (\<lambda>d. di_last_run d \<le> length (runs s)) (discrepancies s)"

text \<open>After the findings with fingerprints \<open>F\<close> have been recorded by a run.\<close>

definition seen :: "string set \<Rightarrow> nat \<Rightarrow> discrepancy_row list \<Rightarrow> bool" where
  "seen F run t \<longleftrightarrow> distinct (map di_fingerprint t) \<and> F \<subseteq> di_fingerprint ` set t \<and>
     (\<forall>d\<in>set t. di_last_run d \<le> run \<and> (di_last_run d = run \<longleftrightarrow> di_fingerprint d \<in> F) \<and>
        (di_last_run d = run \<longrightarrow> di_status d = DiscrepancyOpen))"

lemma detected_again_simps [simp]:
  "di_fingerprint (detected_again f now run d) = di_fingerprint d"
  "di_last_run (detected_again f now run d) = run"
  "di_status (detected_again f now run d) = DiscrepancyOpen"
  by (simp_all add: detected_again_def)

lemma upsert_seen:
  assumes "seen F run t"
  shows "seen (insert (fd_Fingerprint f) F) run (upsert_discrepancy f now run t)"
proof (cases "list_ex (same_fingerprint (fd_Fingerprint f)) t")
  case True
  let ?t' = "update_where (same_fingerprint (fd_Fingerprint f)) (detected_again f now run) t" and ?F = "insert (fd_Fingerprint f) F"
  from True have "fd_Fingerprint f \<in> di_fingerprint ` set t" unfolding list_ex_iff same_fingerprint_def by (metis image_eqI)
  moreover have maps: "map di_fingerprint ?t' = map di_fingerprint t" by (rule map_update_where) simp
  moreover from maps have "di_fingerprint ` set ?t' = di_fingerprint ` set t" by (metis list.set_map)
  moreover have "di_last_run d' \<le> run \<and> (di_last_run d' = run \<longleftrightarrow> di_fingerprint d' \<in> ?F) \<and>
      (di_last_run d' = run \<longrightarrow> di_status d' = DiscrepancyOpen)" if "d' \<in> set ?t'" for d'
  proof -
    from that obtain d where d: "d \<in> set t" "d' = (if same_fingerprint (fd_Fingerprint f) d then detected_again f now run d else d)"
      by (auto simp: set_update_where)
    show ?thesis
    proof (cases "same_fingerprint (fd_Fingerprint f) d")
      case True
      then show ?thesis by (simp add: d(2) same_fingerprint_def)
    next
      case False
      then have "d' = d" "di_fingerprint d \<noteq> fd_Fingerprint f" by (simp_all add: d(2) same_fingerprint_def)
      with assms d(1) show ?thesis by (simp add: seen_def)
    qed
  qed
  ultimately show ?thesis
    using assms True by (simp only: seen_def upsert_discrepancy_def if_True simp_thms insert_subset) blast
next
  case False
  then have new: "fd_Fingerprint f \<notin> di_fingerprint ` set t" by (auto simp: list_ex_iff same_fingerprint_def)
  then have "di_fingerprint d \<noteq> fd_Fingerprint f" if "d \<in> set t" for d using that by (metis image_eqI)
  with False new assms show ?thesis by (auto simp: seen_def upsert_discrepancy_def new_discrepancy_def)
qed

lemma fold_upsert_seen:
  "seen F run t \<Longrightarrow>
   seen (F \<union> fd_Fingerprint ` set fs) run (fold (\<lambda>f. upsert_discrepancy f now run) fs t)"
proof (induction fs arbitrary: F t)
  case (Cons f fs)
  from Cons.IH [OF upsert_seen [OF Cons.prems]] show ?case by simp
qed simp

lemma seen_start: "recon_ok s \<Longrightarrow> seen {} (Suc (length (runs s))) (discrepancies s)"
  by (fastforce simp: recon_ok_def seen_def list_all_iff)

lemma resolve_missing_open:
  assumes "seen F run t"
  shows "di_fingerprint ` {d \<in> set (resolve_missing now run t). di_status d = DiscrepancyOpen} = F"
    and "distinct (map di_fingerprint (resolve_missing now run t))"
    and "list_all (\<lambda>d. di_last_run d \<le> run) (resolve_missing now run t)"
proof -
  have "{d \<in> set (resolve_missing now run t). di_status d = DiscrepancyOpen} = {d \<in> set t. di_last_run d = run}"
    using assms by (auto simp: resolve_missing_def set_update_where seen_def image_iff split: if_splits)
  then show "di_fingerprint ` {d \<in> set (resolve_missing now run t). di_status d = DiscrepancyOpen} = F"
    using assms by (auto simp: seen_def)
  have "map di_fingerprint (resolve_missing now run t) = map di_fingerprint t"
    unfolding resolve_missing_def by (rule map_update_where) simp
  then show "distinct (map di_fingerprint (resolve_missing now run t))" using assms by (simp add: seen_def)
  show "list_all (\<lambda>d. di_last_run d \<le> run) (resolve_missing now run t)"
    using assms by (auto simp: resolve_missing_def set_update_where seen_def list_all_iff)
qed

subsection \<open>Recording the findings\<close>

definition finding_ids :: "Finding list \<Rightarrow> string set" where
  "finding_ids fs = fd_PaymentID ` set fs - {''''}"

definition payout_excepted :: "string set \<Rightarrow> payout_row \<Rightarrow> payout_row" where
  "payout_excepted ids r = (if po_payment r \<in> ids then r\<lparr>po_reconciliation := ReconException\<rparr> else r)"

definition payin_excepted :: "string set \<Rightarrow> payin_row \<Rightarrow> payin_row" where
  "payin_excepted ids r = (if pi_payment r \<in> ids then r\<lparr>pi_reconciliation := ReconException\<rparr> else r)"

lemma excepted_step:
  "payout_excepted A (payout_excepted B r) = payout_excepted (A \<union> B) r"
  "payin_excepted A (payin_excepted B q) = payin_excepted (A \<union> B) q"
  by (auto simp: payout_excepted_def payin_excepted_def)

lemma excepted_empty [simp]: "payout_excepted {} = id" "payin_excepted {} = id"
  by (auto simp: payout_excepted_def payin_excepted_def)

text \<open>Everything but the discrepancies and the reconciliation columns stays.\<close>

definition recon_frame :: "db \<Rightarrow> db \<Rightarrow> bool" where
  "recon_frame s s' \<longleftrightarrow> payments s' = payments s \<and> journals s' = journals s \<and> entries s' = entries s \<and>
     submissions s' = submissions s \<and> returns s' = returns s \<and> runs s' = runs s"

lemma record_finding_Inr:
  assumes "fd_PaymentID f \<noteq> '''' \<Longrightarrow> has_payment (fd_PaymentID f) s"
  shows "\<exists>s'. record_finding now run f s = Inr s' \<and> recon_frame s s' \<and>
    discrepancies s' = upsert_discrepancy f now run (discrepancies s) \<and>
    payouts s' = map (payout_excepted (finding_ids [f])) (payouts s) \<and>
    payins s' = map (payin_excepted (finding_ids [f])) (payins s)"
  using assms
  by (auto simp: record_finding_def Let_def recon_frame_def finding_ids_def set_payout_recon_def set_payin_recon_def
      update_where_def payout_excepted_def payin_excepted_def)

lemma record_findings:
  "(\<And>f. f \<in> set fs \<Longrightarrow> fd_PaymentID f \<noteq> '''' \<Longrightarrow> has_payment (fd_PaymentID f) s) \<Longrightarrow>
   \<exists>s'. foldE (record_finding now run) fs s = Inr s' \<and> recon_frame s s' \<and>
     discrepancies s' = fold (\<lambda>f. upsert_discrepancy f now run) fs (discrepancies s) \<and>
     payouts s' = map (payout_excepted (finding_ids fs)) (payouts s) \<and>
     payins s' = map (payin_excepted (finding_ids fs)) (payins s)"
proof (induction fs arbitrary: s)
  case Nil
  then show ?case by (simp add: recon_frame_def finding_ids_def)
next
  case (Cons f fs)
  from record_finding_Inr [of f s now run] Cons.prems obtain s1 where
    1: "record_finding now run f s = Inr s1" "recon_frame s s1" "discrepancies s1 = upsert_discrepancy f now run (discrepancies s)"
      "payouts s1 = map (payout_excepted (finding_ids [f])) (payouts s)"
      "payins s1 = map (payin_excepted (finding_ids [f])) (payins s)" by auto
  have "has_payment i s1 = has_payment i s" for i using 1(2) by (simp add: recon_frame_def has_payment_def)
  with Cons.IH [of s1] Cons.prems obtain s' where
    2: "foldE (record_finding now run) fs s1 = Inr s'" "recon_frame s1 s'"
      "discrepancies s' = fold (\<lambda>f. upsert_discrepancy f now run) fs (discrepancies s1)"
      "payouts s' = map (payout_excepted (finding_ids fs)) (payouts s1)"
      "payins s' = map (payin_excepted (finding_ids fs)) (payins s1)" by auto
  have "finding_ids fs \<union> finding_ids [f] = finding_ids (f # fs)" by (auto simp: finding_ids_def)
  with 1 2 show ?case by (auto simp: recon_frame_def excepted_step comp_def)
qed

lemma find_discrepancies_payment:
  assumes "store_ok s" and "f \<in> set (find_discrepancies s)"
  shows "has_payment (fd_PaymentID f) s"
proof -
  have "has_payment (pay_id p) s" if "p \<in> set (payments s)" for p using that by (simp add: has_payment_def)
  moreover have "has_payment (jr_payment j) s" if "j \<in> set (journals s)" for j
    using that assms(1) by (simp add: store_ok_def list_all_iff)
  ultimately show ?thesis
    using assms(2)
    by (auto simp: find_discrepancies_def ledger_findings_def ledger_finding_def List.map_filter_def settlement_finding_def
        payout_finding_def split: option.splits if_splits)
qed

lemma find_discrepancies_runs: "find_discrepancies (s\<lparr>runs := r\<rparr>) = find_discrepancies s"
proof -
  have "settlement_finding (s\<lparr>runs := r\<rparr>) = settlement_finding s"
    by (rule ext) (simp add: settlement_finding_def latest_submission_def)
  moreover have "payout_finding (s\<lparr>runs := r\<rparr>) = payout_finding s"
    by (intro ext) (simp add: payout_finding_def has_return_def)
  ultimately show ?thesis
    by (simp add: find_discrepancies_def ledger_findings_def ledger_finding_def entries_of_def side_total_def)
qed

lemma ledger_findings_balanced:
  assumes "ledger_balanced s"
  shows "ledger_findings s = []"
proof -
  have "entries_of (jr_id j) s \<noteq> [] \<and> side_total EntryDebit (jr_id j) s = side_total EntryCredit (jr_id j) s"
    if "j \<in> set (journals s)" for j
  proof -
    from that assms have "journal_balanced (jr_id j) s" by (simp add: ledger_balanced_def list_all_iff)
    then have total: "side_total EntryDebit (jr_id j) s = side_total EntryCredit (jr_id j) s" "0 < side_total EntryDebit (jr_id j) s"
      by (simp_all add: journal_balanced_def)
    have "filter (\<lambda>e. en_journal e = jr_id j \<and> en_side e = EntryDebit) (entries s) =
        filter (\<lambda>e. en_side e = EntryDebit) (entries_of (jr_id j) s)"
      by (simp add: entries_of_def conj_commute)
    with total(2) have "entries_of (jr_id j) s \<noteq> []" by (auto simp: side_total_def)
    with total(1) show ?thesis by simp
  qed
  then show ?thesis by (auto simp: ledger_findings_def filter_empty_conv)
qed

subsection \<open>Properties\<close>

text \<open>
  C15: a reconciliation run reports exactly what it finds. On every consistent database the run succeeds;
  afterwards the open discrepancies are those of the current findings and no others (earlier ones are
  closed, ones an operator had resolved are reopened when they persist), a payout or pay-in is marked as
  an exception exactly when a finding names its payment, and all others are marked as matched.
\<close>

theorem reconciliation_exact:
  assumes "store_ok s" and "recon_ok s"
  shows "\<exists>s'. Reconciler_RunOnce e s = Inr (length (find_discrepancies s), s') \<and> recon_ok s' \<and>
    di_fingerprint ` {d \<in> set (discrepancies s'). di_status d = DiscrepancyOpen} = fd_Fingerprint ` set (find_discrepancies s) \<and>
    (\<forall>r\<in>set (payouts s'). po_reconciliation r = (if po_payment r \<in> finding_ids (find_discrepancies s) then ReconException else Matched)) \<and>
    (\<forall>r\<in>set (payins s'). pi_reconciliation r = (if pi_payment r \<in> finding_ids (find_discrepancies s) then ReconException else Matched))"
proof -
  let ?run = "Suc (length (runs s))" and ?fs = "find_discrepancies s"
  let ?s1 = "s\<lparr>runs := runs s @ [\<lparr>rr_id = ?run, rr_started = env_now e, rr_completed = None, rr_count = 0, rr_error = None\<rparr>]\<rparr>"
  let ?m = "set_payout_recon (\<lambda>_. True) Matched (set_payin_recon (\<lambda>_. True) Matched ?s1)"
  have "has_payment i ?m = has_payment i s" for i by (simp add: has_payment_def set_payout_recon_def set_payin_recon_def)
  then obtain s2 where s2: "foldE (record_finding (env_now e) ?run) ?fs ?m = Inr s2" "recon_frame ?m s2"
    "discrepancies s2 = fold (\<lambda>f. upsert_discrepancy f (env_now e) ?run) ?fs (discrepancies ?m)"
    "payouts s2 = map (payout_excepted (finding_ids ?fs)) (payouts ?m)"
    "payins s2 = map (payin_excepted (finding_ids ?fs)) (payins ?m)"
    using record_findings [of ?fs ?m "env_now e" ?run] find_discrepancies_payment [OF assms(1)] by auto
  have "seen (fd_Fingerprint ` set ?fs) ?run (discrepancies s2)"
    using fold_upsert_seen [OF seen_start [OF assms(2)], of ?fs "env_now e"]
    by (simp add: s2(3) set_payout_recon_def set_payin_recon_def)
  note final = resolve_missing_open [OF this, of "env_now e"]
  let ?s' = "s2\<lparr>discrepancies := resolve_missing (env_now e) ?run (discrepancies s2),
      runs := update_where (\<lambda>r. rr_id r = ?run) (\<lambda>r. r\<lparr>rr_completed := Some (env_now e), rr_count := length ?fs\<rparr>) (runs s2)\<rparr>"
  have "Reconciler_RunOnce e s = Inr (length ?fs, ?s')"
    using s2(1) unfolding Reconciler_RunOnce_def Let_def find_discrepancies_runs by simp
  moreover have "runs s2 = runs ?m" using s2(2) by (simp add: recon_frame_def)
  then have "length (runs s2) = ?run" by (simp add: set_payout_recon_def set_payin_recon_def)
  with final(2,3) have "recon_ok ?s'" by (simp add: recon_ok_def)
  ultimately show ?thesis
    using final(1) by (auto simp: s2(4,5) payout_excepted_def payin_excepted_def set_payout_recon_def set_payin_recon_def
        set_update_where)
qed

definition sample_recon_db :: db where
  "sample_recon_db = (sample_db PaymentStatusProcessing)\<lparr>submissions := [\<lparr>sub_payment = ''p1'', sub_command = ''c1'',
     sub_provider = ''mock'', sub_reference = Some ''r1'', sub_status = ''succeeded'', sub_failure_code = None,
     sub_failure_message = None, sub_created_at = 1, sub_updated_at = 1\<rparr>]\<rparr>"

theorem reconciliation_exact_witness:
  "\<exists>s'. Reconciler_RunOnce \<lparr>env_now = 9, env_rand = (\<lambda>_. None)\<rparr> sample_recon_db = Inr (1, s') \<and>
     di_fingerprint ` {d \<in> set (discrepancies s'). di_status d = DiscrepancyOpen} = {''settlement:p1''}"
proof -
  have "store_ok sample_recon_db" "recon_ok sample_recon_db" by code_simp+
  moreover have fps: "map fd_Fingerprint (find_discrepancies sample_recon_db) = [''settlement:p1'']" by code_simp
  moreover have "fd_Fingerprint ` set (find_discrepancies sample_recon_db) = {''settlement:p1''}"
    using arg_cong [OF fps, of set] by simp
  moreover have "length (find_discrepancies sample_recon_db) = 1" using arg_cong [OF fps, of length] by simp
  ultimately show ?thesis using reconciliation_exact [of sample_recon_db "\<lparr>env_now = 9, env_rand = (\<lambda>_. None)\<rparr>"] by auto
qed

text \<open>
  Reconciliation has nothing to say about balanced books: while the ledger invariant holds, which every
  ledger operation and every command keeps, no run reports a ledger imbalance.
\<close>

theorem balanced_books_no_finding:
  assumes "ledger_ok s" and "f \<in> set (find_discrepancies s)"
  shows "fd_Kind f \<noteq> ''ledger_imbalance''"
proof -
  have "ledger_findings s = []" using assms(1) by (intro ledger_findings_balanced) (simp add: ledger_ok_def)
  with assms(2) show ?thesis
    by (auto simp: find_discrepancies_def List.map_filter_def settlement_finding_def payout_finding_def
        split: option.splits if_splits)
qed

theorem balanced_books_no_finding_witness:
  "\<exists>s f. Reserve ''p1'' 7 (sample_db PaymentStatusCreated) = Inr s \<and>
     find_discrepancies (s\<lparr>submissions := submissions sample_recon_db\<rparr>) = [f] \<and> fd_Kind f \<noteq> ''ledger_imbalance''"
proof -
  have "\<exists>s. Reserve ''p1'' 7 (sample_db PaymentStatusCreated) = Inr s" by (rule not_isl_Inr) code_simp
  then obtain s where s: "Reserve ''p1'' 7 (sample_db PaymentStatusCreated) = Inr s" by blast
  let ?t = "s\<lparr>submissions := submissions sample_recon_db\<rparr>"
  have "submissions_ok (submissions sample_recon_db)" by code_simp
  with payout_posting_ok(1) [OF s sample_db_ok] have "ledger_ok ?t"
    using ledger_balanced_frame [of ?t s] by (simp add: ledger_ok_def store_ok_def has_defs)
  moreover have "(case Reserve ''p1'' 7 (sample_db PaymentStatusCreated) of Inl _ \<Rightarrow> 0
      | Inr s \<Rightarrow> length (find_discrepancies (s\<lparr>submissions := submissions sample_recon_db\<rparr>))) = 1" by code_simp
  then obtain f where f: "find_discrepancies ?t = [f]" by (auto simp: s length_Suc_conv)
  ultimately show ?thesis using s balanced_books_no_finding [of ?t f] by auto
qed

end
