(* ===== verification/Saga_Core.thy ===== *)
theory Saga_Core
  imports Ledger
begin

text \<open>
  What the two saga coordinators share: reading and updating rows of \<^verbatim>\<open>settlement_sagas\<close>, deadlines, the
  shape of a command in the outbox, the assumption of a working random source, and the locale
  \<open>timeout_round\<close>: the loop of a timeout worker over the rows it has claimed, which each coordinator
  interprets with its own loop body.
\<close>

subsection \<open>Rows and deadlines\<close>

definition find_saga :: "string \<Rightarrow> db \<Rightarrow> saga_row option" where
  "find_saga i s = List.find (\<lambda>g. sg_payment g = i) (sagas s)"

definition moved :: "State \<Rightarrow> time option \<Rightarrow> string \<Rightarrow> time \<Rightarrow> saga_row \<Rightarrow> saga_row" where
  "moved state deadline failure now g = g\<lparr>sg_state := state, sg_deadline := deadline,
     sg_failure := (case nullif failure of None \<Rightarrow> sg_failure g | Some f \<Rightarrow> Some f), sg_updated_at := now\<rparr>"

definition set_saga :: "string \<Rightarrow> State \<Rightarrow> time option \<Rightarrow> string \<Rightarrow> time \<Rightarrow> db \<Rightarrow> db" where
  "set_saga payment state deadline failure now s =
     s\<lparr>sagas := update_where (\<lambda>g. sg_payment g = payment) (moved state deadline failure now) (sagas s)\<rparr>"

definition overdue :: "time \<Rightarrow> saga_row \<Rightarrow> bool" where
  "overdue now g \<longleftrightarrow> (case sg_deadline g of None \<Rightarrow> False | Some d \<Rightarrow> d \<le> now)"

definition deadline_key :: "saga_row \<Rightarrow> time" where
  "deadline_key g = (case sg_deadline g of None \<Rightarrow> 0 | Some d \<Rightarrow> d)"

definition deadline_of :: "env \<Rightarrow> duration \<Rightarrow> time option" where
  "deadline_of e timeout = (if 0 < timeout then Some (env_now e + timeout) else None)"

lemma moved_simps [simp]:
  "sg_payment (moved st d f now g) = sg_payment g" "sg_direction (moved st d f now g) = sg_direction g"
  "sg_state (moved st d f now g) = st" "sg_deadline (moved st d f now g) = d"
  by (simp_all add: moved_def)

lemma set_saga_sagas:
  "sagas (set_saga i st d f now s) = update_where (\<lambda>g. sg_payment g = i) (moved st d f now) (sagas s)"
  by (simp add: set_saga_def)

lemma set_saga_frame [simp]:
  "payments (set_saga i st d f now s) = payments s" "outbox (set_saga i st d f now s) = outbox s"
  "outbox_seq (set_saga i st d f now s) = outbox_seq s" "inbox (set_saga i st d f now s) = inbox s"
  "journals (set_saga i st d f now s) = journals s" "entries (set_saga i st d f now s) = entries s"
  by (simp_all add: set_saga_def)

lemma find_saga_set_saga [simp]:
  "find_saga j (set_saga i st d f now s) =
     (if i = j then map_option (moved st d f now) (find_saga j s) else find_saga j s)"
proof -
  have "find_saga j (set_saga i st d f now s) =
      map_option (\<lambda>g. if sg_payment g = i then moved st d f now g else g) (find_saga j s)"
    unfolding find_saga_def set_saga_sagas by (rule find_update_where) simp
  then show ?thesis by (cases "find_saga j s") (auto simp: find_saga_def dest: find_Some_memb)
qed

lemma store_ok_set_saga [store_keeps]: "store_ok s \<Longrightarrow> store_ok (set_saga i st d f now s)"
proof -
  have "map sg_payment (sagas (set_saga i st d f now s)) = map sg_payment (sagas s)"
    unfolding set_saga_sagas by (rule map_update_where) simp
  then show "store_ok s \<Longrightarrow> store_ok (set_saga i st d f now s)"
    unfolding set_saga_def by (simp add: store_ok_def has_defs sagas_ok_def)
qed

subsection \<open>Commands in the outbox\<close>

definition command_row :: "string \<Rightarrow> string \<Rightarrow> outbox_row \<Rightarrow> bool" where
  "command_row payment command r \<longleftrightarrow> ob_type r = command \<and> ob_aggregate_id r = payment \<and>
     ob_topic r = SettlementCommandsTopic \<and> ob_version r = SchemaVersion \<and> ob_published_at r = None \<and>
     ob_failed_at r = None"

lemma find_saga_outbox [simp]:
  "find_saga i (s\<lparr>outbox := ob, outbox_seq := n\<rparr>) = find_saga i s"
  "find_saga i (s\<lparr>reviews := rv\<rparr>) = find_saga i s"
  by (simp_all add: find_saga_def)

lemma find_saga_payment: "find_saga i s = Some g \<Longrightarrow> sg_payment g = i \<and> g \<in> set (sagas s)"
  by (auto simp: find_saga_def dest: find_Some_memb)

text \<open>With unique keys the row a query reads is the row an update of the same key changes.\<close>

lemma find_saga_unique:
  assumes "store_ok s" and "g \<in> set (sagas s)"
  shows "find_saga (sg_payment g) s = Some g"
  using assms unfolding find_saga_def by (intro find_unique_key) (simp_all add: store_ok_def sagas_ok_def)

text \<open>
  A working random source: every draw succeeds, two draws differ and no drawn event id is in the
  outbox yet.
\<close>

definition fresh_draws :: "env \<Rightarrow> db \<Rightarrow> bool" where
  "fresh_draws e s \<longleftrightarrow> (\<forall>n. env_rand e n \<noteq> None) \<and> inj (env_rand e) \<and>
     (\<forall>n h. env_rand e n = Some h \<longrightarrow> ''evt_'' @ h \<notin> set (map ob_id (outbox s)))"

definition fresh_from :: "nat \<Rightarrow> env \<Rightarrow> db \<Rightarrow> bool" where
  "fresh_from k e s \<longleftrightarrow> (\<forall>n. env_rand e n \<noteq> None) \<and> inj (env_rand e) \<and> outbox_ok (outbox s) \<and>
     (\<forall>n h. k \<le> n \<longrightarrow> env_rand e n = Some h \<longrightarrow> ''evt_'' @ h \<notin> set (map ob_id (outbox s)))"

lemma fresh_from_0: "fresh_draws e s \<Longrightarrow> store_ok s \<Longrightarrow> fresh_from 0 e s"
  by (simp add: fresh_draws_def fresh_from_def store_ok_def)

lemma fresh_from_insert:
  assumes "fresh_from k e s" and "env_rand e k = Some h" and "0 < ob_version r" and "json_Valid (ob_payload r)"
    and "ob_id r = ''evt_'' @ h"
  shows "\<exists>s'. insert_outbox r s = Inr s' \<and> fresh_from (Suc k) e s'"
proof -
  have ok: "outbox_ok (outbox s @ [r])"
    using assms by (auto simp: fresh_from_def outbox_ok_def)
  have other: "h' \<noteq> h" if "Suc k \<le> n" "env_rand e n = Some h'" for n h'
  proof
    assume "h' = h"
    with that assms(1,2) have "n = k" by (metis fresh_from_def injD)
    with that(1) show False by simp
  qed
  have new: "''evt_'' @ h' \<notin> set (map ob_id (outbox s @ [r\<lparr>ob_seq := outbox_seq s\<rparr>]))"
    if "Suc k \<le> n" "env_rand e n = Some h'" for n h'
  proof -
    from that assms(1) have "''evt_'' @ h' \<notin> set (map ob_id (outbox s))"
      unfolding fresh_from_def by (meson Suc_leD)
    with other [OF that] assms(5) show ?thesis by simp
  qed
  have "fresh_from (Suc k) e (s\<lparr>outbox := outbox s @ [r\<lparr>ob_seq := outbox_seq s\<rparr>], outbox_seq := Suc (outbox_seq s)\<rparr>)"
    unfolding fresh_from_def using assms(1) ok new by (simp add: fresh_from_def del: set_map append.simps)
  with ok show ?thesis by (simp add: insert_outbox_def)
qed

lemma fresh_from_Suc: "fresh_from k e s \<Longrightarrow> fresh_from (Suc k) e s"
  unfolding fresh_from_def by (meson Suc_leD)

text \<open>A concrete working source, for the witnesses.\<close>

definition sample_env :: env where
  "sample_env = \<lparr>env_now = 1000, env_rand = (\<lambda>n. Some (replicate n CHR ''a''))\<rparr>"

lemma sample_env_fresh:
  assumes "outbox s = []"
  shows "fresh_draws sample_env s"
proof -
  have "inj (\<lambda>n. Some (replicate n CHR ''a''))" by (rule injI) (metis length_replicate option.inject)
  then show ?thesis using assms by (simp add: fresh_draws_def sample_env_def)
qed

subsection \<open>The loop of a timeout worker\<close>

locale timeout_round =
  fixes step :: "env \<Rightarrow> nat \<times> saga_row \<Rightarrow> db \<Rightarrow> db result" and upd :: "env \<Rightarrow> saga_row \<Rightarrow> saga_row \<Rightarrow> saga_row"
  assumes step_find: "step e (n, g) s = Inr s' \<Longrightarrow>
      find_saga i s' = (if sg_payment g = i then map_option (upd e g) (find_saga i s) else find_saga i s)"
    and step_keeps: "step e x s = Inr s' \<Longrightarrow> store_ok s \<Longrightarrow> store_ok s'"
    and step_progress: "fresh_from n e s \<Longrightarrow> \<exists>s'. step e (n, g) s = Inr s' \<and> fresh_from (Suc n) e s'"
begin

lemma loop_find:
  assumes "foldE (step e) (List.enumerate n items) s = Inr s'" and "distinct (map sg_payment items)"
  shows "find_saga i s' = (case List.find (\<lambda>g. sg_payment g = i) items of
     None \<Rightarrow> find_saga i s | Some g \<Rightarrow> map_option (upd e g) (find_saga i s))"
  using assms
proof (induction items arbitrary: n s)
  case Nil
  then show ?case by simp
next
  case (Cons g items)
  from Cons.prems(1) obtain s1 where s1: "step e (n, g) s = Inr s1"
    and rest: "foldE (step e) (List.enumerate (Suc n) items) s1 = Inr s'"
    by (auto simp: result_simps)
  note ih = Cons.IH [OF rest] and first = step_find [OF s1, of i]
  show ?case
  proof (cases "sg_payment g = i")
    case True
    with Cons.prems(2) have "List.find (\<lambda>g. sg_payment g = i) items = None"
      by (auto simp: find_None_iff_all) (metis imageI)
    with ih Cons.prems(2) first True show ?thesis by simp
  next
    case False
    with ih Cons.prems(2) first show ?thesis by (simp cong: option.case_cong)
  qed
qed

lemma loop_keeps: "foldE (step e) items s = Inr s' \<Longrightarrow> store_ok s \<Longrightarrow> store_ok s'"
  by (blast intro: foldE_invariant [where P = store_ok] step_keeps)

lemma loop_progress:
  "fresh_from n e s \<Longrightarrow> \<exists>s'. foldE (step e) (List.enumerate n items) s = Inr s'"
proof (induction items arbitrary: n s)
  case (Cons g items)
  from step_progress [OF Cons.prems] obtain s1 where "step e (n, g) s = Inr s1" "fresh_from (Suc n) e s1" by blast
  with Cons.IH show ?case by simp
qed simp

text \<open>A whole round: every claimed row is replaced by its update, every other row stays.\<close>

lemma round:
  assumes "store_ok s" and "fresh_draws e s" and "set items \<subseteq> set (sagas s)" and "distinct (map sg_payment items)"
  shows "\<exists>s'. foldE (step e) (List.enumerate 0 items) s = Inr s' \<and> store_ok s' \<and>
    (\<forall>g\<in>set items. find_saga (sg_payment g) s' = Some (upd e g g)) \<and>
    (\<forall>i. i \<notin> sg_payment ` set items \<longrightarrow> find_saga i s' = find_saga i s)"
proof -
  obtain s' where s': "foldE (step e) (List.enumerate 0 items) s = Inr s'"
    using loop_progress [OF fresh_from_0 [OF assms(2,1)]] by blast
  note find = loop_find [OF s' assms(4)]
  have "find_saga (sg_payment g) s' = Some (upd e g g)" if "g \<in> set items" for g
    using find [of "sg_payment g"] find_saga_unique [OF assms(1), of g] find_unique_key [OF assms(4) that]
      that assms(3) by auto
  moreover have "find_saga i s' = find_saga i s" if "i \<notin> sg_payment ` set items" for i
  proof -
    from that have "List.find (\<lambda>g. sg_payment g = i) items = None" by (auto simp: find_None_iff_all)
    with find [of i] show ?thesis by simp
  qed
  ultimately show ?thesis using s' loop_keeps [OF s' assms(1)] by blast
qed

end

end
