(* ===== verification/Payout_Saga.thy ===== *)
theory Payout_Saga
  imports Saga_Core
begin

text \<open>
  The payout saga coordinator (\<^verbatim>\<open>paymentcore/payout/coordinator.go\<close>). A saga row per payment carries
  the workflow state, a deadline and a failure reason; workflow events, operator decisions and timeouts
  move it and enqueue the next command in the same transaction.

  \<open>payout_transition\<close> is the pure transition table, \<open>payout_Handle\<close>, \<open>ResolveManualReview\<close> and
  \<open>payout_ExpireOnce\<close> are the three transactions. \<open>saga_reach\<close> is the set of states those three can
  produce; \<open>payout_sagas_ok\<close> is the invariant of the saga table.
\<close>

subsection \<open>Configuration\<close>

record SagaConfig =
  sc_PolicyTimeout :: duration
  sc_LedgerTimeout :: duration
  sc_SettlementTimeout :: duration
  sc_ComplianceTimeout :: duration
  sc_TimeoutBatchSize :: int

record SagaCoordinator =
  c_policyTimeout :: duration
  c_ledgerTimeout :: duration
  c_settlementTimeout :: duration
  c_complianceTimeout :: duration
  c_timeoutBatchSize :: int

definition NewSagaCoordinator :: "SagaConfig \<Rightarrow> SagaCoordinator result" where
  "NewSagaCoordinator config =
     (if sc_PolicyTimeout config < 0 \<or> sc_LedgerTimeout config < 0 \<or> sc_SettlementTimeout config < 0 \<or>
         sc_ComplianceTimeout config < 0 \<or> sc_TimeoutBatchSize config < 0
      then Inl (ErrText ''saga configuration cannot be negative'')
      else Inr \<lparr>c_policyTimeout = or_default (sc_PolicyTimeout config) Minute,
                c_ledgerTimeout = or_default (sc_LedgerTimeout config) Minute,
                c_settlementTimeout = or_default (sc_SettlementTimeout config) (10 * Minute),
                c_complianceTimeout = or_default (sc_ComplianceTimeout config) (24 * Hour),
                c_timeoutBatchSize = or_default (sc_TimeoutBatchSize config) 100\<rparr>)"

definition coordinator_ok :: "SagaCoordinator \<Rightarrow> bool" where
  "coordinator_ok c \<longleftrightarrow> 0 < c_policyTimeout c \<and> 0 < c_ledgerTimeout c \<and> 0 < c_settlementTimeout c \<and>
     0 < c_complianceTimeout c \<and> 0 < c_timeoutBatchSize c"

lemma NewSagaCoordinator_ok: "NewSagaCoordinator config = Inr c \<Longrightarrow> coordinator_ok c"
  by (auto simp: NewSagaCoordinator_def coordinator_ok_def or_default_def Minute_def Hour_def split: if_splits)

subsection \<open>Transitions\<close>

definition reasonOrDefault :: "string \<Rightarrow> string \<Rightarrow> string" where
  "reasonOrDefault reason fallback = (if reason \<noteq> '''' then reason else fallback)"

text \<open>The new state, the command to send, the timeout (0 for none) and the failure reason.\<close>

type_synonym outcome = "State \<times> string \<times> duration \<times> string"

definition payout_transition :: "SagaCoordinator \<Rightarrow> State \<Rightarrow> string \<Rightarrow> string \<Rightarrow> outcome result" where
  "payout_transition c state eventType reason =
     (if state = StateAwaitingPolicy \<and> eventType = ''payout.policy.approved''
      then Inr (StateAwaitingLedger, ''ledger.reserve'', c_ledgerTimeout c, '''')
      else if state = StateAwaitingPolicy \<and> eventType = ''payout.policy.rejected''
      then Inr (StateFailed, ''payment.fail'', 0, reasonOrDefault reason ''policy rejected'')
      else if state = StateAwaitingLedger \<and> eventType = ''payout.funds_reserved''
      then Inr (StateAwaitingSettlement, ''settlement.execute'', c_settlementTimeout c, '''')
      else if state = StateAwaitingLedger \<and> eventType = ''payout.ledger_failed''
      then Inr (StateFailed, ''payment.fail'', 0, reasonOrDefault reason ''ledger reservation failed'')
      else if state = StateAwaitingSettlement \<and> eventType = ''payout.provider_completed''
      then Inr (StateSettlingPayment, ''payment.settle'', c_ledgerTimeout c, '''')
      else if state = StateAwaitingSettlement \<and> eventType = ''payout.on_hold''
      then Inr (StateOnHold, '''', c_complianceTimeout c, reasonOrDefault reason ''settlement on hold'')
      else if state = StateOnHold \<and> eventType = ''payout.provider_completed''
      then Inr (StateSettlingPayment, ''payment.settle'', c_ledgerTimeout c, '''')
      else if state = StateOnHold \<and> eventType = ''payout.provider_failed''
      then Inr (StateFailed, ''payment.fail_reserved'', 0, reasonOrDefault reason ''settlement failed'')
      else if state = StateOnHold \<and> eventType = ''payout.provider_returned''
      then Inr (StateReturning, ''ledger.release'', c_ledgerTimeout c,
                reasonOrDefault reason ''settlement funds returned'')
      else if state = StateSettlingPayment \<and> eventType = ''payout.completed''
      then Inr (StateCompleted, '''', 0, '''')
      else if state = StateSettlingPayment \<and> eventType = ''payout.provider_completed''
      then Inr (StateSettlingPayment, '''', c_ledgerTimeout c, '''')
      else if state = StateAwaitingSettlement \<and> eventType = ''payout.provider_failed''
      then (if reason = ''submission_failed'' then Inr (StateFailed, ''payment.fail'', 0, reason)
            else Inr (StateFailed, ''payment.fail_reserved'', 0, reasonOrDefault reason ''settlement failed''))
      else if state = StateAwaitingSettlement \<and> eventType = ''payout.provider_returned''
      then Inr (StateReturning, ''ledger.release'', c_ledgerTimeout c,
                reasonOrDefault reason ''settlement funds returned'')
      else if state = StateFailed \<and> eventType = ''payout.provider_returned''
      then Inr (StateReturning, ''ledger.release'', c_ledgerTimeout c,
                reasonOrDefault reason ''settlement funds returned after payment failure'')
      else if state = StateFailed \<and> eventType = ''payout.failed'' then Inr (StateFailed, '''', 0, reason)
      else if state = StateReleasingLedger \<and> eventType = ''payout.funds_released''
      then Inr (StateLedgerReleased, ''payment.fail'', 0, reason)
      else if state = StateReturning \<and> eventType = ''payout.funds_released''
      then Inr (StateReturned, ''payment.return'', 0, reason)
      else Inl (ErrText ''event is invalid in this saga state''))"

text \<open>\<open>None\<close> is the panic of the default branch.\<close>

definition sagaCommandVersion :: "string \<Rightarrow> int option" where
  "sagaCommandVersion command =
     (if command \<in> {''policy.evaluate'', ''ledger.reserve'', ''settlement.execute'', ''payment.fail'',
          ''payment.fail_reserved'', ''payment.settle'', ''payment.return'', ''ledger.release''}
      then Some SchemaVersion else None)"

subsection \<open>The transactions\<close>

definition payout_enqueue ::
  "env \<Rightarrow> nat \<Rightarrow> string \<Rightarrow> string \<Rightarrow> string \<Rightarrow> string \<Rightarrow> time \<Rightarrow> db \<Rightarrow> db result" where
  "payout_enqueue e n payment causedBy command reason now s =
     bindE (newID ''evt_'' n e) (\<lambda>eventID.
       case sagaCommandVersion command of
         None \<Rightarrow> Inl (ErrText ''panic: unknown saga command type'')
       | Some version \<Rightarrow>
           insert_outbox (new_outbox eventID SettlementCommandsTopic command version payment ''payment''
             (Raw (JObj [(''caused_by_event_id'', JStr causedBy), (''payment_id'', JStr payment),
                         (''reason'', JStr reason)])) now) s)"

definition updateAndCommand ::
  "env \<Rightarrow> nat \<Rightarrow> string \<Rightarrow> string \<Rightarrow> State \<Rightarrow> string \<Rightarrow> duration \<Rightarrow> string \<Rightarrow> db \<Rightarrow> db result" where
  "updateAndCommand e n payment causedBy state command timeout failure s =
     (let now = env_now e;
          deadline = (if 0 < timeout then Some (now + timeout) else None);
          s1 = set_saga payment state deadline failure now s
      in if command = '''' then Inr s1 else payout_enqueue e n payment causedBy command failure now s1)"

definition payout_start :: "SagaCoordinator \<Rightarrow> env \<Rightarrow> event \<Rightarrow> db \<Rightarrow> db result" where
  "payout_start c e ev s =
     (let now = env_now e in
      bindE (insert_saga_once \<lparr>sg_payment = ev_AggregateID ev, sg_direction = PaymentDirectionPayout,
               sg_state = StateAwaitingPolicy, sg_deadline = Some (now + c_policyTimeout c),
               sg_failure = None, sg_created_at = now, sg_updated_at = now\<rparr> s) (\<lambda>(s1, rows).
        if rows = 0 then Inr s1
        else if rows \<noteq> 1 then Inl (ErrText ''create payment saga: rows'')
        else payout_enqueue e 0 (ev_AggregateID ev) (ev_ID ev) ''policy.evaluate'' '''' now s1))"

definition payout_Handle :: "SagaCoordinator \<Rightarrow> env \<Rightarrow> event \<Rightarrow> db \<Rightarrow> db result" where
  "payout_Handle c e ev s =
     bindE (Event_Validate ev) (\<lambda>_.
       if ev_AggregateType ev \<noteq> ''payout'' then Inl (ErrText ''unsupported saga aggregate type'')
       else if ev_Type ev = ''payout.created'' then payout_start c e ev s
       else case find_saga (ev_AggregateID ev) s of
         None \<Rightarrow> Inl (ErrText ''payment saga not found'')
       | Some g \<Rightarrow>
          (case Unmarshal_str ''reason'' (ev_Payload ev) of
             None \<Rightarrow> Inl (ErrText ''decode saga event'')
           | Some reason \<Rightarrow>
               bindE (payout_transition c (sg_state g) (ev_Type ev) reason) (\<lambda>(next, command, timeout, failure).
                 updateAndCommand e 0 (ev_AggregateID ev) (ev_ID ev) next command timeout failure s)))"

definition review_outcome :: "SagaCoordinator \<Rightarrow> string \<Rightarrow> (State \<times> string \<times> duration) result" where
  "review_outcome c action =
     (if action = ''retry'' then Inr (StateOnHold, '''', c_complianceTimeout c)
      else if action = ''complete'' then Inr (StateSettlingPayment, ''payment.settle'', c_ledgerTimeout c)
      else if action = ''fail'' then Inr (StateFailed, ''payment.fail_reserved'', 0)
      else if action = ''return'' then Inr (StateReturning, ''ledger.release'', c_ledgerTimeout c)
      else Inl (ErrText ''manual review action must be retry, complete, fail, or return''))"

definition ResolveManualReview ::
  "SagaCoordinator \<Rightarrow> env \<Rightarrow> string \<Rightarrow> string \<Rightarrow> string \<Rightarrow> string \<Rightarrow> db \<Rightarrow> db result" where
  "ResolveManualReview c e payment action operator note s =
     (if payment = '''' \<or> operator = '''' \<or> note = ''''
      then Inl (ErrText ''payment ID, operator, and note are required'') else
      case find_saga payment s of
        None \<Rightarrow> Inl ErrSagaNotFound
      | Some g \<Rightarrow>
          if sg_state g \<noteq> StateManualReview then Inl ErrNotInManualReview
          else bindE (review_outcome c action) (\<lambda>(next, command, timeout).
            bindE (insert_review \<lparr>rv_payment = payment, rv_action = action, rv_operator = operator,
                     rv_note = note, rv_at = env_now e\<rparr> s)
              (updateAndCommand e 0 payment ''manual_review'' next command timeout note)))"

text \<open>
  The claim query. \<open>locked\<close> tells which rows other transactions hold (\<open>SKIP LOCKED\<close>); rows with
  equal deadlines come in table order.
\<close>

definition payout_active :: "State \<Rightarrow> bool" where
  "payout_active st \<longleftrightarrow> st \<in> {StateAwaitingPolicy, StateAwaitingLedger, StateAwaitingSettlement, StateOnHold,
     StateReleasingLedger, StateReturning, StateSettlingPayment}"

definition payout_claim :: "SagaCoordinator \<Rightarrow> time \<Rightarrow> (string \<Rightarrow> bool) \<Rightarrow> db \<Rightarrow> saga_row list" where
  "payout_claim c now locked s = take (nat (c_timeoutBatchSize c)) (sort_key deadline_key
     (filter (\<lambda>g. sg_direction g = PaymentDirectionPayout \<and> overdue now g \<and> payout_active (sg_state g) \<and>
        \<not> locked (sg_payment g)) (sagas s)))"

definition payout_expiry :: "SagaCoordinator \<Rightarrow> State \<Rightarrow> State \<times> string \<times> duration" where
  "payout_expiry c st =
     (if st = StateSettlingPayment then (StateSettlingPayment, ''payment.settle'', c_ledgerTimeout c)
      else if st = StateReturning then (StateReturning, ''ledger.release'', c_ledgerTimeout c)
      else if st = StateReleasingLedger then (StateFailed, ''payment.fail'', 0)
      else if st = StateOnHold then (StateManualReview, '''', 0)
      else if st = StateAwaitingSettlement
      then (StateAwaitingSettlement, ''settlement.execute'', c_settlementTimeout c)
      else (StateFailed, ''payment.fail'', 0))"

definition payout_expire_step :: "SagaCoordinator \<Rightarrow> env \<Rightarrow> nat \<times> saga_row \<Rightarrow> db \<Rightarrow> db result" where
  "payout_expire_step c e = (\<lambda>(n, g) s.
     case payout_expiry c (sg_state g) of (next, command, timeout) \<Rightarrow>
       updateAndCommand e n (sg_payment g) ''timeout'' next command timeout
         (state_text (sg_state g) @ '' timeout'') s)"

definition payout_ExpireOnce :: "SagaCoordinator \<Rightarrow> env \<Rightarrow> (string \<Rightarrow> bool) \<Rightarrow> db \<Rightarrow> (nat \<times> db) result" where
  "payout_ExpireOnce c e locked s =
     (let items = payout_claim c (env_now e) locked s
      in bindE (foldE (payout_expire_step c e) (List.enumerate 0 items) s) (\<lambda>s'. Inr (length items, s')))"

subsection \<open>Effects of the transactions\<close>

lemma payout_enqueue_Inr:
  assumes "payout_enqueue e n payment causedBy command reason now s = Inr s'"
  shows "\<exists>r. s' = s\<lparr>outbox := outbox s @ [r], outbox_seq := Suc (outbox_seq s)\<rparr> \<and> command_row payment command r \<and>
    sagaCommandVersion command \<noteq> None"
  using assms
  by (auto simp: payout_enqueue_def result_simps insert_outbox_def new_outbox_def command_row_def
      sagaCommandVersion_def split: option.splits if_splits)

lemma payout_enqueue_keeps [store_keeps]:
  "payout_enqueue e n payment causedBy command reason now s = Inr s' \<Longrightarrow> store_ok s \<Longrightarrow> store_ok s'"
  by (auto simp: payout_enqueue_def result_simps split: option.splits intro: store_keeps)

lemma updateAndCommand_Inr:
  assumes "updateAndCommand e n i cause st command timeout failure s = Inr s'"
  shows "\<exists>new seq. s' = (set_saga i st (deadline_of e timeout) failure (env_now e) s)
      \<lparr>outbox := outbox s @ new, outbox_seq := seq\<rparr> \<and>
    (if command = '''' then new = [] else length new = 1 \<and> command_row i command (hd new))"
proof (cases "command = ''''")
  case True
  with assms have "s' = (set_saga i st (deadline_of e timeout) failure (env_now e) s)
      \<lparr>outbox := outbox s @ [], outbox_seq := outbox_seq s\<rparr>"
    by (auto simp: updateAndCommand_def Let_def deadline_of_def set_saga_def)
  with True show ?thesis by (intro exI [of _ "[]"]) auto
next
  case False
  with assms payout_enqueue_Inr obtain r where
    "s' = (set_saga i st (deadline_of e timeout) failure (env_now e) s)
      \<lparr>outbox := outbox s @ [r], outbox_seq := Suc (outbox_seq s)\<rparr>" "command_row i command r"
    by (fastforce simp: updateAndCommand_def Let_def deadline_of_def)
  with False show ?thesis by (intro exI [of _ "[r]"]) auto
qed

lemma updateAndCommand_keeps [store_keeps]:
  "updateAndCommand e n i cause st command timeout failure s = Inr s' \<Longrightarrow> store_ok s \<Longrightarrow> store_ok s'"
  by (auto simp: updateAndCommand_def Let_def split: if_splits intro: store_keeps)

lemma updateAndCommand_find:
  assumes "updateAndCommand e n i cause st command timeout failure s = Inr s'"
  shows "find_saga j s' = (if i = j then map_option (moved st (deadline_of e timeout) failure (env_now e)) (find_saga j s)
     else find_saga j s)"
  using updateAndCommand_Inr [OF assms] by auto

lemma updateAndCommand_frame:
  assumes "updateAndCommand e n i cause st command timeout failure s = Inr s'"
  shows "payments s' = payments s" and "inbox s' = inbox s" and "journals s' = journals s" and
    "entries s' = entries s" and
    "sagas s' = update_where (\<lambda>g. sg_payment g = i) (moved st (deadline_of e timeout) failure (env_now e)) (sagas s)"
  using updateAndCommand_Inr [OF assms] by (auto simp: set_saga_sagas)

lemma saga_commands_known:
  "payout_transition c st ty reason = Inr (st', command, timeout, failure) \<Longrightarrow>
     command = '''' \<or> sagaCommandVersion command \<noteq> None"
  "review_outcome c action = Inr (st', command, timeout) \<Longrightarrow> command = '''' \<or> sagaCommandVersion command \<noteq> None"
  "payout_expiry c st = (st', command, timeout) \<Longrightarrow> command = '''' \<or> sagaCommandVersion command \<noteq> None"
  by (auto simp: payout_transition_def review_outcome_def payout_expiry_def sagaCommandVersion_def
      split: if_splits)

subsection \<open>Reachable states\<close>

inductive saga_reach :: "SagaCoordinator \<Rightarrow> State \<Rightarrow> bool" for c where
  start: "saga_reach c StateAwaitingPolicy"
| event: "saga_reach c st \<Longrightarrow> payout_transition c st ty reason = Inr (st', command, timeout, failure) \<Longrightarrow>
     saga_reach c st'"
| review: "saga_reach c StateManualReview \<Longrightarrow> review_outcome c action = Inr (st', command, timeout) \<Longrightarrow>
     saga_reach c st'"
| expiry: "saga_reach c st \<Longrightarrow> payout_active st \<Longrightarrow> payout_expiry c st = (st', command, timeout) \<Longrightarrow>
     saga_reach c st'"

definition payout_states :: "State set" where
  "payout_states = {StateAwaitingPolicy, StateAwaitingLedger, StateAwaitingSettlement, StateOnHold,
     StateManualReview, StateReturning, StateSettlingPayment, StateCompleted, StateReturned, StateFailed}"

lemma transition_states:
  "payout_transition c st ty reason = Inr (st', command, timeout, failure) \<Longrightarrow> st \<in> payout_states \<Longrightarrow>
     st' \<in> payout_states"
  "review_outcome c action = Inr (st', command, timeout) \<Longrightarrow> st' \<in> payout_states"
  "payout_expiry c st = (st', command, timeout) \<Longrightarrow> st' \<in> payout_states"
  by (auto simp: payout_transition_def review_outcome_def payout_expiry_def payout_states_def
      split: if_splits)

lemma transition_deadline:
  "payout_transition c st ty reason = Inr (st', command, timeout, failure) \<Longrightarrow> st \<in> payout_states \<Longrightarrow>
     coordinator_ok c \<Longrightarrow> 0 < timeout \<longleftrightarrow> payout_active st'"
  "review_outcome c action = Inr (st', command, timeout) \<Longrightarrow> coordinator_ok c \<Longrightarrow> 0 < timeout \<longleftrightarrow> payout_active st'"
  "payout_expiry c st = (st', command, timeout) \<Longrightarrow> coordinator_ok c \<Longrightarrow> 0 < timeout \<longleftrightarrow> payout_active st'"
  by (auto simp: payout_transition_def review_outcome_def payout_expiry_def payout_states_def payout_active_def
      coordinator_ok_def split: if_splits)

subsection \<open>The invariant of the saga table\<close>

definition payout_row_ok :: "saga_row \<Rightarrow> bool" where
  "payout_row_ok g \<longleftrightarrow> sg_state g \<in> payout_states \<and> (sg_deadline g \<noteq> None \<longleftrightarrow> payout_active (sg_state g))"

definition payout_sagas_ok :: "db \<Rightarrow> bool" where
  "payout_sagas_ok s \<longleftrightarrow> list_all (\<lambda>g. sg_direction g = PaymentDirectionPayout \<longrightarrow> payout_row_ok g) (sagas s)"

lemma payout_sagas_ok_frame: "sagas s' = sagas s \<Longrightarrow> payout_sagas_ok s' = payout_sagas_ok s"
  by (simp add: payout_sagas_ok_def)

lemma updateAndCommand_sagas_ok:
  assumes "updateAndCommand e n i cause st command timeout failure s = Inr s'" and "payout_sagas_ok s"
    and "\<And>g. g \<in> set (sagas s) \<Longrightarrow> sg_payment g = i \<Longrightarrow> sg_direction g = PaymentDirectionPayout \<Longrightarrow>
      st \<in> payout_states \<and> (0 < timeout \<longleftrightarrow> payout_active st)"
  shows "payout_sagas_ok s'"
  using assms(2,3) unfolding payout_sagas_ok_def updateAndCommand_frame(5) [OF assms(1)]
  by (auto simp: list_all_iff set_update_where payout_row_ok_def deadline_of_def)

lemma payout_start_Inr:
  assumes "payout_start c e ev s = Inr s'"
  shows "if has_saga (ev_AggregateID ev) s then s' = s
    else \<exists>r. s' = s\<lparr>sagas := sagas s @ [\<lparr>sg_payment = ev_AggregateID ev, sg_direction = PaymentDirectionPayout,
               sg_state = StateAwaitingPolicy, sg_deadline = Some (env_now e + c_policyTimeout c),
               sg_failure = None, sg_created_at = env_now e, sg_updated_at = env_now e\<rparr>],
             outbox := outbox s @ [r], outbox_seq := Suc (outbox_seq s)\<rparr> \<and>
      command_row (ev_AggregateID ev) ''policy.evaluate'' r"
  using assms
  by (auto simp: payout_start_def Let_def result_simps insert_saga_once_def split: if_splits
      dest!: payout_enqueue_Inr)

text \<open>The rows that a successful \<open>payout_Handle\<close> of an event other than \<open>payout.created\<close> passes through.\<close>

lemma payout_Handle_cases:
  assumes "payout_Handle c e ev s = Inr s'" and "ev_Type ev \<noteq> ''payout.created''"
  obtains g reason st' command timeout failure where
    "find_saga (ev_AggregateID ev) s = Some g"
    "payout_transition c (sg_state g) (ev_Type ev) reason = Inr (st', command, timeout, failure)"
    "updateAndCommand e 0 (ev_AggregateID ev) (ev_ID ev) st' command timeout failure s = Inr s'"
  using assms by (auto simp: payout_Handle_def result_simps split: if_splits option.splits)

lemma payout_Handle_created:
  assumes "payout_Handle c e ev s = Inr s'" and "ev_Type ev = ''payout.created''"
  shows "payout_start c e ev s = Inr s'"
  using assms by (auto simp: payout_Handle_def result_simps split: if_splits)

lemma payout_Handle_keeps [store_keeps]:
  assumes "payout_Handle c e ev s = Inr s'" and "store_ok s"
  shows "store_ok s'"
proof (cases "ev_Type ev = ''payout.created''")
  case True
  with payout_Handle_created [OF assms(1)] assms(2) show ?thesis
    by (auto simp: payout_start_def Let_def result_simps split: if_splits
        intro: payout_enqueue_keeps insert_saga_once_keeps)
next
  case False
  from payout_Handle_cases [OF assms(1) False] assms(2) show ?thesis
    by (metis updateAndCommand_keeps)
qed

lemma payout_Handle_sagas_ok:
  assumes "payout_Handle c e ev s = Inr s'" and "payout_sagas_ok s" and "store_ok s" and "coordinator_ok c"
  shows "payout_sagas_ok s'"
proof (cases "ev_Type ev = ''payout.created''")
  case True
  with payout_start_Inr [OF payout_Handle_created [OF assms(1)]] assms(2) show ?thesis
    by (auto simp: payout_sagas_ok_def payout_row_ok_def payout_states_def payout_active_def split: if_splits)
next
  case False
  from assms(1) False obtain g reason st' command timeout failure where
    g: "find_saga (ev_AggregateID ev) s = Some g" and
    tr: "payout_transition c (sg_state g) (ev_Type ev) reason = Inr (st', command, timeout, failure)" and
    up: "updateAndCommand e 0 (ev_AggregateID ev) (ev_ID ev) st' command timeout failure s = Inr s'"
    by (rule payout_Handle_cases)
  show ?thesis
  proof (rule updateAndCommand_sagas_ok [OF up assms(2)])
    fix g' assume g': "g' \<in> set (sagas s)" "sg_payment g' = ev_AggregateID ev"
      "sg_direction g' = PaymentDirectionPayout"
    with g find_saga_unique [OF assms(3) g'(1)] have "g' = g" by simp
    with g' assms(2) have "sg_state g \<in> payout_states"
      by (auto simp: payout_sagas_ok_def payout_row_ok_def list_all_iff)
    with tr assms(4) show "st' \<in> payout_states \<and> (0 < timeout \<longleftrightarrow> payout_active st')"
      by (metis transition_states(1) transition_deadline(1))
  qed
qed

lemma ResolveManualReview_cases:
  assumes "ResolveManualReview c e i action operator note s = Inr s'"
  obtains g st' command timeout r where
    "find_saga i s = Some g" "sg_state g = StateManualReview" "review_outcome c action = Inr (st', command, timeout)"
    "updateAndCommand e 0 i ''manual_review'' st' command timeout note (s\<lparr>reviews := reviews s @ [r]\<rparr>) = Inr s'"
    "rv_payment r = i" "rv_action r = action" "rv_operator r = operator" "rv_note r = note"
  using assms
  by (auto simp: ResolveManualReview_def result_simps insert_review_def split: if_splits option.splits)

lemma ResolveManualReview_keeps [store_keeps]:
  assumes "ResolveManualReview c e i action operator note s = Inr s'" and "store_ok s"
  shows "store_ok s'"
  using assms
  by (auto simp: ResolveManualReview_def result_simps split: if_splits option.splits
      intro: updateAndCommand_keeps insert_review_keeps)

lemma ResolveManualReview_sagas_ok:
  assumes "ResolveManualReview c e i action operator note s = Inr s'" and "payout_sagas_ok s"
    and "coordinator_ok c"
  shows "payout_sagas_ok s'"
proof -
  from assms(1) obtain st' command timeout r where
    out: "review_outcome c action = Inr (st', command, timeout)" and
    up: "updateAndCommand e 0 i ''manual_review'' st' command timeout note (s\<lparr>reviews := reviews s @ [r]\<rparr>) = Inr s'"
    by (rule ResolveManualReview_cases)
  have "payout_sagas_ok (s\<lparr>reviews := reviews s @ [r]\<rparr>)"
    using assms(2) by (simp add: payout_sagas_ok_def)
  with up show ?thesis
    by (rule updateAndCommand_sagas_ok) (metis out transition_states(2) transition_deadline(2) assms(3))
qed

subsection \<open>Timeouts\<close>

definition expired_row :: "SagaCoordinator \<Rightarrow> env \<Rightarrow> saga_row \<Rightarrow> saga_row \<Rightarrow> saga_row" where
  "expired_row c e g =
     (case payout_expiry c (sg_state g) of (st', command, timeout) \<Rightarrow>
        moved st' (deadline_of e timeout) (state_text (sg_state g) @ '' timeout'') (env_now e))"

lemma payout_expire_step_find:
  assumes "payout_expire_step c e (n, g) s = Inr s'"
  shows "find_saga i s' = (if sg_payment g = i then map_option (expired_row c e g) (find_saga i s) else find_saga i s)"
  using assms updateAndCommand_find
  by (auto simp: payout_expire_step_def expired_row_def split: prod.splits)

lemma updateAndCommand_progress:
  assumes "fresh_from k e s" and "command = '''' \<or> sagaCommandVersion command \<noteq> None"
  shows "\<exists>s'. updateAndCommand e k i cause st command timeout failure s = Inr s' \<and> fresh_from (Suc k) e s'"
proof (cases "command = ''''")
  case True
  with fresh_from_Suc [OF assms(1)] show ?thesis by (simp add: updateAndCommand_def Let_def fresh_from_def)
next
  case False
  with assms(2) obtain v where v: "sagaCommandVersion command = Some v" "0 < v"
    by (auto simp: sagaCommandVersion_def split: if_splits)
  obtain h where h: "env_rand e k = Some h"
    using assms(1) unfolding fresh_from_def by (metis not_None_eq)
  have "fresh_from k e (set_saga i st d f now s)" for d f now using assms(1) by (simp add: fresh_from_def)
  from fresh_from_insert [OF this h] False v h show ?thesis
    by (simp add: updateAndCommand_def Let_def payout_enqueue_def newID_def new_outbox_def)
qed

lemma payout_expire_step_keeps:
  "payout_expire_step c e x s = Inr s' \<Longrightarrow> store_ok s \<Longrightarrow> store_ok s'"
  by (auto simp: payout_expire_step_def split: prod.splits intro: updateAndCommand_keeps)

lemma payout_expire_step_progress:
  assumes "fresh_from n e s"
  shows "\<exists>s'. payout_expire_step c e (n, g) s = Inr s' \<and> fresh_from (Suc n) e s'"
proof -
  obtain st' command timeout where o: "payout_expiry c (sg_state g) = (st', command, timeout)"
    by (cases "payout_expiry c (sg_state g)")
  from updateAndCommand_progress [OF assms saga_commands_known(3) [OF o]] o show ?thesis
    by (simp add: payout_expire_step_def)
qed

interpretation payout_round: timeout_round "payout_expire_step c" "expired_row c" for c
  by unfold_locales (simp_all add: payout_expire_step_find payout_expire_step_progress payout_expire_step_keeps)

lemma payout_claim_memb:
  "g \<in> set (payout_claim c now locked s) \<Longrightarrow> g \<in> set (sagas s) \<and> overdue now g \<and> payout_active (sg_state g) \<and>
     sg_direction g = PaymentDirectionPayout \<and> \<not> locked (sg_payment g)"
  unfolding payout_claim_def by (auto dest!: in_set_takeD)

lemma payout_claim_distinct:
  assumes "store_ok s"
  shows "distinct (map sg_payment (payout_claim c now locked s))"
proof -
  let ?f = "filter (\<lambda>g. sg_direction g = PaymentDirectionPayout \<and> overdue now g \<and> payout_active (sg_state g) \<and>
        \<not> locked (sg_payment g)) (sagas s)"
  have "distinct (map sg_payment ?f)"
    using assms by (intro distinct_map_filter) (simp add: store_ok_def sagas_ok_def)
  then have "distinct (map sg_payment (sort_key deadline_key ?f))" by (simp add: distinct_map)
  then show ?thesis by (simp add: payout_claim_def take_map [symmetric])
qed

lemma payout_claim_find:
  assumes "store_ok s" and "g \<in> set (payout_claim c now locked s)"
  shows "find_saga (sg_payment g) s = Some g"
  using payout_claim_memb [OF assms(2)] find_saga_unique [OF assms(1)] by blast

lemma expired_row_not_overdue: "coordinator_ok c \<Longrightarrow> \<not> overdue (env_now e) (expired_row c e g g)"
  by (auto simp: expired_row_def overdue_def deadline_of_def payout_expiry_def split: option.splits)

lemma payout_ExpireOnce_Inr:
  assumes "payout_ExpireOnce c e locked s = Inr (n, s')"
  shows "n = length (payout_claim c (env_now e) locked s) \<and>
    foldE (payout_expire_step c e) (List.enumerate 0 (payout_claim c (env_now e) locked s)) s = Inr s'"
  using assms by (auto simp: payout_ExpireOnce_def Let_def result_simps)

lemma payout_ExpireOnce_keeps [store_keeps]:
  assumes "payout_ExpireOnce c e locked s = Inr (n, s')" and "store_ok s"
  shows "store_ok s'"
  using payout_ExpireOnce_Inr [OF assms(1)] assms(2) payout_round.loop_keeps by blast

lemma payout_expire_step_sagas_ok:
  assumes "payout_expire_step c e x s = Inr s'" and "payout_sagas_ok s" and "coordinator_ok c"
  shows "payout_sagas_ok s'"
proof -
  obtain n g where x: "x = (n, g)" by (cases x)
  obtain st' command timeout where o: "payout_expiry c (sg_state g) = (st', command, timeout)"
    by (cases "payout_expiry c (sg_state g)")
  from assms(1) have "updateAndCommand e n (sg_payment g) ''timeout'' st' command timeout
      (state_text (sg_state g) @ '' timeout'') s = Inr s'"
    by (simp add: payout_expire_step_def x o)
  then show ?thesis using assms(2)
    by (rule updateAndCommand_sagas_ok) (metis o transition_states(3) transition_deadline(3) assms(3))
qed

lemma payout_ExpireOnce_sagas_ok:
  assumes "payout_ExpireOnce c e locked s = Inr (n, s')" and "payout_sagas_ok s" and "coordinator_ok c"
  shows "payout_sagas_ok s'"
  using payout_ExpireOnce_Inr [OF assms(1)] assms(2,3)
  by (blast intro: foldE_invariant [where P = payout_sagas_ok] payout_expire_step_sagas_ok)

lemma payout_expire_step_frame:
  "payout_expire_step c e x s = Inr s' \<Longrightarrow> payments s' = payments s \<and> inbox s' = inbox s \<and>
     journals s' = journals s \<and> entries s' = entries s"
  by (auto simp: payout_expire_step_def split: prod.splits dest: updateAndCommand_frame)

lemma payout_ExpireOnce_frame:
  assumes "payout_ExpireOnce c e locked s = Inr (n, s')"
  shows "payments s' = payments s \<and> inbox s' = inbox s \<and> journals s' = journals s \<and> entries s' = entries s"
proof (rule foldE_invariant [where P = "\<lambda>t. payments t = payments s \<and> inbox t = inbox s \<and>
      journals t = journals s \<and> entries t = entries s"])
  show "foldE (payout_expire_step c e) (List.enumerate 0 (payout_claim c (env_now e) locked s)) s = Inr s'"
    using payout_ExpireOnce_Inr [OF assms] by blast
qed (auto dest: payout_expire_step_frame)

subsection \<open>Properties\<close>

definition sample_coordinator :: SagaCoordinator where
  "sample_coordinator = \<lparr>c_policyTimeout = Minute, c_ledgerTimeout = Minute, c_settlementTimeout = 10 * Minute,
     c_complianceTimeout = 24 * Hour, c_timeoutBatchSize = 100\<rparr>"

definition sample_saga :: "State \<Rightarrow> time option \<Rightarrow> saga_row" where
  "sample_saga st d = \<lparr>sg_payment = ''p1'', sg_direction = PaymentDirectionPayout, sg_state = st,
     sg_deadline = d, sg_failure = None, sg_created_at = 1, sg_updated_at = 1\<rparr>"

definition sample_saga_db :: "State \<Rightarrow> time option \<Rightarrow> db" where
  "sample_saga_db st d = (sample_db PaymentStatusProcessing)\<lparr>sagas := [sample_saga st d]\<rparr>"

lemma sample_coordinator_ok: "coordinator_ok sample_coordinator"
  by (simp add: coordinator_ok_def sample_coordinator_def Minute_def Hour_def)

lemma sample_saga_db_ok: "store_ok (sample_saga_db st d)"
  using sample_db_ok [of PaymentStatusProcessing]
  by (simp add: sample_saga_db_def sample_saga_def ledger_ok_def store_ok_def has_defs sagas_ok_def)

lemma sample_saga_db_fresh: "fresh_draws sample_env (sample_saga_db st d)"
  by (rule sample_env_fresh) (simp add: sample_saga_db_def sample_db_def empty_db_def)

text \<open>
  C23: the states a payout saga can reach, through events, operator decisions and timeouts, are exactly
  ten; \<open>releasing_ledger\<close> and \<open>ledger_released\<close> are never entered.
\<close>

theorem payout_saga_reachable_states: "saga_reach c st = (st \<in> payout_states)"
proof
  assume "saga_reach c st"
  then show "st \<in> payout_states"
    by induction (auto dest: transition_states simp: payout_states_def)
next
  note fire = saga_reach.event [where c = c and reason = "''''", unfolded payout_transition_def]
  note tick = saga_reach.expiry [where c = c, unfolded payout_expiry_def payout_active_def]
  have ledger: "saga_reach c StateAwaitingLedger"
    by (rule fire [OF start, of "''payout.policy.approved''"]) simp
  have failed: "saga_reach c StateFailed"
    by (rule fire [OF start, of "''payout.policy.rejected''"]) simp
  have settlement: "saga_reach c StateAwaitingSettlement"
    by (rule fire [OF ledger, of "''payout.funds_reserved''"]) simp
  have hold: "saga_reach c StateOnHold"
    by (rule fire [OF settlement, of "''payout.on_hold''"]) simp
  have settling: "saga_reach c StateSettlingPayment"
    by (rule fire [OF settlement, of "''payout.provider_completed''"]) simp
  have returning: "saga_reach c StateReturning"
    by (rule fire [OF settlement, of "''payout.provider_returned''"]) simp
  have completed: "saga_reach c StateCompleted"
    by (rule fire [OF settling, of "''payout.completed''"]) simp
  have returned: "saga_reach c StateReturned"
    by (rule fire [OF returning, of "''payout.funds_released''"]) simp
  have review: "saga_reach c StateManualReview" by (rule tick [OF hold]) simp_all
  assume "st \<in> payout_states"
  then show "saga_reach c st"
    using start ledger failed settlement hold settling returning completed returned review
    by (auto simp: payout_states_def)
qed

text \<open>
  C24: workflow events, operator decisions and timeouts keep the saga table well formed: every payout
  saga is in a reachable state, and it has a deadline exactly when that state can time out, so no active
  saga can be forgotten and no finished one can expire.
\<close>

theorem payout_saga_invariant:
  assumes "store_ok s" and "payout_sagas_ok s" and "coordinator_ok c"
    and "payout_Handle c e ev s = Inr s' \<or> ResolveManualReview c e i action operator note s = Inr s' \<or>
      payout_ExpireOnce c e locked s = Inr (n, s')"
  shows "store_ok s' \<and> payout_sagas_ok s'"
  using assms payout_Handle_keeps payout_Handle_sagas_ok ResolveManualReview_keeps ResolveManualReview_sagas_ok
    payout_ExpireOnce_keeps payout_ExpireOnce_sagas_ok by metis

definition sample_event :: "string \<Rightarrow> event" where
  "sample_event ty = \<lparr>ev_ID = ''ev1'', ev_Type = ty, ev_Version = 1, ev_AggregateID = ''p1'',
     ev_AggregateType = ''payout'', ev_OccurredAt = 5, ev_Payload = Raw (JObj [(''reason'', JStr '''')])\<rparr>"

lemma sample_handle:
  "\<exists>s'. payout_Handle sample_coordinator sample_env (sample_event ''payout.provider_completed'')
     (sample_saga_db StateAwaitingSettlement (Some 900)) = Inr s'"
  by (rule not_isl_Inr) code_simp

theorem payout_saga_invariant_witness:
  "\<exists>s'. payout_Handle sample_coordinator sample_env (sample_event ''payout.provider_completed'')
     (sample_saga_db StateAwaitingSettlement (Some 900)) = Inr s' \<and> store_ok s' \<and> payout_sagas_ok s'"
proof -
  have "payout_sagas_ok (sample_saga_db StateAwaitingSettlement (Some 900))" by code_simp
  with sample_handle payout_saga_invariant [OF sample_saga_db_ok _ sample_coordinator_ok] show ?thesis by blast
qed

text \<open>
  A completed or returned payout saga is final: no event, operator decision or timeout changes its row.
\<close>

theorem payout_saga_final:
  assumes "store_ok s" and "payout_sagas_ok s" and "find_saga i s = Some g"
    and "sg_state g \<in> {StateCompleted, StateReturned}"
    and "payout_Handle c e ev s = Inr s' \<or> ResolveManualReview c e k action operator note s = Inr s' \<or>
      payout_ExpireOnce c e locked s = Inr (n, s')"
  shows "find_saga i s' = Some g"
proof -
  have handle: ?thesis if h: "payout_Handle c e ev s = Inr s'"
  proof (cases "ev_Type ev = ''payout.created''")
    case True
    with payout_start_Inr [OF payout_Handle_created [OF h]] assms(3) show ?thesis
      by (auto simp: find_saga_def find_append split: if_splits)
  next
    case False
    from h False obtain g' reason st' command timeout failure where
      g': "find_saga (ev_AggregateID ev) s = Some g'" and
      tr: "payout_transition c (sg_state g') (ev_Type ev) reason = Inr (st', command, timeout, failure)" and
      up: "updateAndCommand e 0 (ev_AggregateID ev) (ev_ID ev) st' command timeout failure s = Inr s'"
      by (rule payout_Handle_cases)
    have "sg_state g' \<notin> {StateCompleted, StateReturned}"
      using tr by (auto simp: payout_transition_def split: if_splits)
    with g' assms(3,4) have "ev_AggregateID ev \<noteq> i" by auto
    with updateAndCommand_find [OF up, of i] assms(3) show ?thesis by simp
  qed
  have review: ?thesis if r: "ResolveManualReview c e k action operator note s = Inr s'"
  proof -
    from r obtain g' st' command timeout r where g': "find_saga k s = Some g'" "sg_state g' = StateManualReview" and
      up: "updateAndCommand e 0 k ''manual_review'' st' command timeout note (s\<lparr>reviews := reviews s @ [r]\<rparr>) = Inr s'"
      by (rule ResolveManualReview_cases)
    with assms(3,4) have "k \<noteq> i" by auto
    with updateAndCommand_find [OF up, of i] assms(3) show ?thesis by simp
  qed
  have expire: ?thesis if x: "payout_ExpireOnce c e locked s = Inr (n, s')"
  proof -
    let ?items = "payout_claim c (env_now e) locked s"
    have "List.find (\<lambda>g. sg_payment g = i) ?items = None"
    proof (rule ccontr)
      assume "List.find (\<lambda>g. sg_payment g = i) ?items \<noteq> None"
      then obtain g' where g': "g' \<in> set ?items" "sg_payment g' = i" by (auto dest: find_Some_memb)
      with payout_claim_find [OF assms(1) g'(1)] assms(3) have "g' = g" by simp
      with payout_claim_memb [OF g'(1)] assms(4) show False by (auto simp: payout_active_def)
    qed
    with payout_round.loop_find [of c e 0 ?items s s' i] payout_ExpireOnce_Inr [OF x]
      payout_claim_distinct [OF assms(1)] assms(3) show ?thesis by simp
  qed
  from assms(5) handle review expire show ?thesis by blast
qed

theorem payout_saga_final_witness:
  "\<exists>s'. payout_Handle sample_coordinator sample_env (sample_event ''payout.created'')
     (sample_saga_db StateCompleted None) = Inr s' \<and>
     find_saga ''p1'' s' = Some (sample_saga StateCompleted None)"
proof -
  let ?s = "sample_saga_db StateCompleted None"
  have "\<exists>s'. payout_Handle sample_coordinator sample_env (sample_event ''payout.created'') ?s = Inr s'"
    by (rule not_isl_Inr) code_simp
  then obtain s' where s': "payout_Handle sample_coordinator sample_env (sample_event ''payout.created'') ?s = Inr s'" ..
  have "payout_sagas_ok ?s" by code_simp
  moreover have "find_saga ''p1'' ?s = Some (sample_saga StateCompleted None)" by code_simp
  ultimately have "find_saga ''p1'' s' = Some (sample_saga StateCompleted None)"
    by (rule payout_saga_final [OF sample_saga_db_ok _ _ _ disjI1 [OF s']]) (simp add: sample_saga_def)
  with s' show ?thesis by blast
qed

text \<open>
  One round of the timeout worker always succeeds with a working random source. It processes at
  most the batch size, gives every claimed saga the state its timeout prescribes and a deadline in the
  future (or none), and leaves every other saga alone.
\<close>

theorem payout_expire_round:
  assumes "store_ok s" and "coordinator_ok c" and "fresh_draws e s"
  shows "\<exists>s'. payout_ExpireOnce c e locked s = Inr (length (payout_claim c (env_now e) locked s), s') \<and>
    int (length (payout_claim c (env_now e) locked s)) \<le> c_timeoutBatchSize c \<and>
    (\<forall>g\<in>set (payout_claim c (env_now e) locked s).
       find_saga (sg_payment g) s' = Some (expired_row c e g g) \<and> \<not> overdue (env_now e) (expired_row c e g g)) \<and>
    (\<forall>i. i \<notin> sg_payment ` set (payout_claim c (env_now e) locked s) \<longrightarrow> find_saga i s' = find_saga i s)"
proof -
  let ?items = "payout_claim c (env_now e) locked s"
  have "set ?items \<subseteq> set (sagas s)" using payout_claim_memb by blast
  from payout_round.round [OF assms(1,3) this payout_claim_distinct [OF assms(1)], of c]
  obtain s' where s': "foldE (payout_expire_step c e) (List.enumerate 0 ?items) s = Inr s'"
    and claimed: "\<forall>g\<in>set ?items. find_saga (sg_payment g) s' = Some (expired_row c e g g)"
    and other: "\<forall>i. i \<notin> sg_payment ` set ?items \<longrightarrow> find_saga i s' = find_saga i s" by blast
  have "length ?items \<le> nat (c_timeoutBatchSize c)" by (simp add: payout_claim_def)
  then have "int (length ?items) \<le> c_timeoutBatchSize c" using assms(2) by (simp add: coordinator_ok_def le_nat_iff)
  with s' claimed other expired_row_not_overdue [OF assms(2)] show ?thesis
    by (simp add: payout_ExpireOnce_def Let_def)
qed

theorem payout_expire_round_witness:
  "\<exists>s'. payout_ExpireOnce sample_coordinator sample_env (\<lambda>_. False) (sample_saga_db StateReturning (Some 900)) = Inr (1, s') \<and>
     map_option sg_deadline (find_saga ''p1'' s') = Some (Some (1000 + Minute))"
proof -
  let ?s = "sample_saga_db StateReturning (Some 900)" and ?g = "sample_saga StateReturning (Some 900)"
  have claim: "payout_claim sample_coordinator (env_now sample_env) (\<lambda>_. False) ?s = [?g]" by code_simp
  have row: "sg_payment ?g = ''p1''" "sg_deadline (expired_row sample_coordinator sample_env ?g ?g) = Some (1000 + Minute)"
    by code_simp+
  from payout_expire_round [OF sample_saga_db_ok sample_coordinator_ok sample_saga_db_fresh,
      where locked = "\<lambda>_. False" and d1 = "Some 900" and st1 = StateReturning]
  show ?thesis unfolding claim using row by auto
qed

text \<open>
  A round that is not held up by other transactions and whose batch is large enough leaves no
  active payout saga overdue.
\<close>

theorem payout_expire_drains:
  assumes "store_ok s" and "coordinator_ok c" and "payout_ExpireOnce c e (\<lambda>_. False) s = Inr (n, s')"
    and "int (length (filter (overdue (env_now e)) (sagas s))) \<le> c_timeoutBatchSize c"
  shows "payout_claim c (env_now e) (\<lambda>_. False) s' = []"
proof -
  let ?due = "\<lambda>g. sg_direction g = PaymentDirectionPayout \<and> overdue (env_now e) g \<and> payout_active (sg_state g)"
  let ?items = "payout_claim c (env_now e) (\<lambda>_. False) s"
  have "length (filter ?due (sagas s)) \<le> length (filter (overdue (env_now e)) (sagas s))"
    using length_filter_le [of ?due "filter (overdue (env_now e)) (sagas s)"] by (simp add: conj_ac)
  then have all: "set ?items = set (filter ?due (sagas s))"
    using assms(4) by (simp add: payout_claim_def nat_le_iff)
  have loop: "foldE (payout_expire_step c e) (List.enumerate 0 ?items) s = Inr s'"
    using payout_ExpireOnce_Inr [OF assms(3)] by blast
  note ok' = payout_ExpireOnce_keeps [OF assms(3,1)]
  have "\<not> ?due g" if g: "g \<in> set (sagas s')" for g
  proof
    assume due: "?due g"
    note here = find_saga_unique [OF ok' g] payout_round.loop_find [OF loop payout_claim_distinct [OF assms(1)]]
    show False
    proof (cases "List.find (\<lambda>h. sg_payment h = sg_payment g) ?items")
      case None
      with here have "find_saga (sg_payment g) s = Some g" by simp
      with due have "g \<in> set ?items" unfolding all by (auto dest: find_saga_payment)
      with None show False by (auto simp: find_None_iff_all)
    next
      case (Some h)
      then have h: "h \<in> set ?items" "sg_payment h = sg_payment g" by (auto dest: find_Some_memb)
      with here Some payout_claim_find [OF assms(1) h(1)] have "g = expired_row c e h h" by simp
      with due expired_row_not_overdue [OF assms(2)] show False by metis
    qed
  qed
  then show ?thesis by (simp add: payout_claim_def filter_empty_conv)
qed

theorem payout_expire_drains_witness:
  "\<exists>n s'. payout_ExpireOnce sample_coordinator sample_env (\<lambda>_. False) (sample_saga_db StateOnHold (Some 900)) = Inr (n, s') \<and>
     payout_claim sample_coordinator (env_now sample_env) (\<lambda>_. False) s' = []"
proof -
  let ?s = "sample_saga_db StateOnHold (Some 900)"
  have "\<exists>x. payout_ExpireOnce sample_coordinator sample_env (\<lambda>_. False) ?s = Inr x" by (rule not_isl_Inr) code_simp
  then obtain n s' where s': "payout_ExpireOnce sample_coordinator sample_env (\<lambda>_. False) ?s = Inr (n, s')" by auto
  have "int (length (filter (overdue (env_now sample_env)) (sagas ?s))) \<le> c_timeoutBatchSize sample_coordinator"
    by code_simp
  from payout_expire_drains [OF sample_saga_db_ok sample_coordinator_ok s' this] s' show ?thesis by blast
qed

text \<open>
  The full effect of a workflow event on an existing saga. An event the transition table accepts
  moves exactly that saga to the table's state, deadline and failure reason and appends exactly the
  table's command to the outbox; an event the table rejects is an error and nothing is written. The panic of
  an unknown command cannot happen.
\<close>

theorem payout_event_effect:
  assumes "store_ok s" and "fresh_draws e s" and "Event_Validate ev = Inr ()" and "ev_AggregateType ev = ''payout''"
    and "ev_Type ev \<noteq> ''payout.created''" and "find_saga (ev_AggregateID ev) s = Some g"
    and "Unmarshal_str ''reason'' (ev_Payload ev) = Some reason"
  shows "case payout_transition c (sg_state g) (ev_Type ev) reason of
      Inl err \<Rightarrow> payout_Handle c e ev s = Inl err
    | Inr (st', command, timeout, failure) \<Rightarrow>
        \<exists>s' new. payout_Handle c e ev s = Inr s' \<and>
          find_saga (ev_AggregateID ev) s' = Some (moved st' (deadline_of e timeout) failure (env_now e) g) \<and>
          (\<forall>i. i \<noteq> ev_AggregateID ev \<longrightarrow> find_saga i s' = find_saga i s) \<and>
          outbox s' = outbox s @ new \<and>
          (if command = '''' then new = [] else length new = 1 \<and> command_row (ev_AggregateID ev) command (hd new))"
proof (cases "payout_transition c (sg_state g) (ev_Type ev) reason")
  case (Inl err)
  with assms show ?thesis by (simp add: payout_Handle_def)
next
  case (Inr o')
  obtain st' command timeout failure where o': "o' = (st', command, timeout, failure)" by (cases o')
  from updateAndCommand_progress [OF fresh_from_0 [OF assms(2,1)] saga_commands_known(1) [OF Inr [unfolded o']]]
  obtain s' where up: "updateAndCommand e 0 (ev_AggregateID ev) (ev_ID ev) st' command timeout failure s = Inr s'"
    by blast
  then have "payout_Handle c e ev s = Inr s'" using assms Inr by (simp add: payout_Handle_def o')
  moreover obtain new where "outbox s' = outbox s @ new"
    "if command = '''' then new = [] else length new = 1 \<and> command_row (ev_AggregateID ev) command (hd new)"
    using updateAndCommand_Inr [OF up] by auto
  ultimately show ?thesis
    using updateAndCommand_find [OF up] assms(6) by (simp add: Inr o')
qed

theorem payout_event_effect_witness:
  "\<exists>s' r. payout_Handle sample_coordinator sample_env (sample_event ''payout.provider_completed'')
     (sample_saga_db StateAwaitingSettlement (Some 900)) = Inr s' \<and> outbox s' = [r] \<and>
     command_row ''p1'' ''payment.settle'' r"
proof -
  let ?s = "sample_saga_db StateAwaitingSettlement (Some 900)" and ?ev = "sample_event ''payout.provider_completed''"
  have hyps: "Event_Validate ?ev = Inr ()" "ev_AggregateType ?ev = ''payout''" "ev_Type ?ev \<noteq> ''payout.created''"
    "find_saga (ev_AggregateID ?ev) ?s = Some (sample_saga StateAwaitingSettlement (Some 900))"
    "Unmarshal_str ''reason'' (ev_Payload ?ev) = Some ''''" "ev_AggregateID ?ev = ''p1''" "outbox ?s = []"
    by code_simp+
  have tr: "payout_transition sample_coordinator (sg_state (sample_saga StateAwaitingSettlement (Some 900)))
      (ev_Type ?ev) '''' = Inr (StateSettlingPayment, ''payment.settle'', Minute, '''')" by code_simp
  from payout_event_effect [OF sample_saga_db_ok sample_saga_db_fresh hyps(1-5), of sample_coordinator]
  show ?thesis unfolding tr using hyps(6,7) by (auto simp: length_Suc_conv)
qed

end
