(* ===== verification/Payin_Saga.thy ===== *)
theory Payin_Saga
  imports Saga_Core
begin

text \<open>
  The pay-in saga coordinator (\<^verbatim>\<open>paymentcore/payin/coordinator.go\<close>): the transition table, the event handler
  and the timeout worker, which retries provider and ledger work and fails policy and compliance waits.
  Pay-in sagas live in the same table as payout sagas, with direction \<open>payin\<close>.
\<close>

subsection \<open>The coordinator\<close>

record PayinSagaCoordinator =
  k_operationTimeout :: duration
  k_complianceTimeout :: duration
  k_timeoutBatchSize :: nat

definition payin_NewSagaCoordinator :: PayinSagaCoordinator where
  "payin_NewSagaCoordinator = \<lparr>k_operationTimeout = 10 * Minute, k_complianceTimeout = 24 * Hour,
     k_timeoutBatchSize = 100\<rparr>"

text \<open>\<open>Inr None\<close> is the branch that ignores an event of a finished saga.\<close>

definition payin_transition :: "State \<Rightarrow> string \<Rightarrow> (State \<times> string) option result" where
  "payin_transition state ty =
     (if state = StateAwaitingPolicy \<and> ty = ''payin.policy.approved''
      then Inr (Some (StateAwaitingExecution, ''payin.execute''))
      else if ty = ''payin.processing'' \<and> state \<in> {StateAwaitingExecution, StateProcessing, StateOnHold}
      then Inr (Some (StateProcessing, ''''))
      else if ty = ''payin.on_hold'' \<and> state \<in> {StateAwaitingExecution, StateProcessing}
      then Inr (Some (StateOnHold, ''''))
      else if ty = ''payin.received'' \<and> state \<in> {StateAwaitingExecution, StateProcessing, StateOnHold}
      then Inr (Some (StateAwaitingLedger, ''payin.ledger.record''))
      else if state = StateAwaitingLedger \<and> ty = ''payin.succeeded'' then Inr (Some (StateCompleted, ''''))
      else if ty = ''payin.failed'' \<and> state \<noteq> StateCompleted \<and> state \<noteq> StateRefunded
      then Inr (Some (StateFailed, ''''))
      else if ty = ''payin.refunded'' \<and> state \<noteq> StateFailed \<and> state \<noteq> StateRefunded
      then Inr (Some (StateRefunded, ''''))
      else if state \<in> {StateCompleted, StateFailed, StateRefunded} then Inr None
      else Inl (ErrText ''event is invalid in this payin saga state''))"

definition payin_enqueueCommand ::
  "env \<Rightarrow> nat \<Rightarrow> string \<Rightarrow> string \<Rightarrow> string \<Rightarrow> time \<Rightarrow> db \<Rightarrow> db result" where
  "payin_enqueueCommand e n payin causedBy command now s =
     bindE (newID ''evt_'' n e) (\<lambda>commandID.
       let reason = (if command = ''payin.fail'' then ''payin workflow timed out'' else '''');
           body = Raw (JObj [(''caused_by_event_id'', JStr causedBy), (''payin_id'', JStr payin),
                        (''payment_id'', JStr payin), (''reason'', JStr reason)]);
           version = version_in [''payin.policy.evaluate'', ''payin.execute'', ''payin.ledger.record'', ''payin.fail''] command
       in insert_outbox (new_outbox commandID SettlementCommandsTopic command version payin ''payment'' body now) s)"

definition payin_deadline :: "PayinSagaCoordinator \<Rightarrow> State \<Rightarrow> time \<Rightarrow> time option" where
  "payin_deadline c state now =
     (if state \<in> {StateAwaitingPolicy, StateAwaitingExecution, StateProcessing, StateAwaitingLedger}
      then Some (now + k_operationTimeout c)
      else if state = StateOnHold then Some (now + k_complianceTimeout c) else None)"

definition payin_start :: "PayinSagaCoordinator \<Rightarrow> env \<Rightarrow> event \<Rightarrow> db \<Rightarrow> db result" where
  "payin_start c e ev s =
     (let now = env_now e in
      bindE (insert_saga_once \<lparr>sg_payment = ev_AggregateID ev, sg_direction = PaymentDirectionPayin,
               sg_state = StateAwaitingPolicy, sg_deadline = Some (now + k_operationTimeout c),
               sg_failure = None, sg_created_at = now, sg_updated_at = now\<rparr> s) (\<lambda>(s1, rows).
        if rows = 0 then Inr s1
        else payin_enqueueCommand e 0 (ev_AggregateID ev) (ev_ID ev) ''payin.policy.evaluate'' now s1))"

definition find_payin_saga :: "string \<Rightarrow> db \<Rightarrow> saga_row option" where
  "find_payin_saga i s =
     List.find (\<lambda>g. sg_payment g = i \<and> sg_direction g = PaymentDirectionPayin) (sagas s)"

definition payin_Handle :: "PayinSagaCoordinator \<Rightarrow> env \<Rightarrow> event \<Rightarrow> db \<Rightarrow> db result" where
  "payin_Handle c e ev s =
     (if ev_AggregateType ev \<noteq> ''payin'' then Inl (ErrText ''unsupported payin saga aggregate'')
      else if ev_Type ev = ''payin.created'' then payin_start c e ev s
      else case find_payin_saga (ev_AggregateID ev) s of
        None \<Rightarrow> Inl ErrNoRows
      | Some g \<Rightarrow>
         (case Unmarshal_str ''reason'' (ev_Payload ev) of
            None \<Rightarrow> Inl (ErrText ''json: cannot unmarshal'')
          | Some reason \<Rightarrow>
              bindE (payin_transition (sg_state g) (ev_Type ev)) (\<lambda>o'.
                case o' of
                  None \<Rightarrow> Inr s
                | Some (next, command) \<Rightarrow>
                    let now = env_now e;
                        s1 = set_saga (ev_AggregateID ev) next (payin_deadline c next now) reason now s
                    in if command = '''' then Inr s1
                       else payin_enqueueCommand e 0 (ev_AggregateID ev) (ev_ID ev) command now s1)))"

definition payin_active :: "State \<Rightarrow> bool" where
  "payin_active st \<longleftrightarrow> st \<in> {StateAwaitingPolicy, StateAwaitingExecution, StateProcessing, StateOnHold,
     StateAwaitingLedger}"

definition has_payin :: "string \<Rightarrow> db \<Rightarrow> bool" where
  "has_payin i s \<longleftrightarrow> list_ex (\<lambda>r. pi_payment r = i) (payins s)"

definition payin_claim :: "PayinSagaCoordinator \<Rightarrow> time \<Rightarrow> (string \<Rightarrow> bool) \<Rightarrow> db \<Rightarrow> saga_row list" where
  "payin_claim c now locked s = take (k_timeoutBatchSize c) (sort_key deadline_key
     (filter (\<lambda>g. has_payin (sg_payment g) s \<and> sg_direction g = PaymentDirectionPayin \<and> overdue now g \<and>
        payin_active (sg_state g) \<and> \<not> locked (sg_payment g)) (sagas s)))"

definition payin_expiry_command :: "State \<Rightarrow> string" where
  "payin_expiry_command st =
     (if st = StateAwaitingLedger then ''payin.ledger.record''
      else if st = StateAwaitingPolicy \<or> st = StateOnHold then ''payin.fail'' else ''payin.execute'')"

definition rescheduled :: "PayinSagaCoordinator \<Rightarrow> env \<Rightarrow> saga_row \<Rightarrow> saga_row \<Rightarrow> saga_row" where
  "rescheduled c e item g = g\<lparr>sg_deadline := Some (env_now e + k_operationTimeout c),
     sg_failure := (case sg_failure g of None \<Rightarrow> Some (state_text (sg_state item) @ '' timeout'') | Some f \<Rightarrow> Some f),
     sg_updated_at := env_now e\<rparr>"

definition payin_expire_step :: "PayinSagaCoordinator \<Rightarrow> env \<Rightarrow> nat \<times> saga_row \<Rightarrow> db \<Rightarrow> db result" where
  "payin_expire_step c e = (\<lambda>(n, item) s.
     payin_enqueueCommand e n (sg_payment item) ''timeout'' (payin_expiry_command (sg_state item)) (env_now e)
       (s\<lparr>sagas := update_where (\<lambda>g. sg_payment g = sg_payment item) (rescheduled c e item) (sagas s)\<rparr>))"

definition payin_ExpireOnce :: "PayinSagaCoordinator \<Rightarrow> env \<Rightarrow> (string \<Rightarrow> bool) \<Rightarrow> db \<Rightarrow> (nat \<times> db) result" where
  "payin_ExpireOnce c e locked s =
     (let items = payin_claim c (env_now e) locked s
      in bindE (foldE (payin_expire_step c e) (List.enumerate 0 items) s) (\<lambda>s'. Inr (length items, s')))"

subsection \<open>Effects\<close>

lemma payin_enqueueCommand_Inr:
  assumes "payin_enqueueCommand e n payin causedBy command now s = Inr s'"
  shows "\<exists>r. s' = s\<lparr>outbox := outbox s @ [r], outbox_seq := Suc (outbox_seq s)\<rparr> \<and> command_row payin command r"
proof -
  from assms obtain i body v where v: "v = version_in [''payin.policy.evaluate'', ''payin.execute'',
      ''payin.ledger.record'', ''payin.fail''] command" and
    ins: "insert_outbox (new_outbox i SettlementCommandsTopic command v payin ''payment'' body now) s = Inr s'"
    unfolding payin_enqueueCommand_def Let_def bindE_Inr_iff by blast
  from ins have "0 < v" by (simp add: insert_outbox_def new_outbox_def outbox_ok_def split: if_splits)
  with v have "v = SchemaVersion" by (simp add: version_in_def split: if_splits)
  with ins show ?thesis
    by (auto simp: insert_outbox_def new_outbox_def command_row_def split: if_splits)
qed

lemma payin_enqueueCommand_keeps [store_keeps]:
  "payin_enqueueCommand e n payin causedBy command now s = Inr s' \<Longrightarrow> store_ok s \<Longrightarrow> store_ok s'"
  by (auto simp: payin_enqueueCommand_def result_simps Let_def intro: insert_outbox_keeps)

definition payin_command :: "string \<Rightarrow> bool" where
  "payin_command command \<longleftrightarrow>
     command \<in> {''payin.policy.evaluate'', ''payin.execute'', ''payin.ledger.record'', ''payin.fail''}"

lemma payin_enqueueCommand_progress:
  assumes "fresh_from n e s" and "payin_command command"
  shows "\<exists>s'. payin_enqueueCommand e n payin causedBy command now s = Inr s' \<and> fresh_from (Suc n) e s'"
proof -
  obtain h where h: "env_rand e n = Some h"
    using assms(1) unfolding fresh_from_def by (metis not_None_eq)
  from assms(2) have "version_in [''payin.policy.evaluate'', ''payin.execute'', ''payin.ledger.record'', ''payin.fail'']
      command = 1" by (auto simp: payin_command_def version_in_def)
  with fresh_from_insert [OF assms(1) h] h show ?thesis
    by (simp add: payin_enqueueCommand_def newID_def new_outbox_def Let_def)
qed

lemma rescheduled_simps [simp]:
  "sg_payment (rescheduled c e item g) = sg_payment g" "sg_state (rescheduled c e item g) = sg_state g"
  "sg_direction (rescheduled c e item g) = sg_direction g"
  "sg_deadline (rescheduled c e item g) = Some (env_now e + k_operationTimeout c)"
  by (simp_all add: rescheduled_def)

text \<open>An update of one saga row that keeps its key.\<close>

lemma find_saga_update:
  assumes "\<And>g. sg_payment (f g) = sg_payment g"
  shows "find_saga j (s\<lparr>sagas := update_where (\<lambda>g. sg_payment g = i) f (sagas s)\<rparr>) =
     (if i = j then map_option f (find_saga j s) else find_saga j s)"
proof -
  have "find_saga j (s\<lparr>sagas := update_where (\<lambda>g. sg_payment g = i) f (sagas s)\<rparr>) =
      map_option (\<lambda>g. if sg_payment g = i then f g else g) (find_saga j s)"
    unfolding find_saga_def using assms by (simp add: find_update_where)
  then show ?thesis by (cases "find_saga j s") (auto simp: find_saga_def dest: find_Some_memb)
qed

lemma store_ok_saga_update:
  assumes "store_ok s" and "\<And>g. sg_payment (f g) = sg_payment g"
  shows "store_ok (s\<lparr>sagas := update_where P f (sagas s)\<rparr>)"
  using assms by (simp add: store_ok_def has_defs sagas_ok_def map_update_where)

lemma payin_expire_step_find:
  assumes "payin_expire_step c e (n, g) s = Inr s'"
  shows "find_saga i s' = (if sg_payment g = i then map_option (rescheduled c e g) (find_saga i s) else find_saga i s)"
proof -
  from assms obtain r where "s' = s\<lparr>sagas := update_where (\<lambda>h. sg_payment h = sg_payment g) (rescheduled c e g) (sagas s),
      outbox := outbox s @ [r], outbox_seq := Suc (outbox_seq s)\<rparr>"
    by (auto simp: payin_expire_step_def dest!: payin_enqueueCommand_Inr)
  with find_saga_update [of "rescheduled c e g" i "sg_payment g" s] show ?thesis by simp
qed

lemma payin_expire_step_keeps:
  assumes "payin_expire_step c e x s = Inr s'" and "store_ok s"
  shows "store_ok s'"
proof -
  obtain n g where x: "x = (n, g)" by (cases x)
  note up = store_ok_saga_update [OF assms(2), of "rescheduled c e g" "\<lambda>h. sg_payment h = sg_payment g"]
  show ?thesis
    using assms(1) unfolding payin_expire_step_def x prod.case
    by (rule payin_enqueueCommand_keeps) (rule up, simp)
qed

lemma payin_expiry_command_known: "payin_command (payin_expiry_command st)"
  by (simp add: payin_command_def payin_expiry_command_def)

lemma payin_expire_step_progress:
  "fresh_from n e s \<Longrightarrow> \<exists>s'. payin_expire_step c e (n, g) s = Inr s' \<and> fresh_from (Suc n) e s'"
  unfolding payin_expire_step_def prod.case
  by (rule payin_enqueueCommand_progress [OF _ payin_expiry_command_known]) (simp add: fresh_from_def)

interpretation payin_round: timeout_round "payin_expire_step c" "rescheduled c" for c
  by unfold_locales (simp_all add: payin_expire_step_find payin_expire_step_keeps payin_expire_step_progress)

subsection \<open>Reachable states and the table invariant\<close>

inductive payin_reach :: "State \<Rightarrow> bool" where
  start: "payin_reach StateAwaitingPolicy"
| event: "payin_reach st \<Longrightarrow> payin_transition st ty = Inr (Some (st', command)) \<Longrightarrow> payin_reach st'"

definition payin_states :: "State set" where
  "payin_states = {StateAwaitingPolicy, StateAwaitingExecution, StateProcessing, StateOnHold,
     StateAwaitingLedger, StateCompleted, StateFailed, StateRefunded}"

lemma payin_transition_states:
  "payin_transition st ty = Inr (Some (st', command)) \<Longrightarrow> st \<in> payin_states \<Longrightarrow> st' \<in> payin_states"
  by (auto simp: payin_transition_def payin_states_def split: if_splits)

lemma payin_transition_command:
  "payin_transition st ty = Inr (Some (st', command)) \<Longrightarrow> command = '''' \<or> payin_command command"
  by (auto simp: payin_transition_def payin_command_def split: if_splits)

lemma payin_deadline_active: "payin_deadline c st now \<noteq> None \<longleftrightarrow> payin_active st"
  by (auto simp: payin_deadline_def payin_active_def)

definition payin_row_ok :: "saga_row \<Rightarrow> bool" where
  "payin_row_ok g \<longleftrightarrow> sg_state g \<in> payin_states \<and> (sg_deadline g \<noteq> None \<longleftrightarrow> payin_active (sg_state g))"

definition payin_sagas_ok :: "db \<Rightarrow> bool" where
  "payin_sagas_ok s \<longleftrightarrow> list_all (\<lambda>g. sg_direction g = PaymentDirectionPayin \<longrightarrow> payin_row_ok g) (sagas s)"

lemma find_payin_saga_Some:
  assumes "store_ok s"
  shows "find_payin_saga i s = Some g \<longleftrightarrow> find_saga i s = Some g \<and> sg_direction g = PaymentDirectionPayin"
proof
  assume "find_payin_saga i s = Some g"
  then have "g \<in> set (sagas s)" "sg_payment g = i" "sg_direction g = PaymentDirectionPayin"
    by (auto simp: find_payin_saga_def dest: find_Some_memb)
  with find_saga_unique [OF assms] show "find_saga i s = Some g \<and> sg_direction g = PaymentDirectionPayin" by blast
next
  assume r: "find_saga i s = Some g \<and> sg_direction g = PaymentDirectionPayin"
  then have g: "g \<in> set (sagas s)" "sg_payment g = i" by (auto dest: find_saga_payment)
  then have "find_payin_saga i s \<noteq> None" using r by (auto simp: find_payin_saga_def find_None_iff_all)
  then obtain g' where g': "find_payin_saga i s = Some g'" by auto
  then have "g' \<in> set (sagas s)" "sg_payment g' = i" by (auto simp: find_payin_saga_def dest: find_Some_memb)
  with find_saga_unique [OF assms] r g' show "find_payin_saga i s = Some g" by fastforce
qed

text \<open>The outcomes of a successful event.\<close>

lemma payin_Handle_cases [consumes 1, case_names started again ignored fired]:
  assumes "payin_Handle c e ev s = Inr s'"
  obtains
    r where "ev_Type ev = ''payin.created''" "\<not> has_saga (ev_AggregateID ev) s"
      "s' = s\<lparr>sagas := sagas s @ [\<lparr>sg_payment = ev_AggregateID ev, sg_direction = PaymentDirectionPayin,
               sg_state = StateAwaitingPolicy, sg_deadline = Some (env_now e + k_operationTimeout c),
               sg_failure = None, sg_created_at = env_now e, sg_updated_at = env_now e\<rparr>],
             outbox := outbox s @ [r], outbox_seq := Suc (outbox_seq s)\<rparr>"
      "command_row (ev_AggregateID ev) ''payin.policy.evaluate'' r" "store_ok s \<longrightarrow> store_ok s'"
  | "s' = s"
  | g where "find_payin_saga (ev_AggregateID ev) s = Some g" "payin_transition (sg_state g) (ev_Type ev) = Inr None" "s' = s"
  | g reason st' command new seq where "find_payin_saga (ev_AggregateID ev) s = Some g"
      "payin_transition (sg_state g) (ev_Type ev) = Inr (Some (st', command))"
      "s' = (set_saga (ev_AggregateID ev) st' (payin_deadline c st' (env_now e)) reason (env_now e) s)
         \<lparr>outbox := outbox s @ new, outbox_seq := seq\<rparr>"
      "if command = '''' then new = [] else length new = 1 \<and> command_row (ev_AggregateID ev) command (hd new)"
      "store_ok s \<longrightarrow> store_ok s'"
proof (cases "ev_Type ev = ''payin.created''")
  case True
  with assms have start: "payin_start c e ev s = Inr s'" by (simp add: payin_Handle_def split: if_splits)
  show thesis
  proof (cases "has_saga (ev_AggregateID ev) s")
    case True
    with start have "s' = s" by (simp add: payin_start_def Let_def insert_saga_once_def)
    then show thesis by (rule that(2))
  next
    case False
    let ?row = "\<lparr>sg_payment = ev_AggregateID ev, sg_direction = PaymentDirectionPayin,
        sg_state = StateAwaitingPolicy, sg_deadline = Some (env_now e + k_operationTimeout c),
        sg_failure = None, sg_created_at = env_now e, sg_updated_at = env_now e\<rparr>"
    from False start obtain s1 where ins: "insert_saga_once ?row s = Inr (s1, 1)"
      and enq: "payin_enqueueCommand e 0 (ev_AggregateID ev) (ev_ID ev) ''payin.policy.evaluate'' (env_now e) s1 = Inr s'"
      by (auto simp: payin_start_def Let_def insert_saga_once_def split: if_splits)
    from ins have s1: "s1 = s\<lparr>sagas := sagas s @ [?row]\<rparr>" by (simp add: insert_saga_once_def split: if_splits)
    from payin_enqueueCommand_Inr [OF enq] payin_enqueueCommand_keeps [OF enq] insert_saga_once_keeps [OF ins]
      False \<open>ev_Type ev = _\<close> show thesis by (auto simp: s1 intro: that(1))
  qed
next
  case False
  note unfold = assms [unfolded payin_Handle_def]
  from assms have agg: "ev_AggregateType ev = ''payin''" by (rule contrapos_pp) (simp add: payin_Handle_def)
  obtain g where g: "find_payin_saga (ev_AggregateID ev) s = Some g"
    using unfold False agg by (cases "find_payin_saga (ev_AggregateID ev) s") simp_all
  obtain reason where reason: "Unmarshal_str ''reason'' (ev_Payload ev) = Some reason"
    using unfold False agg g by (cases "Unmarshal_str ''reason'' (ev_Payload ev)") simp_all
  obtain o' where tr: "payin_transition (sg_state g) (ev_Type ev) = Inr o'"
    using unfold False agg g reason by (cases "payin_transition (sg_state g) (ev_Type ev)") simp_all
  have rest: "(case o' of None \<Rightarrow> Inr s | Some (st', command) \<Rightarrow>
        let now = env_now e; s1 = set_saga (ev_AggregateID ev) st' (payin_deadline c st' now) reason now s
        in if command = '''' then Inr s1
           else payin_enqueueCommand e 0 (ev_AggregateID ev) (ev_ID ev) command now s1) = Inr s'"
    using unfold False agg g reason tr by simp
  show thesis
  proof (cases o')
    case None
    with rest g tr show thesis by (intro that(3)) simp_all
  next
    case (Some p)
    obtain st' command where o': "o' = Some (st', command)" using Some by (cases p) auto
    let ?s1 = "set_saga (ev_AggregateID ev) st' (payin_deadline c st' (env_now e)) reason (env_now e) s"
    show thesis
    proof (cases "command = ''''")
      case True
      have "s' = ?s1\<lparr>outbox := outbox s @ [], outbox_seq := outbox_seq s\<rparr>"
        using rest True by (auto simp: o' Let_def set_saga_def)
      moreover have "store_ok s \<longrightarrow> store_ok s'"
        using rest True store_ok_set_saga by (auto simp: o' Let_def)
      ultimately show thesis using g tr True by (intro that(4)) (auto simp: o')
    next
      case False
      with rest have enq: "payin_enqueueCommand e 0 (ev_AggregateID ev) (ev_ID ev) command (env_now e) ?s1 = Inr s'"
        by (simp add: o' Let_def)
      with payin_enqueueCommand_Inr obtain r where
        "s' = ?s1\<lparr>outbox := outbox s @ [r], outbox_seq := Suc (outbox_seq s)\<rparr>" "command_row (ev_AggregateID ev) command r"
        by fastforce
      with g tr False payin_enqueueCommand_keeps [OF enq] store_ok_set_saga show thesis
        by (intro that(4)) (auto simp: o')
    qed
  qed
qed

lemma payin_Handle_keeps [store_keeps]:
  assumes "payin_Handle c e ev s = Inr s'" and "store_ok s"
  shows "store_ok s'"
  using assms(1) by (cases rule: payin_Handle_cases) (use assms(2) in blast)+

text \<open>Row by row: what an event does to the saga table.\<close>

lemma payin_Handle_find:
  assumes "payin_Handle c e ev s = Inr s'" and "store_ok s" and "find_saga i s = Some g"
  shows "find_saga i s' = Some g \<or> (\<exists>st' command reason. i = ev_AggregateID ev \<and> sg_direction g = PaymentDirectionPayin \<and>
     payin_transition (sg_state g) (ev_Type ev) = Inr (Some (st', command)) \<and>
     find_saga i s' = Some (moved st' (payin_deadline c st' (env_now e)) reason (env_now e) g))"
  using assms(1)
proof (cases rule: payin_Handle_cases)
  case (started r)
  with assms(3) show ?thesis by (simp add: find_saga_def find_append)
next
  case (fired g' reason st' command new seq)
  from fired(1) find_payin_saga_Some [OF assms(2)] have "find_saga (ev_AggregateID ev) s = Some g'"
    "sg_direction g' = PaymentDirectionPayin" by auto
  with fired(2,3) assms(3) show ?thesis by auto
qed (use assms in auto)

lemma payin_Handle_sagas_ok:
  assumes "payin_Handle c e ev s = Inr s'" and "payin_sagas_ok s" and "store_ok s"
  shows "payin_sagas_ok s'"
  using assms(1)
proof (cases rule: payin_Handle_cases)
  case (started r)
  with assms(2) show ?thesis
    by (simp add: payin_sagas_ok_def payin_row_ok_def payin_states_def payin_active_def)
next
  case (fired g reason st' command new seq)
  from fired(1) find_payin_saga_Some [OF assms(3)] have g: "find_saga (ev_AggregateID ev) s = Some g"
    "sg_direction g = PaymentDirectionPayin" by auto
  then have "sg_state g \<in> payin_states"
    using assms(2) by (auto simp: payin_sagas_ok_def payin_row_ok_def list_all_iff dest: find_saga_payment)
  with fired(2) have "st' \<in> payin_states" by (metis payin_transition_states)
  with assms(2) payin_deadline_active [of c st' "env_now e"] show ?thesis
    unfolding payin_sagas_ok_def fired(3)
    by (auto simp: set_saga_sagas list_all_iff set_update_where payin_row_ok_def)
qed (use assms in auto)

lemma payin_claim_memb:
  "g \<in> set (payin_claim c now locked s) \<Longrightarrow> g \<in> set (sagas s) \<and> overdue now g \<and> payin_active (sg_state g) \<and>
     sg_direction g = PaymentDirectionPayin"
  unfolding payin_claim_def by (auto dest!: in_set_takeD)

lemma payin_claim_distinct:
  assumes "store_ok s"
  shows "distinct (map sg_payment (payin_claim c now locked s))"
proof -
  let ?f = "filter (\<lambda>g. has_payin (sg_payment g) s \<and> sg_direction g = PaymentDirectionPayin \<and> overdue now g \<and>
        payin_active (sg_state g) \<and> \<not> locked (sg_payment g)) (sagas s)"
  have "distinct (map sg_payment ?f)"
    using assms by (intro distinct_map_filter) (simp add: store_ok_def sagas_ok_def)
  then have "distinct (map sg_payment (sort_key deadline_key ?f))" by (simp add: distinct_map)
  then show ?thesis by (simp add: payin_claim_def take_map [symmetric])
qed

lemma payin_ExpireOnce_Inr:
  assumes "payin_ExpireOnce c e locked s = Inr (n, s')"
  shows "n = length (payin_claim c (env_now e) locked s) \<and>
    foldE (payin_expire_step c e) (List.enumerate 0 (payin_claim c (env_now e) locked s)) s = Inr s'"
  using assms by (auto simp: payin_ExpireOnce_def Let_def result_simps)

lemma payin_ExpireOnce_keeps [store_keeps]:
  "payin_ExpireOnce c e locked s = Inr (n, s') \<Longrightarrow> store_ok s \<Longrightarrow> store_ok s'"
  using payin_ExpireOnce_Inr payin_round.loop_keeps by blast

lemma payin_ExpireOnce_find:
  assumes "payin_ExpireOnce c e locked s = Inr (n, s')" and "store_ok s" and "find_saga i s = Some g"
  shows "find_saga i s' = Some (if g \<in> set (payin_claim c (env_now e) locked s) then rescheduled c e g g else g)"
proof -
  let ?items = "payin_claim c (env_now e) locked s"
  note find = payin_round.loop_find [OF conjunct2 [OF payin_ExpireOnce_Inr [OF assms(1)]] payin_claim_distinct [OF assms(2)], of i]
  note key = find_key_Some_iff [OF payin_claim_distinct [OF assms(2), of c "env_now e" locked], of i]
  have i: "sg_payment g = i" using find_saga_payment [OF assms(3)] by simp
  show ?thesis
  proof (cases "g \<in> set ?items")
    case True
    with key [of g] i have "List.find (\<lambda>h. sg_payment h = i) ?items = Some g" by blast
    with True find assms(3) show ?thesis by simp
  next
    case False
    have "List.find (\<lambda>h. sg_payment h = i) ?items = None"
    proof (rule ccontr)
      assume "List.find (\<lambda>h. sg_payment h = i) ?items \<noteq> None"
      then obtain h where h: "h \<in> set ?items" "sg_payment h = i" using key by auto
      with payin_claim_memb find_saga_unique [OF assms(2)] assms(3) have "h = g" by fastforce
      with False h show False by simp
    qed
    with find assms(3) False show ?thesis by simp
  qed
qed

lemma payin_ExpireOnce_sagas_ok:
  assumes "payin_ExpireOnce c e locked s = Inr (n, s')" and "payin_sagas_ok s" and "store_ok s"
  shows "payin_sagas_ok s'"
proof -
  note ok' = payin_ExpireOnce_keeps [OF assms(1,3)]
  have keys: "map sg_payment (sagas s') = map sg_payment (sagas s)"
  proof (rule foldE_invariant [where P = "\<lambda>t. map sg_payment (sagas t) = map sg_payment (sagas s)"])
    show "foldE (payin_expire_step c e) (List.enumerate 0 (payin_claim c (env_now e) locked s)) s = Inr s'"
      using payin_ExpireOnce_Inr [OF assms(1)] by blast
  next
    fix x t t' assume "map sg_payment (sagas t) = map sg_payment (sagas s)" "payin_expire_step c e x t = Inr t'"
    then show "map sg_payment (sagas t') = map sg_payment (sagas s)"
      by (auto simp: payin_expire_step_def map_update_where split: prod.splits dest!: payin_enqueueCommand_Inr)
  qed simp
  have "payin_row_ok g'" if g': "g' \<in> set (sagas s')" "sg_direction g' = PaymentDirectionPayin" for g'
  proof -
    have "sg_payment g' \<in> set (map sg_payment (sagas s))" using g'(1) keys by (metis image_eqI set_map)
    then obtain g where g: "g \<in> set (sagas s)" "sg_payment g = sg_payment g'" by auto
    have "Some g' = Some (if g \<in> set (payin_claim c (env_now e) locked s) then rescheduled c e g g else g)"
      unfolding find_saga_unique [OF ok' g'(1), symmetric]
      by (rule payin_ExpireOnce_find [OF assms(1,3)]) (use find_saga_unique [OF assms(3) g(1)] g(2) in simp)
    then have g'_is: "g' = (if g \<in> set (payin_claim c (env_now e) locked s) then rescheduled c e g g else g)"
      by (rule option.inject [THEN iffD1])
    have "sg_direction g = sg_direction g'" unfolding g'_is by simp
    with g'(2) g(1) assms(2) have "payin_row_ok g" by (simp add: payin_sagas_ok_def list_all_iff)
    with payin_claim_memb [of g] show ?thesis unfolding g'_is by (simp add: payin_row_ok_def)
  qed
  then show ?thesis by (simp add: payin_sagas_ok_def list_all_iff)
qed

subsection \<open>Properties\<close>

text \<open>The states a pay-in saga can reach are exactly eight, whatever events arrive.\<close>

theorem payin_saga_reachable_states: "payin_reach st = (st \<in> payin_states)"
proof
  assume "payin_reach st"
  then show "st \<in> payin_states"
    by induction (auto dest: payin_transition_states simp: payin_states_def)
next
  note fire = payin_reach.event [unfolded payin_transition_def]
  have execution: "payin_reach StateAwaitingExecution" by (rule fire [OF start, of "''payin.policy.approved''"]) simp
  have processing: "payin_reach StateProcessing" by (rule fire [OF execution, of "''payin.processing''"]) simp
  have hold: "payin_reach StateOnHold" by (rule fire [OF execution, of "''payin.on_hold''"]) simp
  have ledger: "payin_reach StateAwaitingLedger" by (rule fire [OF hold, of "''payin.received''"]) simp
  have completed: "payin_reach StateCompleted" by (rule fire [OF ledger, of "''payin.succeeded''"]) simp
  have failed: "payin_reach StateFailed" by (rule fire [OF start, of "''payin.failed''"]) simp
  have refunded: "payin_reach StateRefunded" by (rule fire [OF completed, of "''payin.refunded''"]) simp
  assume "st \<in> payin_states"
  then show "payin_reach st"
    using start execution processing hold ledger completed failed refunded by (auto simp: payin_states_def)
qed

text \<open>
  Events and timeouts keep every pay-in saga in a reachable state, with a deadline exactly in the
  states that wait for something.
\<close>

theorem payin_saga_invariant:
  assumes "store_ok s" and "payin_sagas_ok s"
    and "payin_Handle c e ev s = Inr s' \<or> payin_ExpireOnce c e locked s = Inr (n, s')"
  shows "store_ok s' \<and> payin_sagas_ok s'"
  using assms payin_Handle_keeps payin_Handle_sagas_ok payin_ExpireOnce_keeps payin_ExpireOnce_sagas_ok by metis

definition sample_payin_saga :: "State \<Rightarrow> time option \<Rightarrow> saga_row" where
  "sample_payin_saga st d = \<lparr>sg_payment = ''p1'', sg_direction = PaymentDirectionPayin, sg_state = st,
     sg_deadline = d, sg_failure = None, sg_created_at = 1, sg_updated_at = 1\<rparr>"

definition sample_payin :: payin_row where
  "sample_payin = \<lparr>pi_payment = ''p1'', pi_quote = None, pi_tenant = ''t1'', pi_idempotency_key = ''k1'',
     pi_method = ''ach'', pi_source = None, pi_destination = ''w1'', pi_source_amount = 100,
     pi_source_currency = ''USD'', pi_destination_amount = 99, pi_destination_currency = ''USDC'',
     pi_provider = ''mock'', pi_provider_payin = None, pi_status = ''received'',
     pi_reconciliation = Unmatched, pi_instructions = RawEmpty, pi_payload = RawEmpty, pi_failure = None,
     pi_created_at = 1, pi_updated_at = 1\<rparr>"

definition sample_payin_db :: "State \<Rightarrow> time option \<Rightarrow> db" where
  "sample_payin_db st d = (sample_db PaymentStatusProcessing)
     \<lparr>sagas := [sample_payin_saga st d], payins := [sample_payin]\<rparr>"

definition sample_payin_event :: "string \<Rightarrow> event" where
  "sample_payin_event ty = \<lparr>ev_ID = ''ev1'', ev_Type = ty, ev_Version = 1, ev_AggregateID = ''p1'',
     ev_AggregateType = ''payin'', ev_OccurredAt = 5, ev_Payload = Raw (JObj [(''reason'', JStr '''')])\<rparr>"

lemma sample_payin_db_ok: "store_ok (sample_payin_db st d)"
  using sample_db_ok [of PaymentStatusProcessing]
  by (simp add: sample_payin_db_def sample_payin_saga_def sample_payin_def ledger_ok_def store_ok_def has_defs
      sagas_ok_def payins_ok_def unique_some_def List.map_filter_def payin_status_ok_def)

theorem payin_saga_invariant_witness:
  "\<exists>s'. payin_Handle payin_NewSagaCoordinator sample_env (sample_payin_event ''payin.received'')
     (sample_payin_db StateProcessing (Some 900)) = Inr s' \<and> payin_sagas_ok s' \<and>
     map_option sg_state (find_saga ''p1'' s') = Some StateAwaitingLedger"
proof -
  let ?run = "payin_Handle payin_NewSagaCoordinator sample_env (sample_payin_event ''payin.received'')
     (sample_payin_db StateProcessing (Some 900))"
  have "\<exists>s'. ?run = Inr s'" by (rule not_isl_Inr) code_simp
  then obtain s' where s': "?run = Inr s'" ..
  have "payin_sagas_ok (sample_payin_db StateProcessing (Some 900))" by code_simp
  from payin_saga_invariant [OF sample_payin_db_ok this disjI1 [OF s']] have "payin_sagas_ok s'" by simp
  moreover have "(case ?run of Inl _ \<Rightarrow> None | Inr t \<Rightarrow> map_option sg_state (find_saga ''p1'' t)) = Some StateAwaitingLedger"
    by code_simp
  ultimately show ?thesis using s' by simp
qed

text \<open>
  The outcome of a pay-in is stable: a failed or refunded saga stays failed or refunded, and a
  completed one can only become refunded, whatever arrives later and in whatever order.
\<close>

theorem payin_outcome_stable:
  assumes "store_ok s" and "find_saga i s = Some g"
    and "payin_Handle c e ev s = Inr s' \<or> payin_ExpireOnce c e locked s = Inr (n, s')"
  shows "\<exists>g'. find_saga i s' = Some g' \<and>
    (sg_state g \<in> {StateFailed, StateRefunded} \<longrightarrow> sg_state g' = sg_state g) \<and>
    (sg_state g = StateCompleted \<longrightarrow> sg_state g' \<in> {StateCompleted, StateRefunded})"
  using assms(3)
proof
  assume "payin_Handle c e ev s = Inr s'"
  from payin_Handle_find [OF this assms(1,2)] show ?thesis
    by (auto simp: payin_transition_def split: if_splits)
next
  assume "payin_ExpireOnce c e locked s = Inr (n, s')"
  from payin_ExpireOnce_find [OF this assms(1,2)] show ?thesis by simp
qed

theorem payin_outcome_stable_witness:
  "\<exists>s' g'. payin_Handle payin_NewSagaCoordinator sample_env (sample_payin_event ''payin.failed'')
     (sample_payin_db StateCompleted None) = Inr s' \<and> find_saga ''p1'' s' = Some g' \<and>
     sg_state g' \<in> {StateCompleted, StateRefunded}"
proof -
  let ?run = "payin_Handle payin_NewSagaCoordinator sample_env (sample_payin_event ''payin.failed'')
     (sample_payin_db StateCompleted None)"
  have "\<exists>s'. ?run = Inr s'" by (rule not_isl_Inr) code_simp
  then obtain s' where s': "?run = Inr s'" ..
  have "find_saga ''p1'' (sample_payin_db StateCompleted None) = Some (sample_payin_saga StateCompleted None)" by code_simp
  from payin_outcome_stable [OF sample_payin_db_ok this disjI1 [OF s']] s' show ?thesis
    by (auto simp: sample_payin_saga_def)
qed

text \<open>
  A timeout round of the pay-in worker always succeeds with a working random source; it gives
  every claimed saga a new deadline, keeps its state, and leaves every other saga alone.
\<close>

theorem payin_expire_round:
  assumes "store_ok s" and "fresh_draws e s"
  shows "\<exists>s'. payin_ExpireOnce c e locked s = Inr (length (payin_claim c (env_now e) locked s), s') \<and>
    length (payin_claim c (env_now e) locked s) \<le> k_timeoutBatchSize c \<and>
    (\<forall>g\<in>set (payin_claim c (env_now e) locked s).
       find_saga (sg_payment g) s' = Some (rescheduled c e g g) \<and>
       sg_deadline (rescheduled c e g g) = Some (env_now e + k_operationTimeout c)) \<and>
    (\<forall>i. i \<notin> sg_payment ` set (payin_claim c (env_now e) locked s) \<longrightarrow> find_saga i s' = find_saga i s)"
proof -
  let ?items = "payin_claim c (env_now e) locked s"
  have "set ?items \<subseteq> set (sagas s)" using payin_claim_memb by blast
  from payin_round.round [OF assms this payin_claim_distinct [OF assms(1)], of c] show ?thesis
    by (auto simp: payin_ExpireOnce_def Let_def payin_claim_def)
qed

theorem payin_expire_round_witness:
  "\<exists>s'. payin_ExpireOnce payin_NewSagaCoordinator sample_env (\<lambda>_. False) (sample_payin_db StateProcessing (Some 900)) = Inr (1, s') \<and>
     map_option sg_deadline (find_saga ''p1'' s') = Some (Some (1000 + 10 * Minute))"
proof -
  let ?s = "sample_payin_db StateProcessing (Some 900)" and ?g = "sample_payin_saga StateProcessing (Some 900)"
  have fresh: "fresh_draws sample_env ?s"
    by (rule sample_env_fresh) (simp add: sample_payin_db_def sample_db_def empty_db_def)
  have claim: "payin_claim payin_NewSagaCoordinator (env_now sample_env) (\<lambda>_. False) ?s = [?g]" by code_simp
  have row: "sg_payment ?g = ''p1''" "env_now sample_env + k_operationTimeout payin_NewSagaCoordinator = 1000 + 10 * Minute"
    by code_simp+
  from payin_expire_round [OF sample_payin_db_ok fresh, where locked = "\<lambda>_. False" and c = payin_NewSagaCoordinator]
  show ?thesis unfolding claim using row by auto
qed

end
