(* ===== verification/Payout_Service.thy ===== *)
theory Payout_Service
  imports Saga_Core
begin

text \<open>
  The payout service (\<^verbatim>\<open>paymentcore/payout\<close>: \<^verbatim>\<open>quote.go\<close>, \<^verbatim>\<open>create.go\<close>, \<^verbatim>\<open>execute.go\<close>, \<^verbatim>\<open>result.go\<close>,
  \<^verbatim>\<open>refund.go\<close>, \<^verbatim>\<open>events.go\<close>). The settlement provider is a parameter: a record of functions from requests
  to responses, one response per call. Operations that commit part of their work before they fail
  return the database beside the result.
\<close>

subsection \<open>Quotes\<close>

record PayoutQuoteRequest = QuoteRequest +
  qr_SourceAccountID :: string
  qr_DestinationInstrumentID :: string

definition PayoutQuoteRequest_Validate :: "PayoutQuoteRequest \<Rightarrow> unit result" where
  "PayoutQuoteRequest_Validate r =
     (if qr_IdempotencyKey r = '''' \<or> qr_TenantID r = '''' \<or> qr_FundingMethod r = '''' \<or>
         qr_SourceAccountID r = '''' \<or> qr_DestinationInstrumentID r = '''' \<or> qr_SourceCurrency r = '''' \<or>
         qr_DestinationCurrency r = '''' \<or> qr_AmountMinor r \<le> 0 \<or>
         (qr_CurrencyType r \<noteq> ''sender'' \<and> qr_CurrencyType r \<noteq> ''receiver'')
      then Inl (ErrText ''payout quote identity, funding method, route, currencies, positive amount, and valid currency type are required'')
      else Inr ())"

record PayoutProvider =
  pp_Name :: string
  pp_CreatePayoutQuote :: "PayoutQuoteRequest \<Rightarrow> ProviderQuote result"
  pp_ExecutePayout :: "ExecuteRequest \<Rightarrow> ExecutionResult result"

definition payout_NewService :: "PayoutProvider \<Rightarrow> PayoutProvider \<Rightarrow> (PayoutProvider \<times> PayoutProvider) result" where
  "payout_NewService quoteProvider executionProvider =
     (if pp_Name quoteProvider \<noteq> pp_Name executionProvider
      then Inl (ErrText ''payout quote and execution providers must match'')
      else Inr (quoteProvider, executionProvider))"

record Quote =
  qt_Direction :: string
  qt_ID :: string
  qt_Provider :: string
  qt_ProviderQuoteID :: string
  qt_Status :: QuoteStatus
  qt_SourceCurrency :: string
  qt_DestinationCurrency :: string
  qt_SenderAmountMinor :: int
  qt_ReceiverAmountMinor :: int
  qt_CommercialRate :: string
  qt_ProviderRate :: string
  qt_FlatFeeMinor :: int
  qt_PartnerFeeMinor :: int
  qt_BillingFeeMinor :: "int option"
  qt_ExpiresAt :: time
  qt_Payload :: raw

text \<open>Reading a nullable column into a Go string or integer fails on NULL.\<close>

definition scan :: "'a option \<Rightarrow> 'a result" where
  "scan v = (case v of None \<Rightarrow> Inl (ErrText ''sql: Scan error'') | Some x \<Rightarrow> Inr x)"

lemma scan_Inr [result_simps]: "scan v = Inr x \<longleftrightarrow> v = Some x"
  by (auto simp: scan_def split: option.splits)

definition scan_payout_quote :: "quote_row \<Rightarrow> Quote result" where
  "scan_payout_quote q =
     bindE (scan (q_commercial_rate q)) (\<lambda>commercial.
     bindE (scan (q_provider_rate q)) (\<lambda>provider.
     bindE (scan (q_flat_fee q)) (\<lambda>flat.
     bindE (scan (q_partner_fee q)) (\<lambda>partner.
       Inr \<lparr>qt_Direction = ''payout'', qt_ID = q_id q, qt_Provider = q_provider q,
         qt_ProviderQuoteID = q_provider_quote_id q, qt_Status = q_status q,
         qt_SourceCurrency = q_source_currency q, qt_DestinationCurrency = q_destination_currency q,
         qt_SenderAmountMinor = q_sender_amount q, qt_ReceiverAmountMinor = q_receiver_amount q,
         qt_CommercialRate = commercial, qt_ProviderRate = provider, qt_FlatFeeMinor = flat,
         qt_PartnerFeeMinor = partner, qt_BillingFeeMinor = q_billing_fee q,
         qt_ExpiresAt = q_expires_at q, qt_Payload = q_payload q\<rparr>))))"

text \<open>The encoding of a provider quote that stands in for a missing payload.\<close>

definition quote_json :: "ProviderQuote \<Rightarrow> json" where
  "quote_json r = JObj [(''ProviderQuoteID'', JStr (pq_ProviderQuoteID r)),
     (''SourceCurrency'', JStr (pq_SourceCurrency r)), (''DestinationCurrency'', JStr (pq_DestinationCurrency r)),
     (''SenderAmountMinor'', JNum (pq_SenderAmountMinor r)), (''ReceiverAmountMinor'', JNum (pq_ReceiverAmountMinor r)),
     (''CommercialRate'', JStr (pq_CommercialRate r)), (''ProviderRate'', JStr (pq_ProviderRate r)),
     (''FlatFeeMinor'', JNum (pq_FlatFeeMinor r)), (''PartnerFeeMinor'', JNum (pq_PartnerFeeMinor r)),
     (''BillingFeeMinor'', (case pq_BillingFeeMinor r of None \<Rightarrow> JNull | Some f \<Rightarrow> JNum f)),
     (''ExpiresAt'', at_json (pq_ExpiresAt r)), (''Payload'', raw_json (pq_Payload r)),
     (''ExecutionContext'', raw_json (pq_ExecutionContext r))]"

definition or_raw :: "raw \<Rightarrow> json \<Rightarrow> raw" where
  "or_raw r j = (if r = RawEmpty then Raw j else r)"

definition find_quote :: "PaymentDirection \<Rightarrow> string \<Rightarrow> db \<Rightarrow> quote_row option" where
  "find_quote d i s = List.find (\<lambda>q. q_direction q = d \<and> q_id q = i) (quotes s)"

definition quote_by_key :: "PaymentDirection \<Rightarrow> string \<Rightarrow> string \<Rightarrow> db \<Rightarrow> quote_row option" where
  "quote_by_key d tenant key s =
     List.find (\<lambda>q. q_direction q = d \<and> q_tenant q = tenant \<and> q_idempotency_key q = key) (quotes s)"

definition quote_request_matches :: "PayoutQuoteRequest \<Rightarrow> quote_row \<Rightarrow> bool" where
  "quote_request_matches r q \<longleftrightarrow> q_source q = Some (qr_SourceAccountID r) \<and>
     q_destination q = qr_DestinationInstrumentID r \<and> q_method q = qr_FundingMethod r \<and>
     q_source_currency q = qr_SourceCurrency r \<and> q_destination_currency q = qr_DestinationCurrency r \<and>
     q_currency_type q = qr_CurrencyType r \<and> q_cover_fees q = qr_CoverFees r \<and>
     q_request_amount q = qr_AmountMinor r"

text \<open>The columns of \<^verbatim>\<open>payment_quotes\<close> are JSONB: a payload that is no JSON document is refused.\<close>

definition payout_CreateQuote ::
  "PayoutProvider \<Rightarrow> env \<Rightarrow> PayoutQuoteRequest \<Rightarrow> db \<Rightarrow> (Quote \<times> db) result" where
  "payout_CreateQuote provider e r s =
     bindE (PayoutQuoteRequest_Validate r) (\<lambda>_.
       case quote_by_key PaymentDirectionPayout (qr_TenantID r) (qr_IdempotencyKey r) s of
         Some q \<Rightarrow>
           bindE (scan_payout_quote q) (\<lambda>existing.
           bindE (scan (q_source q)) (\<lambda>_.
             if \<not> quote_request_matches r q then Inl ErrQuoteIdempotencyConflict else Inr (existing, s)))
       | None \<Rightarrow>
           bindE (pp_CreatePayoutQuote provider r) (\<lambda>res.
             if pq_ProviderQuoteID res = '''' \<or> pq_SourceCurrency res = '''' \<or> pq_DestinationCurrency res = '''' \<or>
                pq_SenderAmountMinor res \<le> 0 \<or> pq_ReceiverAmountMinor res \<le> 0 \<or> pq_ExpiresAt res \<le> env_now e
             then Inl (ErrText ''provider returned an invalid payout quote'')
             else bindE (newID ''pqi_'' 0 e) (\<lambda>i.
               let payload = or_raw (pq_Payload res) (quote_json res);
                   context = or_raw (pq_ExecutionContext res) (JObj []);
                   now = env_now e
               in if \<not> json_Valid payload \<or> \<not> json_Valid context then Inl (ErrConstraint ''payment_quotes'')
                  else bindE (insert_quote \<lparr>q_id = i, q_direction = PaymentDirectionPayout, q_provider = pp_Name provider,
                    q_provider_quote_id = pq_ProviderQuoteID res, q_tenant = qr_TenantID r,
                    q_idempotency_key = qr_IdempotencyKey r, q_source = Some (qr_SourceAccountID r),
                    q_destination = qr_DestinationInstrumentID r, q_method = qr_FundingMethod r,
                    q_source_currency = pq_SourceCurrency res, q_destination_currency = pq_DestinationCurrency res,
                    q_currency_type = qr_CurrencyType r, q_cover_fees = qr_CoverFees r,
                    q_request_amount = qr_AmountMinor r, q_sender_amount = pq_SenderAmountMinor res,
                    q_receiver_amount = pq_ReceiverAmountMinor res, q_commercial_rate = Some (pq_CommercialRate res),
                    q_provider_rate = Some (pq_ProviderRate res), q_flat_fee = Some (pq_FlatFeeMinor res),
                    q_partner_fee = Some (pq_PartnerFeeMinor res), q_billing_fee = pq_BillingFeeMinor res,
                    q_status = QuoteOpen, q_expires_at = pq_ExpiresAt res, q_payload = payload,
                    q_execution_context = context, q_payment = None, q_created_at = now, q_updated_at = now\<rparr> s) (\<lambda>s1.
                    Inr (\<lparr>qt_Direction = ''payout'', qt_ID = i, qt_Provider = pp_Name provider,
                      qt_ProviderQuoteID = pq_ProviderQuoteID res, qt_Status = QuoteOpen,
                      qt_SourceCurrency = pq_SourceCurrency res, qt_DestinationCurrency = pq_DestinationCurrency res,
                      qt_SenderAmountMinor = pq_SenderAmountMinor res, qt_ReceiverAmountMinor = pq_ReceiverAmountMinor res,
                      qt_CommercialRate = pq_CommercialRate res, qt_ProviderRate = pq_ProviderRate res,
                      qt_FlatFeeMinor = pq_FlatFeeMinor res, qt_PartnerFeeMinor = pq_PartnerFeeMinor res,
                      qt_BillingFeeMinor = pq_BillingFeeMinor res, qt_ExpiresAt = pq_ExpiresAt res,
                      qt_Payload = payload\<rparr>, s1)))))"

subsection \<open>Events\<close>

text \<open>\<open>None\<close> is the panic of the default branch.\<close>

definition paymentEventVersion :: "string \<Rightarrow> int option" where
  "paymentEventVersion ty =
     (if ty \<in> {''payment.created'', ''payment.processing'', ''payment.succeeded''} then Some SchemaVersion else None)"

definition payoutEventVersion :: "string \<Rightarrow> int option" where
  "payoutEventVersion ty =
     (if ty \<in> {''payout.created'', ''payout.submitted'', ''payout.completed''} then Some SchemaVersion else None)"

definition workflow_type :: "string \<Rightarrow> string" where
  "workflow_type ty = (if ty = ''payment.created'' then ''payout.created''
     else if ty = ''payment.processing'' then ''payout.submitted''
     else if ty = ''payment.succeeded'' then ''payout.completed'' else '''')"

definition or_panic :: "'a option \<Rightarrow> 'a result" where
  "or_panic v = (case v of None \<Rightarrow> Inl (ErrText ''panic'') | Some x \<Rightarrow> Inr x)"

lemma or_panic_Inr [result_simps]: "or_panic v = Inr x \<longleftrightarrow> v = Some x"
  by (auto simp: or_panic_def split: option.splits)

definition enqueue_state_event :: "env \<Rightarrow> nat \<Rightarrow> string \<Rightarrow> string \<Rightarrow> raw \<Rightarrow> time \<Rightarrow> db \<Rightarrow> db result" where
  "enqueue_state_event e k payment ty payload now s =
     (let workflowType = workflow_type ty in
      if workflowType = '''' then Inl (ErrText ''unknown payout state event type'')
      else bindE (newID ''evt_'' k e) (\<lambda>workflowID.
           bindE (newID ''evt_'' (Suc k) e) (\<lambda>publicID.
           bindE (or_panic (payoutEventVersion workflowType)) (\<lambda>v1.
           bindE (insert_outbox (new_outbox workflowID PayoutEventsTopic workflowType v1 payment ''payout'' payload now) s) (\<lambda>s1.
           bindE (or_panic (paymentEventVersion ty)) (\<lambda>v2.
             insert_outbox (new_outbox publicID PaymentEventsTopic ty v2 payment ''payment'' payload now) s1))))))"

definition enqueueProviderResult ::
  "string \<Rightarrow> string \<Rightarrow> string \<Rightarrow> string \<Rightarrow> time \<Rightarrow> db \<Rightarrow> db result" where
  "enqueueProviderResult payment commandEventID ty reason now s =
     (let version = version_in [''payout.provider_completed'', ''payout.provider_failed'',
            ''payout.provider_returned'', ''payout.on_hold''] ty
      in if version = 0 then Inl (ErrText ''unsupported payout provider event'')
         else insert_outbox_once (new_outbox (commandEventID @ '':result'') PayoutEventsTopic ty version payment ''payout''
                (Raw (JObj [(''caused_by_event_id'', JStr commandEventID), (''reason'', JStr reason)])) now) s)"

subsection \<open>Creating a payout payment\<close>

record CreatePaymentRequest =
  cp_ExternalReference :: string
  cp_Currency :: string
  cp_AmountMinor :: int
  cp_TenantID :: string
  cp_IdempotencyKey :: string
  cp_QuoteID :: string
  cp_FundingMethod :: string
  cp_SourceAccountID :: string
  cp_DestinationInstrumentID :: string

definition CreatePaymentRequest_Validate :: "CreatePaymentRequest \<Rightarrow> unit result" where
  "CreatePaymentRequest_Validate r =
     (if TrimSpace (cp_TenantID r) = '''' \<or> TrimSpace (cp_IdempotencyKey r) = '''' \<or>
         TrimSpace (cp_ExternalReference r) = ''''
      then Inl (ErrText ''tenant, idempotency key, and external reference are required'')
      else if length (TrimSpace (cp_Currency r)) < 3 \<or> 10 < length (TrimSpace (cp_Currency r)) \<or> cp_AmountMinor r \<le> 0
      then Inl (ErrText ''payout payments require currency and positive amount_minor'')
      else let direct = TrimSpace (cp_SourceAccountID r) \<noteq> '''' \<or> TrimSpace (cp_DestinationInstrumentID r) \<noteq> ''''
      in if TrimSpace (cp_QuoteID r) \<noteq> ''''
         then (if direct then Inl (ErrText ''payout quote and direct resource IDs cannot be combined'') else Inr ())
         else if TrimSpace (cp_FundingMethod r) = '''' \<or> TrimSpace (cp_SourceAccountID r) = '''' \<or>
                 TrimSpace (cp_DestinationInstrumentID r) = ''''
         then Inl (ErrText ''direct payout requires funding_method, source_account_id, and destination_instrument_id'')
         else Inr ())"

definition getPaymentByIdempotencyKey :: "string \<Rightarrow> db \<Rightarrow> Payment result" where
  "getPaymentByIdempotencyKey key s =
     (case List.find (\<lambda>p. pay_idempotency_key p = key) (payments s) of
        None \<Rightarrow> Inl ErrNoRows
      | Some p \<Rightarrow> Inr ((payment_of_row p)\<lparr>pm_QuoteID := quote_of_payment (pay_id p) s\<rparr>))"

definition paymentRequestMatches :: "Payment \<Rightarrow> string \<Rightarrow> string \<Rightarrow> int \<Rightarrow> string \<Rightarrow> string \<Rightarrow> bool" where
  "paymentRequestMatches p externalRef currency amount tenant quote \<longleftrightarrow>
     pm_ExternalReference p = externalRef \<and> pm_Currency p = currency \<and> pm_AmountMinor p = amount \<and>
     pm_TenantID p = tenant \<and> pm_QuoteID p = quote"

definition accept_quote :: "string \<Rightarrow> string \<Rightarrow> time \<Rightarrow> db \<Rightarrow> db result" where
  "accept_quote quote payment now s =
     (if affected (\<lambda>q. q_id q = quote \<and> q_status q = QuoteOpen) (quotes s) \<noteq> 1
      then Inl (ErrText ''payout quote already accepted'')
      else put_quotes (update_where (\<lambda>q. q_id q = quote \<and> q_status q = QuoteOpen)
             (\<lambda>q. q\<lparr>q_status := QuoteAccepted, q_payment := Some payment, q_updated_at := now\<rparr>) (quotes s)) s)"

definition expire_quote :: "string \<Rightarrow> time \<Rightarrow> db \<Rightarrow> db" where
  "expire_quote quote now s = s\<lparr>quotes := update_where (\<lambda>q. q_id q = quote \<and> q_status q = QuoteOpen)
     (\<lambda>q. q\<lparr>q_status := QuoteExpired, q_updated_at := now\<rparr>) (quotes s)\<rparr>"

definition new_payment_row :: "string \<Rightarrow> PaymentDirection \<Rightarrow> string \<Rightarrow> string \<Rightarrow> int \<Rightarrow> string \<Rightarrow> string \<Rightarrow> time \<Rightarrow> payment_row" where
  "new_payment_row i direction externalRef currency amount tenant key now = \<lparr>pay_id = i,
     pay_direction = direction, pay_external_reference = externalRef, pay_currency = currency, pay_amount = amount,
     pay_tenant = tenant, pay_status = PaymentStatusCreated, pay_idempotency_key = key,
     pay_created_at = now, pay_updated_at = now\<rparr>"

text \<open>The writes of a new payment, inside the transaction, after the quote has been checked.\<close>

definition insert_payout_payment ::
  "env \<Rightarrow> CreatePaymentRequest \<Rightarrow> string \<Rightarrow> string \<Rightarrow> db \<Rightarrow> (Payment \<times> db) result" where
  "insert_payout_payment e r quote payment s =
     (let now = env_now e;
          row = new_payment_row payment PaymentDirectionPayout (cp_ExternalReference r) (cp_Currency r)
            (cp_AmountMinor r) (cp_TenantID r) (cp_IdempotencyKey r) now;
          a = \<lparr>au_payment = payment, au_event = ''created'', au_message = ''payment intent created'', au_at = now\<rparr>;
          t = \<lparr>tl_payment = payment, tl_status = PaymentStatusCreated, tl_note = ''payment created'', tl_at = now\<rparr>
      in bindE (insert_payment_once row s) (\<lambda>(s1, rows).
           if rows = 0
           then bindE (getPaymentByIdempotencyKey (cp_IdempotencyKey r) s1) (\<lambda>existing.
                  if \<not> paymentRequestMatches existing (cp_ExternalReference r) (cp_Currency r) (cp_AmountMinor r)
                        (cp_TenantID r) quote
                  then Inl ErrIdempotencyConflict else Inr (existing, s1))
           else bindE (accept_quote quote payment now s1) (\<lambda>s2.
                bindE (History_Record a t s2) (\<lambda>s3.
                bindE (enqueue_state_event e 2 payment ''payment.created''
                        (Raw (JObj [(''external_reference'', JStr (cp_ExternalReference r)),
                           (''currency'', JStr (cp_Currency r)), (''amount_minor'', JNum (cp_AmountMinor r)),
                           (''tenant_id'', JStr (cp_TenantID r)), (''payment_status'', JStr ''created'')])) now s3) (\<lambda>s4.
                  Inr ((payment_of_row row)\<lparr>pm_QuoteID := quote, pm_AuditLog := [a], pm_Timeline := [t]\<rparr>, s4))))))"

text \<open>
  The transaction of \<open>createPayout\<close>. An expired quote is marked and committed although the call fails, so
  the database is returned beside the result.
\<close>

definition createPayout_tx :: "env \<Rightarrow> CreatePaymentRequest \<Rightarrow> string \<Rightarrow> db \<Rightarrow> db \<times> Payment result" where
  "createPayout_tx e r quote s =
     (case newID ''pay_'' 1 e of
        Inl err \<Rightarrow> (s, Inl err)
      | Inr payment \<Rightarrow>
         (case find_quote PaymentDirectionPayout quote s of
            None \<Rightarrow> (s, Inl (ErrText ''payout quote not found''))
          | Some q \<Rightarrow>
             if q_status q = QuoteAccepted
             then (case getPaymentByIdempotencyKey (cp_IdempotencyKey r) s of
                     Inl err \<Rightarrow> (s, Inl (ErrText ''payout quote already accepted''))
                   | Inr existing \<Rightarrow>
                       (s, if paymentRequestMatches existing (cp_ExternalReference r) (cp_Currency r)
                                (cp_AmountMinor r) (cp_TenantID r) quote
                           then Inr existing else Inl ErrIdempotencyConflict))
             else if q_status q \<noteq> QuoteOpen \<or> q_expires_at q \<le> env_now e
             then (expire_quote quote (env_now e) s, Inl (ErrText ''payout quote expired''))
             else if q_tenant q \<noteq> cp_TenantID r \<or> q_source_currency q \<noteq> cp_Currency r \<or>
                     q_sender_amount q \<noteq> cp_AmountMinor r
             then (s, Inl (ErrText ''payment tenant, amount, or currency does not match payout quote''))
             else (case insert_payout_payment e r quote payment s of
                     Inl err \<Rightarrow> (s, Inl err)
                   | Inr (p, s') \<Rightarrow> (s', Inr p))))"

definition implicit_quote_request :: "CreatePaymentRequest \<Rightarrow> PayoutQuoteRequest" where
  "implicit_quote_request r = \<lparr>qr_IdempotencyKey = cp_IdempotencyKey r @ '':implicit-quote'',
     qr_TenantID = cp_TenantID r, qr_FundingMethod = cp_FundingMethod r, qr_SourceCurrency = cp_Currency r,
     qr_DestinationCurrency = cp_Currency r, qr_CurrencyType = ''sender'', qr_AmountMinor = cp_AmountMinor r,
     qr_CoverFees = False, qr_SourceAccountID = cp_SourceAccountID r,
     qr_DestinationInstrumentID = cp_DestinationInstrumentID r\<rparr>"

definition createPayout :: "PayoutProvider \<Rightarrow> env \<Rightarrow> CreatePaymentRequest \<Rightarrow> db \<Rightarrow> db \<times> Payment result" where
  "createPayout provider e r s =
     (if cp_QuoteID r = ''''
      then (case payout_CreateQuote provider e (implicit_quote_request r) s of
              Inl err \<Rightarrow> (s, Inl err)
            | Inr (q, s1) \<Rightarrow> createPayout_tx e r (qt_ID q) s1)
      else createPayout_tx e r (cp_QuoteID r) s)"

definition payout_CreatePayment :: "PayoutProvider \<Rightarrow> env \<Rightarrow> CreatePaymentRequest \<Rightarrow> db \<Rightarrow> db \<times> Payment result" where
  "payout_CreatePayment provider e r s =
     (case CreatePaymentRequest_Validate r of Inl err \<Rightarrow> (s, Inl err) | Inr _ \<Rightarrow> createPayout provider e r s)"

subsection \<open>Executing a payout\<close>

record attempt =
  at_request :: ExecuteRequest
  at_providerReference :: string
  at_providerStatus :: string
  at_new :: bool

definition find_payout :: "string \<Rightarrow> db \<Rightarrow> payout_row option" where
  "find_payout i s = List.find (\<lambda>r. po_payment r = i) (payouts s)"

definition loadExecutionRequest :: "string \<Rightarrow> db \<Rightarrow> (string \<times> string) result" where
  "loadExecutionRequest payment s =
     (case List.find (\<lambda>p. pay_id p = payment \<and> pay_direction p = PaymentDirectionPayout) (payments s) of
        None \<Rightarrow> Inl (ErrText ''payout payment not found'')
      | Some p \<Rightarrow> Inr (payment, pay_idempotency_key p))"

definition accepted_quote :: "PaymentDirection \<Rightarrow> string \<Rightarrow> string \<Rightarrow> db \<Rightarrow> quote_row option" where
  "accepted_quote d payment provider s =
     List.find (\<lambda>q. q_direction q = d \<and> q_payment q = Some payment \<and> q_provider q = provider \<and>
       q_status q = QuoteAccepted) (quotes s)"

definition payout_row_of :: "string \<Rightarrow> env \<Rightarrow> string \<Rightarrow> string \<Rightarrow> quote_row \<Rightarrow> string \<Rightarrow> payout_row" where
  "payout_row_of provider e payment key q source = \<lparr>po_payment = payment, po_quote = nullif (q_id q),
     po_tenant = q_tenant q, po_source = nullif source, po_destination = nullif (q_destination q),
     po_method = q_method q, po_source_amount = q_sender_amount q, po_source_currency = q_source_currency q,
     po_destination_amount = q_receiver_amount q, po_destination_currency = q_destination_currency q,
     po_provider = provider, po_provider_payout = None, po_status = ''submission_pending'',
     po_reconciliation = Unmatched, po_idempotency_key = key, po_payload = RawEmpty, po_last_error = None,
     po_created_at = env_now e, po_updated_at = env_now e, po_submitted_at = None\<rparr>"

lemma payout_row_of_sel [simp]:
  "po_payment (payout_row_of provider e i key q source) = i"
  "po_status (payout_row_of provider e i key q source) = ''submission_pending''"
  "po_provider_payout (payout_row_of provider e i key q source) = None"
  "po_idempotency_key (payout_row_of provider e i key q source) = key"
  by (simp_all add: payout_row_of_def)

definition prepare :: "string \<Rightarrow> env \<Rightarrow> string \<Rightarrow> string \<Rightarrow> db \<Rightarrow> (attempt \<times> db) result" where
  "prepare provider e payment key s =
     (case accepted_quote PaymentDirectionPayout payment provider s of
        None \<Rightarrow> Inl (ErrText ''payout payment has no accepted provider-resource quote'')
      | Some q \<Rightarrow>
          bindE (scan (q_source q)) (\<lambda>source.
          bindE (insert_payout_once (payout_row_of provider e payment key q source) s) (\<lambda>(s1, rows).
            let request = \<lparr>xr_IdempotencyKey = key, xr_ProviderQuoteID = q_provider_quote_id q\<rparr>
            in if rows = 1
               then Inr (\<lparr>at_request = request, at_providerReference = '''', at_providerStatus = '''', at_new = True\<rparr>, s1)
               else case find_payout payment s1 of
                      None \<Rightarrow> Inl ErrNoRows
                    | Some r \<Rightarrow>
                        if po_idempotency_key r \<noteq> key
                        then Inl (ErrText ''payment is already bound to a different payout idempotency key'')
                        else Inr (\<lparr>at_request = request, at_providerReference = coalesce (po_provider_payout r),
                               at_providerStatus = po_status r, at_new = False\<rparr>, s1))))"

definition persistedStatus :: "ExecutionResult \<Rightarrow> string" where
  "persistedStatus r =
     (case er_Status r of
        ExecutionSucceeded \<Rightarrow> ''completed''
      | ExecutionOnHold \<Rightarrow> ''on_hold''
      | ExecutionFailed \<Rightarrow>
          if TrimSpace (er_FailureCode r) \<in> {''refunded'', ''submission_failed''} then er_FailureCode r else ''failed''
      | _ \<Rightarrow> ''processing'')"

definition mapPersistedResult :: "string \<Rightarrow> string \<Rightarrow> ExecutionResult result" where
  "mapPersistedResult reference status =
     (let with = (\<lambda>st code. \<lparr>er_ProviderReference = reference, er_Status = st, er_FailureCode = code,
                      er_FailureMessage = '''', er_Payload = RawEmpty\<rparr>);
          checked = (\<lambda>r. bindE (ExecutionResult_Validate r) (\<lambda>_. Inr r))
      in if status = ''completed'' then checked (with ExecutionSucceeded '''')
         else if status \<in> {''processing'', ''submission_pending'', ''unknown''} then checked (with ExecutionPending '''')
         else if status = ''on_hold'' then checked (with ExecutionOnHold '''')
         else if status \<in> {''failed'', ''refunded'', ''submission_failed''} then checked (with ExecutionFailed status)
         else Inl (ErrText ''unsupported payout status''))"

definition open_submission :: "payout_row \<Rightarrow> bool" where
  "open_submission r \<longleftrightarrow> po_status r \<in> {''submission_pending'', ''unknown''}"

definition recordError :: "env \<Rightarrow> string \<Rightarrow> string \<Rightarrow> err \<Rightarrow> db \<Rightarrow> db result" where
  "recordError e payment status cause s =
     put_payouts (update_where (\<lambda>r. po_payment r = payment \<and> open_submission r)
       (\<lambda>r. r\<lparr>po_status := status, po_last_error := Some (err_text cause), po_updated_at := env_now e\<rparr>) (payouts s)) s"

definition result_json :: "ExecutionResult \<Rightarrow> json" where
  "result_json r = JObj [(''ProviderReference'', JStr (er_ProviderReference r)),
     (''Status'', JStr (execution_status_text (er_Status r))), (''FailureCode'', JStr (er_FailureCode r)),
     (''FailureMessage'', JStr (er_FailureMessage r)), (''Payload'', raw_json (er_Payload r))]"

definition recordResponse :: "env \<Rightarrow> string \<Rightarrow> ExecutionResult \<Rightarrow> db \<Rightarrow> db result" where
  "recordResponse e payment r s =
     (let payload = or_raw (er_Payload r) (result_json r) in
      if \<not> json_Valid payload then Inl (ErrText ''invalid input syntax for type json'')
      else put_payouts (update_where (\<lambda>p. po_payment p = payment \<and> open_submission p)
        (\<lambda>p. p\<lparr>po_provider_payout := Some (er_ProviderReference r), po_status := persistedStatus r, po_payload := payload,
               po_last_error := None, po_updated_at := env_now e, po_submitted_at := Some (env_now e)\<rparr>)
        (payouts s)) s)"

fun submission_failed :: "err \<Rightarrow> bool" where
  "submission_failed (ErrProvider p) = (\<not> pe_Retryable p)"
| "submission_failed e = False"

definition submit_payout :: "PayoutProvider \<Rightarrow> env \<Rightarrow> string \<Rightarrow> ExecuteRequest \<Rightarrow> db \<Rightarrow> db \<times> ExecutionResult result" where
  "submit_payout provider e payment request s =
     (case pp_ExecutePayout provider request of
        Inl err \<Rightarrow>
          let status = (if submission_failed err then ''submission_failed'' else ''unknown'')
          in (case recordError e payment status err s of
                Inl updateErr \<Rightarrow> (s, Inl err)
              | Inr s1 \<Rightarrow> (s1, Inl (if status = ''unknown'' then ErrSubmissionUnknown else err)))
      | Inr r \<Rightarrow>
         (case ExecutionResult_Validate r of
            Inl err \<Rightarrow> (s, Inl err)
          | Inr _ \<Rightarrow> (case recordResponse e payment r s of Inl err \<Rightarrow> (s, Inl err) | Inr s1 \<Rightarrow> (s1, Inr r))))"

definition executePayout :: "PayoutProvider \<Rightarrow> env \<Rightarrow> string \<times> string \<Rightarrow> db \<Rightarrow> db \<times> ExecutionResult result" where
  "executePayout provider e request s =
     (case request of (payment, key) \<Rightarrow>
        if payment = '''' \<or> key = '''' then (s, Inl (ErrText ''payout payment ID and idempotency key are required''))
        else (case prepare (pp_Name provider) e payment key s of
          Inl err \<Rightarrow> (s, Inl err)
        | Inr (a, s1) \<Rightarrow>
            if \<not> at_new a \<and> at_providerReference a \<noteq> ''''
            then (s1, mapPersistedResult (at_providerReference a) (at_providerStatus a))
            else if \<not> at_new a \<and> at_providerStatus a \<noteq> ''unknown'' then (s1, Inl ErrSubmissionUnknown)
            else submit_payout provider e payment (at_request a) s1))"

definition ExecutePayout :: "PayoutProvider \<Rightarrow> env \<Rightarrow> string \<Rightarrow> db \<Rightarrow> db \<times> ExecutionResult result" where
  "ExecutePayout provider e payment s =
     (case loadExecutionRequest payment s of
        Inl err \<Rightarrow> (s, Inl err) | Inr request \<Rightarrow> executePayout provider e request s)"

subsection \<open>Applying a provider result\<close>

definition result_event :: "ExecutionResult \<Rightarrow> (string \<times> string) result" where
  "result_event r =
     (case er_Status r of
        ExecutionOnHold \<Rightarrow> Inr (''payout.on_hold'', er_FailureMessage r)
      | ExecutionFailed \<Rightarrow>
          Inr (if er_FailureCode r = ''refunded'' then ''payout.provider_returned'' else ''payout.provider_failed'',
               if er_FailureMessage r = '''' then er_FailureCode r else er_FailureMessage r)
      | ExecutionSucceeded \<Rightarrow> Inr (''payout.provider_completed'', er_FailureMessage r)
      | _ \<Rightarrow> Inl (ErrText ''unsupported payout result status''))"

definition payout_ApplyResult ::
  "PayoutProvider \<Rightarrow> string \<Rightarrow> string \<Rightarrow> ExecutionResult \<Rightarrow> time \<Rightarrow> db \<Rightarrow> db result" where
  "payout_ApplyResult provider payment commandEventID r now s =
     (if payment = '''' \<or> commandEventID = '''' then Inl (ErrText ''payout payment and command event IDs are required'')
      else bindE (upsert_submission \<lparr>sub_payment = payment, sub_command = commandEventID,
                    sub_provider = pp_Name provider, sub_reference = nullif (er_ProviderReference r),
                    sub_status = execution_status_text (er_Status r), sub_failure_code = nullif (er_FailureCode r),
                    sub_failure_message = nullif (er_FailureMessage r), sub_created_at = now, sub_updated_at = now\<rparr> s) (\<lambda>s1.
           if er_Status r = ExecutionPending then Inr s1
           else bindE (result_event r) (\<lambda>(ty, reason).
             enqueueProviderResult payment commandEventID ty reason now s1)))"

subsection \<open>Refunds\<close>

record Refund =
  rfd_RefundPaymentID :: string
  rfd_OriginalPaymentID :: string
  rfd_Reason :: string
  rfd_CreatedAt :: time
  rfd_UpdatedAt :: time
  rfd_IdempotencyKey :: string

text \<open>The refund, its amount and its quote, for an idempotency key.\<close>

definition loadRefundByIdempotencyKey :: "string \<Rightarrow> string \<Rightarrow> db \<Rightarrow> (Refund \<times> int \<times> string) result" where
  "loadRefundByIdempotencyKey tenant key s =
     (case List.find (\<lambda>r. rf_tenant r = tenant \<and> rf_idempotency_key r = key \<and> has_payment (rf_payment r) s) (refunds s) of
        None \<Rightarrow> Inl ErrNoRows
      | Some r \<Rightarrow>
         (case find_payment (rf_payment r) s of
            None \<Rightarrow> Inl ErrNoRows
          | Some p \<Rightarrow> Inr (\<lparr>rfd_RefundPaymentID = rf_payment r, rfd_OriginalPaymentID = rf_original r,
              rfd_Reason = rf_reason r, rfd_CreatedAt = rf_created_at r, rfd_UpdatedAt = rf_updated_at r,
              rfd_IdempotencyKey = key\<rparr>, pay_amount p, quote_of_payment (rf_payment r) s)))"

definition refunded_amount :: "string \<Rightarrow> db \<Rightarrow> int" where
  "refunded_amount original s = sum_list (map rf_amount (filter (\<lambda>r. rf_original r = original \<and>
     (case status_of (rf_payment r) s of None \<Rightarrow> False | Some st \<Rightarrow> st \<noteq> PaymentStatusFailed)) (refunds s)))"

definition check_refund_quote :: "env \<Rightarrow> string \<Rightarrow> string \<Rightarrow> int \<Rightarrow> string \<Rightarrow> db \<Rightarrow> unit result" where
  "check_refund_quote e tenant currency amount quote s =
     (if quote = '''' then Inr () else
      case find_quote PaymentDirectionPayout quote s of
        None \<Rightarrow> Inl (ErrText ''payout quote not found'')
      | Some q \<Rightarrow>
          if q_status q \<noteq> QuoteOpen \<or> q_expires_at q \<le> env_now e
          then Inl (ErrText ''payout quote expired or already accepted'')
          else if q_tenant q \<noteq> tenant \<or> q_source_currency q \<noteq> currency \<or> q_sender_amount q \<noteq> amount
          then Inl (ErrText ''refund tenant, amount, or currency does not match payout quote'') else Inr ())"

text \<open>The writes of a new refund.\<close>

definition insert_refund_payment ::
  "env \<Rightarrow> payment_row \<Rightarrow> string \<Rightarrow> string \<Rightarrow> int \<Rightarrow> string \<Rightarrow> string \<Rightarrow> db \<Rightarrow> (Refund \<times> db) result" where
  "insert_refund_payment e p tenant key amount reason quote s =
     bindE (newID ''pay_'' 0 e) (\<lambda>i.
       let now = env_now e; reference = pay_external_reference p @ '':refund:'' @ i
       in bindE (insert_payment (new_payment_row i PaymentDirectionPayout reference (pay_currency p) amount tenant key now) s) (\<lambda>s1.
          bindE (insert_refund \<lparr>rf_payment = i, rf_original = pay_id p, rf_tenant = tenant, rf_idempotency_key = key,
                   rf_amount = amount, rf_currency = pay_currency p, rf_reason = reason, rf_created_at = now,
                   rf_updated_at = now\<rparr> s1) (\<lambda>s2.
          bindE (if quote = '''' then Inr s2 else accept_quote quote i now s2) (\<lambda>s3.
          bindE (History_Record
                  \<lparr>au_payment = i, au_event = ''created'', au_message = ''merchant refund payment created: '' @ reason, au_at = now\<rparr>
                  \<lparr>tl_payment = i, tl_status = PaymentStatusCreated, tl_note = ''refund payment created'', tl_at = now\<rparr> s3) (\<lambda>s4.
          bindE (enqueue_state_event e 1 i ''payment.created''
                  (Raw (JObj [(''amount_minor'', JNum amount), (''currency'', JStr (pay_currency p)),
                     (''external_reference'', JStr reference), (''original_payment_id'', JStr (pay_id p)),
                     (''payment_status'', JStr ''created''), (''refund_payment_id'', JStr i),
                     (''tenant_id'', JStr tenant)])) now s4) (\<lambda>s5.
            Inr (\<lparr>rfd_RefundPaymentID = i, rfd_OriginalPaymentID = pay_id p, rfd_Reason = reason, rfd_CreatedAt = now,
                  rfd_UpdatedAt = now, rfd_IdempotencyKey = key\<rparr>, s5)))))))"

definition CreateRefund ::
  "env \<Rightarrow> string \<Rightarrow> string \<Rightarrow> string \<Rightarrow> int \<Rightarrow> string \<Rightarrow> string \<Rightarrow> db \<Rightarrow> (Refund \<times> db) result" where
  "CreateRefund e payment tenant key amount reason quote s =
     (if payment = '''' \<or> tenant = '''' \<or> key = '''' \<or> amount \<le> 0 \<or> reason = ''''
      then Inl (ErrText ''invalid refund payload'') else
      case find_payment payment s of
        None \<Rightarrow> Inl ErrPaymentNotFound
      | Some p \<Rightarrow>
          if pay_tenant p \<noteq> tenant then Inl ErrPaymentNotFound else
          (case loadRefundByIdempotencyKey tenant key s of
            Inr (existing, existingAmount, existingQuote) \<Rightarrow>
              if rfd_OriginalPaymentID existing \<noteq> payment \<or> existingAmount \<noteq> amount \<or>
                 rfd_Reason existing \<noteq> reason \<or> existingQuote \<noteq> quote
              then Inl ErrIdempotencyConflict else Inr (existing, s)
          | Inl _ \<Rightarrow>
              if pay_status p \<noteq> PaymentStatusSucceeded \<or> \<not> settled payment s then Inl ErrPaymentNotRefundable
              else if pay_amount p - refunded_amount payment s < amount then Inl ErrRefundAmountExceeded
              else bindE (check_refund_quote e tenant (pay_currency p) amount quote s) (\<lambda>_.
                   insert_refund_payment e p tenant key amount reason quote s)))"

subsection \<open>Refunds never exceed the payment\<close>

definition refunds_bounded :: "db \<Rightarrow> bool" where
  "refunds_bounded s \<longleftrightarrow> list_all (\<lambda>p. refunded_amount (pay_id p) s \<le> pay_amount p) (payments s) \<and>
     list_all (\<lambda>r. has_payment (rf_payment r) s \<and> has_payment (rf_original r) s) (refunds s)"

lemma enqueue_state_event_shape:
  assumes "enqueue_state_event e k i ty payload now s = Inr s'"
  shows "\<exists>ob n. s' = s\<lparr>outbox := ob, outbox_seq := n\<rparr>"
proof -
  from assms obtain r1 r2 s1 where "insert_outbox r1 s = Inr s1" "insert_outbox r2 s1 = Inr s'"
    unfolding enqueue_state_event_def Let_def by (auto simp: bindE_Inr_iff split: if_splits)
  then obtain ob n ob' n' where "s1 = s\<lparr>outbox := ob, outbox_seq := n\<rparr>" "s' = s1\<lparr>outbox := ob', outbox_seq := n'\<rparr>"
    using insert_outbox_shape by meson
  then have "s' = s\<lparr>outbox := ob', outbox_seq := n'\<rparr>" by simp
  then show ?thesis by blast
qed

lemma enqueue_state_event_keeps [store_keeps]:
  "enqueue_state_event e k i ty payload now s = Inr s' \<Longrightarrow> store_ok s \<Longrightarrow> store_ok s'"
  unfolding enqueue_state_event_def Let_def
  by (auto simp: bindE_Inr_iff split: if_splits intro: insert_outbox_keeps)

lemma accept_quote_Inr:
  assumes "accept_quote q i now s = Inr s'"
  shows "s' = s\<lparr>quotes := update_where (\<lambda>r. q_id r = q \<and> q_status r = QuoteOpen)
      (\<lambda>r. r\<lparr>q_status := QuoteAccepted, q_payment := Some i, q_updated_at := now\<rparr>) (quotes s)\<rparr>"
    and "quotes_ok (quotes s')"
  using assms by (auto simp: accept_quote_def put_quotes_def split: if_splits)

lemma accept_quote_keeps [store_keeps]:
  "accept_quote q i now s = Inr s' \<Longrightarrow> store_ok s \<Longrightarrow> store_ok s'"
  by (auto simp: accept_quote_def split: if_splits intro: put_quotes_keeps)

lemma insert_payment_Inr:
  "insert_payment r s = Inr s' \<longleftrightarrow> payments_ok (payments s @ [r]) \<and> s' = s\<lparr>payments := payments s @ [r]\<rparr>"
  by (auto simp: insert_payment_def put_payments_def)

lemma insert_refund_Inr:
  "insert_refund r s = Inr s' \<longleftrightarrow> has_payment (rf_payment r) s \<and> has_payment (rf_original r) s \<and>
     refunds_ok (refunds s @ [r]) \<and> s' = s\<lparr>refunds := refunds s @ [r]\<rparr>"
  by (auto simp: insert_refund_def)

lemma insert_refund_payment_steps:
  assumes "insert_refund_payment e p tenant key amount reason quote s = Inr (rfd, s')"
  obtains i s1 s2 s3 s4 a t payload where
    "insert_payment (new_payment_row i PaymentDirectionPayout (pay_external_reference p @ '':refund:'' @ i)
        (pay_currency p) amount tenant key (env_now e)) s = Inr s1"
    "insert_refund \<lparr>rf_payment = i, rf_original = pay_id p, rf_tenant = tenant, rf_idempotency_key = key,
        rf_amount = amount, rf_currency = pay_currency p, rf_reason = reason, rf_created_at = env_now e,
        rf_updated_at = env_now e\<rparr> s1 = Inr s2"
    "(if quote = '''' then Inr s2 else accept_quote quote i (env_now e) s2) = Inr s3"
    "History_Record a t s3 = Inr s4"
    "enqueue_state_event e 1 i ''payment.created'' payload (env_now e) s4 = Inr s'"
    "rfd_RefundPaymentID rfd = i"
  using assms unfolding insert_refund_payment_def Let_def bindE_Inr_iff by auto

text \<open>What a new refund writes into the payments and refunds tables.\<close>

lemma insert_refund_payment_Inr:
  assumes "insert_refund_payment e p tenant key amount reason quote s = Inr (rfd, s')"
  shows "\<exists>i row ref. payments s' = payments s @ [row] \<and> refunds s' = refunds s @ [ref] \<and>
    pay_id row = i \<and> pay_status row = PaymentStatusCreated \<and> pay_amount row = amount \<and>
    rf_payment ref = i \<and> rf_original ref = pay_id p \<and> rf_amount ref = amount \<and>
    payments_ok (payments s @ [row]) \<and> refunds_ok (refunds s @ [ref]) \<and> rfd_RefundPaymentID rfd = i"
  using assms
proof (rule insert_refund_payment_steps)
  fix i s1 s2 s3 s4 a t payload
  assume s1: "insert_payment (new_payment_row i PaymentDirectionPayout (pay_external_reference p @ '':refund:'' @ i)
        (pay_currency p) amount tenant key (env_now e)) s = Inr s1" and
    s2: "insert_refund \<lparr>rf_payment = i, rf_original = pay_id p, rf_tenant = tenant, rf_idempotency_key = key,
        rf_amount = amount, rf_currency = pay_currency p, rf_reason = reason, rf_created_at = env_now e,
        rf_updated_at = env_now e\<rparr> s1 = Inr s2" and
    s3: "(if quote = '''' then Inr s2 else accept_quote quote i (env_now e) s2) = Inr s3" and
    s4: "History_Record a t s3 = Inr s4" and
    s5: "enqueue_state_event e 1 i ''payment.created'' payload (env_now e) s4 = Inr s'" and
    rfd: "rfd_RefundPaymentID rfd = i"
  from s3 have "payments s3 = payments s2 \<and> refunds s3 = refunds s2"
    by (auto split: if_splits dest: accept_quote_Inr)
  moreover from s4 have "payments s4 = payments s3 \<and> refunds s4 = refunds s3" by (auto simp: History_Record_Inr)
  moreover from enqueue_state_event_shape [OF s5] have "payments s' = payments s4 \<and> refunds s' = refunds s4" by auto
  ultimately show ?thesis
    using s1 s2 rfd by (auto simp: insert_payment_Inr insert_refund_Inr new_payment_row_def)
qed

lemma insert_refund_payment_keeps [store_keeps]:
  assumes "insert_refund_payment e p tenant key amount reason quote s = Inr (rfd, s')" and "store_ok s"
  shows "store_ok s'"
  using assms(1)
proof (rule insert_refund_payment_steps)
  fix i s1 s2 s3 s4 a t payload row ref
  assume steps: "insert_payment (new_payment_row i PaymentDirectionPayout (pay_external_reference p @ '':refund:'' @ i)
        (pay_currency p) amount tenant key (env_now e)) s = Inr s1"
    "insert_refund \<lparr>rf_payment = i, rf_original = pay_id p, rf_tenant = tenant, rf_idempotency_key = key,
        rf_amount = amount, rf_currency = pay_currency p, rf_reason = reason, rf_created_at = env_now e,
        rf_updated_at = env_now e\<rparr> s1 = Inr s2"
    "(if quote = '''' then Inr s2 else accept_quote quote i (env_now e) s2) = Inr s3"
    "History_Record a t s3 = Inr s4" "enqueue_state_event e 1 i ''payment.created'' payload (env_now e) s4 = Inr s'"
  have "store_ok s2" using insert_refund_keeps [OF steps(2)] insert_payment_keeps [OF steps(1) assms(2)] by blast
  moreover have "store_ok s2 \<Longrightarrow> store_ok s3" using steps(3) by (auto split: if_splits intro: accept_quote_keeps)
  ultimately show ?thesis
    using History_Record_keeps [OF steps(4)] enqueue_state_event_keeps [OF steps(5)] by blast
qed

lemma CreateRefund_cases [consumes 1, case_names again new]:
  assumes "CreateRefund e payment tenant key amount reason quote s = Inr (rfd, s')"
  obtains "s' = s"
  | p where "find_payment payment s = Some p" "pay_tenant p = tenant" "pay_status p = PaymentStatusSucceeded"
      "settled payment s" "amount \<le> pay_amount p - refunded_amount payment s" "0 < amount"
      "insert_refund_payment e p tenant key amount reason quote s = Inr (rfd, s')"
  using assms
  by (auto simp: CreateRefund_def bindE_Inr_iff split: if_splits option.splits sum.splits prod.splits)

lemma CreateRefund_keeps [store_keeps]:
  assumes "CreateRefund e payment tenant key amount reason quote s = Inr (rfd, s')" and "store_ok s"
  shows "store_ok s'"
  using assms(1) by (cases rule: CreateRefund_cases) (use assms(2) insert_refund_payment_keeps in auto)

lemma refunded_amount_filter:
  "refunded_amount i s = sum_list (map (\<lambda>r. if rf_original r = i \<and>
     (case status_of (rf_payment r) s of None \<Rightarrow> False | Some st \<Rightarrow> st \<noteq> PaymentStatusFailed) then rf_amount r else 0)
     (refunds s))"
  unfolding refunded_amount_def by (induction "refunds s" rule: rev_induct) (simp_all add: sum_list_map_filter')

text \<open>Adding one refund of a new payment adds its amount to the original payment and nothing elsewhere.\<close>

lemma refunded_amount_add:
  assumes pays: "payments s' = payments s @ [row]" and refs: "refunds s' = refunds s @ [ref]"
    and new: "\<not> has_payment (pay_id row) s" "rf_payment ref = pay_id row" "pay_status row \<noteq> PaymentStatusFailed"
    and old: "list_all (\<lambda>r. has_payment (rf_payment r) s) (refunds s)"
  shows "refunded_amount i s' = refunded_amount i s + (if rf_original ref = i then rf_amount ref else 0)"
proof -
  have st: "status_of (rf_payment r) s' = status_of (rf_payment r) s" if "r \<in> set (refunds s)" for r
  proof -
    from that old have "has_payment (rf_payment r) s" by (simp add: list_all_iff)
    then show ?thesis by (auto simp: status_of_def find_payment_def pays find_append has_payment_find)
  qed
  have "status_of (pay_id row) s' = Some (pay_status row)"
    using new(1) by (auto simp: status_of_def find_payment_def pays find_append has_payment_find split: option.splits)
  moreover have "map (\<lambda>r. if rf_original r = i \<and> (case status_of (rf_payment r) s' of None \<Rightarrow> False
      | Some st \<Rightarrow> st \<noteq> PaymentStatusFailed) then rf_amount r else 0) (refunds s) =
    map (\<lambda>r. if rf_original r = i \<and> (case status_of (rf_payment r) s of None \<Rightarrow> False
      | Some st \<Rightarrow> st \<noteq> PaymentStatusFailed) then rf_amount r else 0) (refunds s)"
    using st by (intro map_cong) simp_all
  ultimately show ?thesis using new(2,3) by (simp add: refunded_amount_filter refs del: map_eq_conv)
qed

lemma refunded_amount_none:
  assumes "list_all (\<lambda>r. rf_original r \<noteq> i) (refunds s)"
  shows "refunded_amount i s = 0"
proof -
  have "filter (\<lambda>r. rf_original r = i \<and> P r) (refunds s) = []" for P
    using assms by (auto simp: filter_empty_conv list_all_iff)
  then show ?thesis by (simp add: refunded_amount_def)
qed

lemma insert_refund_payment_bounded:
  assumes "insert_refund_payment e p tenant key amount reason quote s = Inr (rfd, s')"
    and "refunds_bounded s" and "find_payment i s = Some p" and "store_ok s"
    and "amount \<le> pay_amount p - refunded_amount i s"
  shows "refunds_bounded s'"
proof -
  from insert_refund_payment_Inr [OF assms(1)] obtain row ref where
    pays: "payments s' = payments s @ [row]" and refs: "refunds s' = refunds s @ [ref]" and
    new: "pay_status row = PaymentStatusCreated" "pay_amount row = amount" "rf_payment ref = pay_id row"
      "rf_original ref = pay_id p" "rf_amount ref = amount" and
    ok: "payments_ok (payments s @ [row])" by blast
  have p: "p \<in> set (payments s)" "pay_id p = i" using find_payment_id [OF assms(3)] by auto
  have fresh: "\<not> has_payment (pay_id row) s" using ok by (auto simp: payments_ok_def has_payment_def)
  have linked: "list_all (\<lambda>r. has_payment (rf_payment r) s \<and> has_payment (rf_original r) s) (refunds s)"
    using assms(2) by (simp add: refunds_bounded_def)
  have add: "refunded_amount k s' = refunded_amount k s + (if pay_id p = k then amount else 0)" for k
    using refunded_amount_add [OF pays refs fresh new(3)] linked new by (simp add: list_all_iff)
  have has': "has_payment k s' \<longleftrightarrow> has_payment k s \<or> k = pay_id row" for k
    by (auto simp: has_payment_def pays)
  have bound: "refunded_amount (pay_id r) s' \<le> pay_amount r" if r: "r \<in> set (payments s)" for r
  proof (cases "pay_id r = i")
    case True
    with r p ok have "r = p" by (auto simp: payments_ok_def dest: inj_onD simp: distinct_map)
    with add [of i] assms(5) p show ?thesis by simp
  next
    case False
    with add [of "pay_id r"] p(2) r assms(2) show ?thesis by (simp add: refunds_bounded_def list_all_iff)
  qed
  have "refunded_amount (pay_id row) s = 0"
    using linked fresh by (intro refunded_amount_none) (auto simp: list_all_iff)
  moreover have "pay_id p \<noteq> pay_id row" using fresh p(1) unfolding has_payment_def by (metis image_eqI set_map)
  moreover have "0 < pay_amount row" using ok by (simp add: payments_ok_def)
  ultimately have "refunded_amount (pay_id row) s' \<le> pay_amount row" using add [of "pay_id row"] by simp
  moreover have "has_payment (pay_id p) s" using p by (auto simp: has_payment_def)
  ultimately show ?thesis
    using bound linked new(3,4) by (auto simp: refunds_bounded_def pays refs list_all_iff has')
qed

lemma CreateRefund_bounded:
  assumes "CreateRefund e payment tenant key amount reason quote s = Inr (rfd, s')"
    and "refunds_bounded s" and "store_ok s"
  shows "refunds_bounded s'"
  using assms(1)
  by (cases rule: CreateRefund_cases) (use assms insert_refund_payment_bounded in auto)

subsection \<open>Executing a payout twice\<close>

lemma insert_payout_once_cases [consumes 1, case_names exists new]:
  assumes "insert_payout_once r s = Inr (s', n)"
  obtains "n = 0" "s' = s" "find_payout (po_payment r) s \<noteq> None"
  | "n = 1" "s' = s\<lparr>payouts := payouts s @ [r]\<rparr>" "find_payout (po_payment r) s = None" "payouts_ok (payouts s @ [r])"
  using assms
  by (auto simp: insert_payout_once_def put_payouts_def find_payout_def find_None_iff_all list_ex_iff
      split: if_splits)

lemma find_payout_update:
  assumes "\<And>r. po_payment (f r) = po_payment r"
  shows "find_payout i (s\<lparr>payouts := update_where P f (payouts s)\<rparr>) =
    map_option (\<lambda>r. if P r then f r else r) (find_payout i s)"
  unfolding find_payout_def using assms by (simp add: find_update_where)

text \<open>What \<open>prepare\<close> leaves behind: the payout row of the payment, bound to the key.\<close>

lemma prepare_Inr:
  assumes "prepare provider e i key s = Inr (a, s1)"
  shows "\<exists>q source r. accepted_quote PaymentDirectionPayout i provider s = Some q \<and> q_source q = Some source \<and>
    find_payout i s1 = Some r \<and> quotes s1 = quotes s \<and> payments s1 = payments s \<and> po_idempotency_key r = key \<and>
    (if at_new a then po_status r = ''submission_pending'' \<and> po_provider_payout r = None
     else s1 = s \<and> at_providerReference a = coalesce (po_provider_payout r) \<and> at_providerStatus a = po_status r)"
proof -
  obtain q where q: "accepted_quote PaymentDirectionPayout i provider s = Some q"
    using assms by (cases "accepted_quote PaymentDirectionPayout i provider s") (simp_all add: prepare_def)
  obtain source where source: "q_source q = Some source"
    using assms q by (cases "q_source q") (simp_all add: prepare_def scan_def)
  let ?row = "payout_row_of provider e i key q source"
  from assms q source obtain n where ins: "insert_payout_once ?row s = Inr (s1, n)" and a: "at_new a = (n = 1)"
    "n \<noteq> 1 \<longrightarrow> (\<exists>r. find_payout i s1 = Some r \<and> po_idempotency_key r = key \<and>
         at_providerReference a = coalesce (po_provider_payout r) \<and> at_providerStatus a = po_status r)"
    by (auto simp: prepare_def scan_def bindE_Inr_iff Let_def split: option.splits if_splits)
  from ins show ?thesis
  proof (cases rule: insert_payout_once_cases)
    case exists
    with a q source show ?thesis by auto
  next
    case new
    have "find_payout i s1 = Some ?row" using new(2,3) by (simp add: find_payout_def find_append)
    with a q source new show ?thesis by simp
  qed
qed

lemma prepare_again:
  assumes "accepted_quote PaymentDirectionPayout i provider s = Some q" and "q_source q = Some source"
    and "find_payout i s = Some r" and "po_idempotency_key r = key"
  shows "\<exists>request. prepare provider e i key s = Inr (\<lparr>at_request = request,
    at_providerReference = coalesce (po_provider_payout r), at_providerStatus = po_status r, at_new = False\<rparr>, s)"
proof -
  have "list_ex (\<lambda>x. po_payment x = i) (payouts s)"
    using assms(3) by (auto simp: find_payout_def list_ex_iff dest: find_Some_memb)
  with assms show ?thesis by (simp add: prepare_def scan_def insert_payout_once_def Let_def)
qed

lemma mapPersistedResult_roundtrip:
  assumes "ExecutionResult_Validate r = Inr ()" and "payout_status_ok (persistedStatus r)"
  shows "\<exists>r'. mapPersistedResult (er_ProviderReference r) (persistedStatus r) = Inr r' \<and>
    er_ProviderReference r' = er_ProviderReference r \<and> er_Status r' = er_Status r"
proof -
  have ref: "er_ProviderReference r \<noteq> ''''" using assms(1) by (simp add: result_simps)
  from assms(1) consider "er_Status r = ExecutionPending" | "er_Status r = ExecutionOnHold" |
    "er_Status r = ExecutionSucceeded" | "er_Status r = ExecutionFailed" by (auto simp: result_simps)
  then show ?thesis
  proof cases
    case 4
    then have "persistedStatus r = ''failed'' \<or> TrimSpace (persistedStatus r) \<in> {''refunded'', ''submission_failed''}"
      by (auto simp: persistedStatus_def)
    moreover have "TrimSpace ''completed'' = ''completed''" "TrimSpace ''processing'' = ''processing''"
      "TrimSpace ''submission_pending'' = ''submission_pending''" "TrimSpace ''unknown'' = ''unknown''"
      "TrimSpace ''on_hold'' = ''on_hold''" by code_simp+
    ultimately have "persistedStatus r \<in> {''failed'', ''refunded'', ''submission_failed''}"
      using assms(2) by (auto simp: payout_status_ok_def)
    with ref 4 show ?thesis by (auto simp: mapPersistedResult_def Let_def ExecutionResult_Validate_def)
  qed (use ref in \<open>auto simp: mapPersistedResult_def persistedStatus_def Let_def ExecutionResult_Validate_def\<close>)
qed

lemma recordResponse_Inr:
  assumes "recordResponse e i r s = Inr s'" and "find_payout i s = Some row" and "open_submission row"
  shows "\<exists>row'. find_payout i s' = Some row' \<and> po_provider_payout row' = Some (er_ProviderReference r) \<and>
    po_status row' = persistedStatus r \<and> po_idempotency_key row' = po_idempotency_key row \<and>
    payout_status_ok (persistedStatus r) \<and> quotes s' = quotes s \<and> payments s' = payments s"
proof -
  define f where "f = (\<lambda>p. p\<lparr>po_provider_payout := Some (er_ProviderReference r), po_status := persistedStatus r,
    po_payload := or_raw (er_Payload r) (result_json r), po_last_error := None, po_updated_at := env_now e,
    po_submitted_at := Some (env_now e)\<rparr> :: payout_row)"
  define P where "P = (\<lambda>p. po_payment p = i \<and> open_submission p)"
  from assms(1) have s': "s' = s\<lparr>payouts := update_where P f (payouts s)\<rparr>" and ok: "payouts_ok (update_where P f (payouts s))"
    by (auto simp: recordResponse_def put_payouts_def Let_def f_def P_def split: if_splits)
  have row: "po_payment row = i" "row \<in> set (payouts s)" using assms(2) by (auto simp: find_payout_def dest: find_Some_memb)
  have "find_payout i s' = Some (f row)"
    unfolding s' using find_payout_update [of f i P s] assms(2,3) row by (simp add: f_def P_def)
  moreover have "f row \<in> set (update_where P f (payouts s))"
    using row assms(3) by (auto simp: set_update_where P_def)
  then have "payout_status_ok (po_status (f row))" using ok by (auto simp: payouts_ok_def list_all_iff)
  ultimately show ?thesis using s' by (simp add: f_def)
qed

text \<open>A successful execution leaves a row that answers every later execution by itself.\<close>

lemma executePayout_success:
  assumes "executePayout provider e (i, key) s = (s1, Inr r)"
  shows "\<exists>q source row r'. accepted_quote PaymentDirectionPayout i (pp_Name provider) s1 = Some q \<and>
    q_source q = Some source \<and> find_payout i s1 = Some row \<and> po_idempotency_key row = key \<and> payments s1 = payments s \<and>
    coalesce (po_provider_payout row) = er_ProviderReference r \<and> er_ProviderReference r \<noteq> '''' \<and>
    mapPersistedResult (er_ProviderReference r) (po_status row) = Inr r' \<and>
    er_ProviderReference r' = er_ProviderReference r \<and> er_Status r' = er_Status r"
proof -
  from assms obtain a s0 where p: "prepare (pp_Name provider) e i key s = Inr (a, s0)"
    by (auto simp: executePayout_def split: if_splits sum.splits)
  from prepare_Inr [OF p] obtain q source row where
    q: "accepted_quote PaymentDirectionPayout i (pp_Name provider) s = Some q" "q_source q = Some source" and
    row: "find_payout i s0 = Some row" "po_idempotency_key row = key" and
    frame: "quotes s0 = quotes s" "payments s0 = payments s" and
    a: "if at_new a then po_status row = ''submission_pending'' \<and> po_provider_payout row = None
        else s0 = s \<and> at_providerReference a = coalesce (po_provider_payout row) \<and> at_providerStatus a = po_status row"
    by blast
  show ?thesis
  proof (cases "\<not> at_new a \<and> at_providerReference a \<noteq> ''''")
    case True
    with assms p a have "s1 = s0" "mapPersistedResult (coalesce (po_provider_payout row)) (po_status row) = Inr r"
      by (auto simp: executePayout_def split: if_splits)
    moreover from this have "er_ProviderReference r = coalesce (po_provider_payout row)"
      by (auto simp: mapPersistedResult_def Let_def bindE_Inr_iff split: if_splits)
    ultimately show ?thesis using True a q row frame by (simp add: accepted_quote_def)
  next
    case False
    with assms p have "submit_payout provider e i (at_request a) s0 = (s1, Inr r)" and unk: "at_new a \<or> at_providerStatus a = ''unknown''"
      by (auto simp: executePayout_def split: if_splits)
    then have v: "ExecutionResult_Validate r = Inr ()" and rec: "recordResponse e i r s0 = Inr s1"
      by (auto simp: submit_payout_def Let_def split: sum.splits if_splits)
    from unk a have "open_submission row" by (auto simp: open_submission_def split: if_splits)
    from recordResponse_Inr [OF rec row(1) this] obtain row' where
      row': "find_payout i s1 = Some row'" "po_provider_payout row' = Some (er_ProviderReference r)"
        "po_status row' = persistedStatus r" "po_idempotency_key row' = key" "payout_status_ok (persistedStatus r)"
        "quotes s1 = quotes s0" "payments s1 = payments s0" using row(2) by auto
    from v have "er_ProviderReference r \<noteq> ''''" by (simp add: result_simps)
    with mapPersistedResult_roundtrip [OF v row'(5)] row' q frame show ?thesis
      by (auto simp: accepted_quote_def coalesce_def)
  qed
qed

subsection \<open>Creating a payment twice\<close>

definition quotes_linked :: "db \<Rightarrow> bool" where
  "quotes_linked s \<longleftrightarrow> list_all (\<lambda>q. q_payment q \<noteq> None \<longrightarrow> q_status q = QuoteAccepted) (quotes s)"

lemma unique_some_eq:
  assumes "unique_some k t" and "r \<in> set t" and "r' \<in> set t" and "k r = Some x" and "k r' = Some x"
  shows "r = r'"
  using assms unfolding unique_some_def
proof (induction t)
  case (Cons a t)
  have notin: "x \<notin> set (List.map_filter k t)" if "k a = Some x"
    using Cons.prems(1) that by simp
  have mem: "x \<in> set (List.map_filter k t)" if "b \<in> set t" "k b = Some x" for b
    using that by (force simp: List.map_filter_def)
  from Cons.prems(1) have "distinct (List.map_filter k t)"
    by (auto split: option.splits)
  with Cons notin mem show ?case by auto
qed simp

lemma quote_of_payment_unique:
  assumes "quotes_ok (quotes s)" and "q \<in> set (quotes s)" and "q_payment q = Some i"
  shows "quote_of_payment i s = q_id q"
proof -
  have "List.find (\<lambda>q. q_payment q = Some i) (quotes s) \<noteq> None"
    using assms(2,3) by (auto simp: find_None_iff_all)
  then obtain q' where q': "List.find (\<lambda>q. q_payment q = Some i) (quotes s) = Some q'" by auto
  then have "q' \<in> set (quotes s)" "q_payment q' = Some i" by (auto dest: find_Some_memb)
  with assms have "q' = q" by (auto simp: quotes_ok_def intro: unique_some_eq)
  with q' show ?thesis by (simp add: quote_of_payment_def)
qed

lemma insert_payment_once_cases [consumes 1, case_names exists new]:
  assumes "insert_payment_once r s = Inr (s', n)"
  obtains "n = 0" "s' = s" "list_ex (\<lambda>p. pay_idempotency_key p = pay_idempotency_key r) (payments s)"
  | "n = 1" "s' = s\<lparr>payments := payments s @ [r]\<rparr>" "payments_ok (payments s @ [r])"
      "\<not> list_ex (\<lambda>p. pay_idempotency_key p = pay_idempotency_key r) (payments s)"
  using assms by (auto simp: insert_payment_once_def bindE_Inr_iff insert_payment_Inr split: if_splits)

text \<open>The two ways the writes of a new payment succeed.\<close>

lemma insert_payout_payment_cases [consumes 1, case_names exists new]:
  assumes "insert_payout_payment e r quote i s = Inr (p, s')"
  obtains "s' = s" "getPaymentByIdempotencyKey (cp_IdempotencyKey r) s = Inr p"
      "paymentRequestMatches p (cp_ExternalReference r) (cp_Currency r) (cp_AmountMinor r) (cp_TenantID r) quote"
  | row a t ob n where
      "row = new_payment_row i PaymentDirectionPayout (cp_ExternalReference r) (cp_Currency r)
            (cp_AmountMinor r) (cp_TenantID r) (cp_IdempotencyKey r) (env_now e)"
      "\<not> list_ex (\<lambda>p. pay_idempotency_key p = cp_IdempotencyKey r) (payments s)"
      "affected (\<lambda>q. q_id q = quote \<and> q_status q = QuoteOpen) (quotes s) = 1"
      "quotes_ok (quotes s')" "payments_ok (payments s')"
      "s' = s\<lparr>payments := payments s @ [row],
        quotes := update_where (\<lambda>q. q_id q = quote \<and> q_status q = QuoteOpen)
           (\<lambda>q. q\<lparr>q_status := QuoteAccepted, q_payment := Some i, q_updated_at := env_now e\<rparr>) (quotes s),
        audits := a, timeline := t, outbox := ob, outbox_seq := n\<rparr>"
      "pm_ID p = i" "store_ok s \<longrightarrow> store_ok s'"
proof -
  let ?row = "new_payment_row i PaymentDirectionPayout (cp_ExternalReference r) (cp_Currency r)
            (cp_AmountMinor r) (cp_TenantID r) (cp_IdempotencyKey r) (env_now e)"
  from assms obtain s1 m where ins: "insert_payment_once ?row s = Inr (s1, m)"
    by (auto simp: insert_payout_payment_def Let_def bindE_Inr_iff)
  have key: "pay_idempotency_key ?row = cp_IdempotencyKey r" by (simp add: new_payment_row_def)
  from ins show thesis
  proof (cases rule: insert_payment_once_cases)
    case exists
    with assms ins show thesis
      by (intro that(1)) (auto simp: insert_payout_payment_def Let_def bindE_Inr_iff split: if_splits)
  next
    case new
    with assms ins obtain s2 s3 a0 t0 payload where
      acc: "accept_quote quote i (env_now e) s1 = Inr s2" and hist: "History_Record a0 t0 s2 = Inr s3" and
      enq: "enqueue_state_event e 2 i ''payment.created'' payload (env_now e) s3 = Inr s'" and pid: "pm_ID p = i"
      by (auto simp: insert_payout_payment_def Let_def bindE_Inr_iff payment_of_row_def new_payment_row_def)
    from hist obtain a t where s3: "s3 = s2\<lparr>audits := a, timeline := t\<rparr>" by (auto simp: History_Record_Inr)
    from enqueue_state_event_shape [OF enq] obtain ob n where s': "s' = s3\<lparr>outbox := ob, outbox_seq := n\<rparr>" by blast
    note q = accept_quote_Inr [OF acc]
    have keeps: "store_ok s \<longrightarrow> store_ok s'"
      using insert_payment_once_keeps [OF ins] accept_quote_keeps [OF acc] History_Record_keeps [OF hist]
        enqueue_state_event_keeps [OF enq] by blast
    have aff: "affected (\<lambda>q. q_id q = quote \<and> q_status q = QuoteOpen) (quotes s) = 1"
      using acc new(2) by (auto simp: accept_quote_def split: if_splits)
    show thesis
    proof (rule that(2) [OF refl])
      show "\<not> list_ex (\<lambda>p. pay_idempotency_key p = cp_IdempotencyKey r) (payments s)" using new(4) key by simp
      show "affected (\<lambda>q. q_id q = quote \<and> q_status q = QuoteOpen) (quotes s) = 1" by (rule aff)
      show "quotes_ok (quotes s')" using q(2) by (simp add: s' s3)
      show "payments_ok (payments s')" using new(2,3) q(1) by (simp add: s' s3)
      show "s' = s\<lparr>payments := payments s @ [?row],
        quotes := update_where (\<lambda>q. q_id q = quote \<and> q_status q = QuoteOpen)
           (\<lambda>q. q\<lparr>q_status := QuoteAccepted, q_payment := Some i, q_updated_at := env_now e\<rparr>) (quotes s),
        audits := a, timeline := t, outbox := ob, outbox_seq := n\<rparr>"
        using new(2) q(1) by (simp add: s' s3)
    qed (rule pid, rule keeps)
  qed
qed

lemma find_quote_id: "find_quote d i s = Some q \<Longrightarrow> q_id q = i \<and> q_direction q = d \<and> q \<in> set (quotes s)"
  by (auto simp: find_quote_def dest: find_Some_memb)

lemma find_quote_unique:
  assumes "quotes_ok (quotes s)" and "q \<in> set (quotes s)"
  shows "find_quote (q_direction q) (q_id q) s = Some q"
proof -
  have "find_quote (q_direction q) (q_id q) s \<noteq> None" using assms(2) by (auto simp: find_quote_def find_None_iff_all)
  then obtain q' where q': "find_quote (q_direction q) (q_id q) s = Some q'" by auto
  with find_quote_id [OF q'] assms have "q' = q"
    by (auto simp: quotes_ok_def dest: inj_onD simp: distinct_map)
  with q' show ?thesis by simp
qed

lemma createPayout_tx_created:
  assumes "insert_payout_payment e r quote i s = Inr (p, s')" and "find_quote PaymentDirectionPayout quote s = Some q"
    and "q_status q = QuoteOpen" and "\<not> list_ex (\<lambda>p. pay_idempotency_key p = cp_IdempotencyKey r) (payments s)"
  shows "\<exists>q'. find_quote PaymentDirectionPayout quote s' = Some q' \<and> q_status q' = QuoteAccepted \<and>
    (\<exists>p'. getPaymentByIdempotencyKey (cp_IdempotencyKey r) s' = Inr p' \<and> pm_ID p' = pm_ID p \<and>
      paymentRequestMatches p' (cp_ExternalReference r) (cp_Currency r) (cp_AmountMinor r) (cp_TenantID r) quote)"
  using assms(1)
proof (cases rule: insert_payout_payment_cases)
  case exists
  with assms(4) show ?thesis
    by (auto simp: getPaymentByIdempotencyKey_def list_ex_iff split: option.splits dest: find_Some_memb)
next
  case (new row a t ob n)
  let ?f = "\<lambda>q. q\<lparr>q_status := QuoteAccepted, q_payment := Some i, q_updated_at := env_now e\<rparr>"
  have q: "q_id q = quote" "q_direction q = PaymentDirectionPayout" "q \<in> set (quotes s)"
    using find_quote_id [OF assms(2)] by auto
  have mem: "?f q \<in> set (quotes s')" using q(1,3) assms(3) by (force simp: new(6) set_update_where)
  have fq: "find_quote PaymentDirectionPayout quote s' = Some (?f q)"
    using find_quote_unique [OF new(4) mem] q by simp
  have "List.find (\<lambda>p. pay_idempotency_key p = cp_IdempotencyKey r) (payments s') = Some row"
    using new(2) by (auto simp: new(6) find_append list_ex_iff find_None_iff_all new(1) new_payment_row_def split: option.splits
        dest: find_Some_memb)
  moreover have "quote_of_payment i s' = quote" using quote_of_payment_unique [OF new(4) mem, of i] q by simp
  moreover have "pay_id row = i" by (simp add: new(1) new_payment_row_def)
  ultimately have "getPaymentByIdempotencyKey (cp_IdempotencyKey r) s' = Inr ((payment_of_row row)\<lparr>pm_QuoteID := quote\<rparr>)"
    by (simp add: getPaymentByIdempotencyKey_def)
  with fq new(7) show ?thesis
    by (simp add: paymentRequestMatches_def payment_of_row_def new(1) new_payment_row_def)
qed

lemma createPayout_tx_again:
  assumes "createPayout_tx e r quote s = (s', Inr p)" and "store_ok s" and "quotes_linked s" and "quote \<noteq> ''''"
    and "env_rand e' 1 \<noteq> None"
  shows "\<exists>p'. createPayout_tx e' r quote s' = (s', Inr p') \<and> pm_ID p' = pm_ID p"
proof -
  obtain h where h: "env_rand e' 1 = Some h" using assms(5) by auto
  from assms(1) obtain i where i: "newID ''pay_'' 1 e = Inr i"
    by (auto simp: createPayout_tx_def split: sum.splits)
  from assms(1) i obtain q where q: "find_quote PaymentDirectionPayout quote s = Some q"
    by (auto simp: createPayout_tx_def split: option.splits)
  show ?thesis
  proof (cases "q_status q = QuoteAccepted")
    case True
    with assms(1) i q have "s' = s" by (auto simp: createPayout_tx_def split: sum.splits)
    moreover from this True assms(1) i q h have "createPayout_tx e' r quote s = (s, Inr p)"
      by (auto simp: createPayout_tx_def newID_def split: sum.splits if_splits)
    ultimately show ?thesis by blast
  next
    case False
    with assms(1) i q have ins: "insert_payout_payment e r quote i s = Inr (p, s')" and op: "q_status q = QuoteOpen"
      by (auto simp: createPayout_tx_def split: sum.splits if_splits)
    have new: "\<not> list_ex (\<lambda>p. pay_idempotency_key p = cp_IdempotencyKey r) (payments s)"
    proof
      assume key: "list_ex (\<lambda>p. pay_idempotency_key p = cp_IdempotencyKey r) (payments s)"
      with ins have m: "getPaymentByIdempotencyKey (cp_IdempotencyKey r) s = Inr p" "pm_QuoteID p = quote"
        by (cases rule: insert_payout_payment_cases; simp add: paymentRequestMatches_def)+
      from m(1) have "pm_QuoteID p = quote_of_payment (pm_ID p) s"
        by (auto simp: getPaymentByIdempotencyKey_def payment_of_row_def split: option.splits)
      with m(2) assms(4) obtain q' where "List.find (\<lambda>q. q_payment q = Some (pm_ID p)) (quotes s) = Some q'" "q_id q' = quote"
        by (auto simp: quote_of_payment_def split: option.splits)
      then have q': "q' \<in> set (quotes s)" "q_payment q' \<noteq> None" "q_id q' = q_id q"
        using find_quote_id [OF q] by (auto dest: find_Some_memb)
      then have "q' = q" using find_quote_id [OF q] assms(2)
        by (auto simp: store_ok_def quotes_ok_def dest: inj_onD simp: distinct_map)
      with q' assms(3) op show False by (auto simp: quotes_linked_def list_all_iff)
    qed
    from createPayout_tx_created [OF ins q op new] h show ?thesis
      by (auto simp: createPayout_tx_def newID_def)
  qed
qed

subsection \<open>Properties\<close>

text \<open>
  C8: refunds never exceed the payment. Whatever refunds are requested, the refunds of a payment that
  have not failed add up to at most its amount.
\<close>

theorem refund_total_bounded:
  assumes "store_ok s" and "refunds_bounded s"
    and "CreateRefund e payment tenant key amount reason quote s = Inr (rfd, s')"
  shows "store_ok s' \<and> refunds_bounded s'"
  using CreateRefund_keeps [OF assms(3,1)] CreateRefund_bounded [OF assms(3,2,1)] by blast

definition sample_refund :: "db \<Rightarrow> (Refund \<times> db) result" where
  "sample_refund s = CreateRefund sample_env ''p1'' ''t1'' ''rk'' 40 ''damaged'' '''' s"

theorem refund_total_bounded_witness:
  "\<exists>s rfd s'. sample_closed True = Inr s \<and> sample_refund s = Inr (rfd, s') \<and> refunds_bounded s' \<and>
     refunded_amount ''p1'' s' = 40"
proof -
  have "\<exists>x. bindE (sample_closed True) sample_refund = Inr x" by (rule not_isl_Inr) code_simp
  then obtain s rfd s' where s: "sample_closed True = Inr s" and s': "sample_refund s = Inr (rfd, s')"
    by (auto simp: bindE_Inr_iff)
  have "case sample_closed True of Inl _ \<Rightarrow> False | Inr s \<Rightarrow> store_ok s \<and> refunds_bounded s" by code_simp
  then have "store_ok s" "refunds_bounded s" by (simp_all add: s)
  from refund_total_bounded [OF this s' [unfolded sample_refund_def]] have "refunds_bounded s'" by simp
  moreover have "(case bindE (sample_closed True) sample_refund of Inl _ \<Rightarrow> 0 | Inr (rfd, t) \<Rightarrow> refunded_amount ''p1'' t) = 40"
    by code_simp
  ultimately show ?thesis using s s' by auto
qed


definition sample_resource :: "string \<Rightarrow> resource_row" where
  "sample_resource i = \<lparr>rs_id = i, rs_tenant = ''t1'', rs_provider = ''mock'', rs_type = ''account'',
     rs_reference = i, rs_metadata = Raw (JObj [])\<rparr>"

definition sample_quote :: "QuoteStatus \<Rightarrow> string option \<Rightarrow> quote_row" where
  "sample_quote st payment = \<lparr>q_id = ''q1'', q_direction = PaymentDirectionPayout, q_provider = ''mock'',
     q_provider_quote_id = ''pq1'', q_tenant = ''t1'', q_idempotency_key = ''qk'', q_source = Some ''src'',
     q_destination = ''dst'', q_method = ''ach'', q_source_currency = ''USD'', q_destination_currency = ''USD'',
     q_currency_type = ''sender'', q_cover_fees = False, q_request_amount = 100, q_sender_amount = 100,
     q_receiver_amount = 99, q_commercial_rate = Some ''1'', q_provider_rate = Some ''1'', q_flat_fee = Some 0,
     q_partner_fee = Some 0, q_billing_fee = None, q_status = st, q_expires_at = 5000,
     q_payload = Raw (JObj []), q_execution_context = Raw (JObj []), q_payment = payment, q_created_at = 1,
     q_updated_at = 1\<rparr>"

definition sample_result :: ExecutionResult where
  "sample_result = \<lparr>er_ProviderReference = ''ref1'', er_Status = ExecutionSucceeded, er_FailureCode = '''',
     er_FailureMessage = '''', er_Payload = RawEmpty\<rparr>"

definition sample_provider :: PayoutProvider where
  "sample_provider = \<lparr>pp_Name = ''mock'', pp_CreatePayoutQuote = (\<lambda>_. Inl (ErrText ''no quotes'')),
     pp_ExecutePayout = (\<lambda>_. Inr sample_result)\<rparr>"

definition sample_request :: CreatePaymentRequest where
  "sample_request = \<lparr>cp_ExternalReference = ''order'', cp_Currency = ''USD'', cp_AmountMinor = 100,
     cp_TenantID = ''t1'', cp_IdempotencyKey = ''key'', cp_QuoteID = ''q1'', cp_FundingMethod = '''',
     cp_SourceAccountID = '''', cp_DestinationInstrumentID = ''''\<rparr>"

definition sample_quote_db :: db where
  "sample_quote_db = empty_db\<lparr>resources := [sample_resource ''src'', sample_resource ''dst''],
     quotes := [sample_quote QuoteOpen None]\<rparr>"


text \<open>
  C4: a payout is submitted at most once with success. After a successful execution every later
  execution, with whatever the provider would answer now, returns the recorded reference and status and
  neither calls the provider nor writes.
\<close>

theorem payout_execute_at_most_once:
  assumes "ExecutePayout provider e i s = (s1, Inr r)" and "pp_Name provider' = pp_Name provider"
  shows "\<exists>r'. ExecutePayout provider' e' i s1 = (s1, Inr r') \<and>
    er_ProviderReference r' = er_ProviderReference r \<and> er_Status r' = er_Status r"
proof -
  from assms(1) obtain req where load: "loadExecutionRequest i s = Inr req" and exec: "executePayout provider e req s = (s1, Inr r)"
    by (auto simp: ExecutePayout_def split: sum.splits)
  obtain key where req: "req = (i, key)" using load by (auto simp: loadExecutionRequest_def split: option.splits)
  from executePayout_success [OF exec [unfolded req]] obtain q source row r' where
    q: "accepted_quote PaymentDirectionPayout i (pp_Name provider) s1 = Some q" "q_source q = Some source" and
    row: "find_payout i s1 = Some row" "po_idempotency_key row = key" and pays: "payments s1 = payments s" and
    ref: "coalesce (po_provider_payout row) = er_ProviderReference r" "er_ProviderReference r \<noteq> ''''" and
    res: "mapPersistedResult (er_ProviderReference r) (po_status row) = Inr r'"
      "er_ProviderReference r' = er_ProviderReference r" "er_Status r' = er_Status r" by blast
  from prepare_again [OF q row, of e'] assms(2) obtain request where
    "prepare (pp_Name provider') e' i key s1 = Inr (\<lparr>at_request = request,
       at_providerReference = coalesce (po_provider_payout row), at_providerStatus = po_status row, at_new = False\<rparr>, s1)" by auto
  moreover have "i \<noteq> '''' \<and> key \<noteq> ''''" using exec by (auto simp: executePayout_def req split: if_splits)
  moreover have "loadExecutionRequest i s1 = Inr (i, key)"
    using load pays by (simp add: loadExecutionRequest_def req)
  ultimately show ?thesis using ref res by (simp add: ExecutePayout_def executePayout_def)
qed

definition sample_execute_db :: db where
  "sample_execute_db = (sample_db PaymentStatusProcessing)\<lparr>resources := [sample_resource ''src'', sample_resource ''dst''],
     quotes := [sample_quote QuoteAccepted (Some ''p1'')]\<rparr>"

theorem payout_execute_at_most_once_witness:
  "\<exists>s1 r r'. ExecutePayout sample_provider sample_env ''p1'' sample_execute_db = (s1, Inr r) \<and>
     ExecutePayout (sample_provider\<lparr>pp_ExecutePayout := (\<lambda>_. Inl (ErrText ''down''))\<rparr>) sample_env ''p1'' s1 = (s1, Inr r') \<and>
     er_Status r' = ExecutionSucceeded"
proof -
  let ?run = "ExecutePayout sample_provider sample_env ''p1'' sample_execute_db"
  have "snd ?run = Inr sample_result" by code_simp
  then obtain s1 where run: "?run = (s1, Inr sample_result)" by (cases ?run) auto
  from payout_execute_at_most_once [OF run, of "sample_provider\<lparr>pp_ExecutePayout := (\<lambda>_. Inl (ErrText ''down''))\<rparr>" sample_env]
    run show ?thesis by (auto simp: sample_provider_def sample_result_def)
qed

text \<open>
  C38: a submission whose outcome is not known to be retryable is never repeated: while the row has no
  provider reference and its status is not \<open>unknown\<close>, every execution answers that the outcome is unknown,
  without calling the provider. This also holds for a row left \<open>submission_pending\<close> by a crash, so such a
  payout is stuck until an operator acts.
\<close>

theorem unresolved_submission_not_repeated:
  assumes "loadExecutionRequest i s = Inr (i, key)" and "i \<noteq> ''''" and "key \<noteq> ''''"
    and "accepted_quote PaymentDirectionPayout i (pp_Name provider) s = Some q" and "q_source q = Some source"
    and "find_payout i s = Some row" and "po_idempotency_key row = key"
    and "po_provider_payout row = None" and "po_status row \<noteq> ''unknown''"
  shows "ExecutePayout provider e i s = (s, Inl ErrSubmissionUnknown)"
proof -
  from prepare_again [OF assms(4-7)] obtain request where
    "prepare (pp_Name provider) e i key s = Inr (\<lparr>at_request = request,
       at_providerReference = coalesce (po_provider_payout row), at_providerStatus = po_status row, at_new = False\<rparr>, s)"
    by blast
  with assms show ?thesis by (simp add: ExecutePayout_def executePayout_def coalesce_def)
qed

definition sample_crashed_db :: db where
  "sample_crashed_db = sample_execute_db\<lparr>payouts :=
     [payout_row_of ''mock'' sample_env ''p1'' ''kp1'' (sample_quote QuoteAccepted (Some ''p1'')) ''src'']\<rparr>"

theorem unresolved_submission_not_repeated_witness:
  "ExecutePayout sample_provider sample_env ''p1'' sample_crashed_db = (sample_crashed_db, Inl ErrSubmissionUnknown)"
  by (rule unresolved_submission_not_repeated [where key = "''kp1''" and q = "sample_quote QuoteAccepted (Some ''p1'')"
        and source = "''src''" and row = "payout_row_of ''mock'' sample_env ''p1'' ''kp1'' (sample_quote QuoteAccepted (Some ''p1'')) ''src''"])
    code_simp+

end
