(* ===== verification/Payin_Service.thy ===== *)
theory Payin_Service
  imports Payout_Service
begin

text \<open>
  The pay-in service (\<^verbatim>\<open>paymentcore/payin\<close>: \<^verbatim>\<open>port.go\<close>, \<^verbatim>\<open>quote.go\<close>, \<^verbatim>\<open>create.go\<close>, \<^verbatim>\<open>execute.go\<close>,
  \<^verbatim>\<open>result.go\<close>, \<^verbatim>\<open>events.go\<close>). The provider is a parameter, as in the payout service, whose generic helpers
  (quote lookups, payment rows) are reused.
\<close>

subsection \<open>Requests and providers\<close>

record PayinQuoteRequest = QuoteRequest +
  qr_SourceInstrumentID :: string
  qr_DestinationAccountID :: string

definition PayinQuoteRequest_Validate :: "PayinQuoteRequest \<Rightarrow> unit result" where
  "PayinQuoteRequest_Validate r =
     (if qr_IdempotencyKey r = '''' \<or> qr_TenantID r = '''' \<or> qr_FundingMethod r = '''' \<or> qr_SourceCurrency r = '''' \<or>
         qr_DestinationCurrency r = '''' \<or> qr_DestinationAccountID r = '''' \<or> qr_AmountMinor r \<le> 0 \<or>
         (qr_CurrencyType r \<noteq> ''sender'' \<and> qr_CurrencyType r \<noteq> ''receiver'')
      then Inl (ErrText ''payin quote identity, funding method, currencies, destination account, positive amount, and valid currency type are required'')
      else Inr ())"

record ExecuteResult = ExecutionResult +
  er_Instructions :: raw

record PayinProvider =
  pn_Name :: string
  pn_CreatePayinQuote :: "PayinQuoteRequest \<Rightarrow> ProviderQuote result"
  pn_ExecutePayin :: "ExecuteRequest \<Rightarrow> ExecuteResult result"

definition payin_NewService :: "PayinProvider \<Rightarrow> PayinProvider \<Rightarrow> (PayinProvider \<times> PayinProvider) result" where
  "payin_NewService quoteProvider executionProvider =
     (if pn_Name quoteProvider \<noteq> pn_Name executionProvider
      then Inl (ErrText ''payin quote and execution providers must match'')
      else Inr (quoteProvider, executionProvider))"

subsection \<open>Quotes\<close>

record PayinQuote =
  iq_Direction :: string
  iq_ID :: string
  iq_Provider :: string
  iq_TenantID :: string
  iq_FundingMethod :: string
  iq_SourceInstrumentID :: string
  iq_DestinationAccountID :: string
  iq_SourceCurrency :: string
  iq_DestinationCurrency :: string
  iq_SenderAmountMinor :: int
  iq_ReceiverAmountMinor :: int
  iq_Status :: QuoteStatus
  iq_ExpiresAt :: time
  iq_CreatedAt :: time
  iq_UpdatedAt :: time

definition scan_payin_quote :: "quote_row \<Rightarrow> PayinQuote" where
  "scan_payin_quote q = \<lparr>iq_Direction = ''payin'', iq_ID = q_id q, iq_Provider = q_provider q,
     iq_TenantID = q_tenant q, iq_FundingMethod = q_method q, iq_SourceInstrumentID = coalesce (q_source q),
     iq_DestinationAccountID = q_destination q, iq_SourceCurrency = q_source_currency q,
     iq_DestinationCurrency = q_destination_currency q, iq_SenderAmountMinor = q_sender_amount q,
     iq_ReceiverAmountMinor = q_receiver_amount q, iq_Status = q_status q, iq_ExpiresAt = q_expires_at q,
     iq_CreatedAt = q_created_at q, iq_UpdatedAt = q_updated_at q\<rparr>"

definition payin_quote_request_matches :: "PayinQuoteRequest \<Rightarrow> quote_row \<Rightarrow> bool" where
  "payin_quote_request_matches r q \<longleftrightarrow> q_method q = qr_FundingMethod r \<and>
     coalesce (q_source q) = qr_SourceInstrumentID r \<and> q_destination q = qr_DestinationAccountID r \<and>
     q_currency_type q = qr_CurrencyType r \<and> q_cover_fees q = qr_CoverFees r \<and>
     q_request_amount q = qr_AmountMinor r \<and> q_source_currency q = qr_SourceCurrency r \<and>
     q_destination_currency q = qr_DestinationCurrency r"

definition payin_CreateQuote ::
  "PayinProvider \<Rightarrow> env \<Rightarrow> PayinQuoteRequest \<Rightarrow> db \<Rightarrow> (PayinQuote \<times> db) result" where
  "payin_CreateQuote provider e r s =
     bindE (PayinQuoteRequest_Validate r) (\<lambda>_.
       case quote_by_key PaymentDirectionPayin (qr_TenantID r) (qr_IdempotencyKey r) s of
         Some q \<Rightarrow> if \<not> payin_quote_request_matches r q then Inl ErrPayinIdempotencyConflict
                   else Inr (scan_payin_quote q, s)
       | None \<Rightarrow>
           bindE (pn_CreatePayinQuote provider r) (\<lambda>res.
           bindE (newID ''pqi_'' 0 e) (\<lambda>i.
             let now = env_now e;
                 payload = or_raw (pq_Payload res) (JObj []);
                 context = or_raw (pq_ExecutionContext res) (JObj []);
                 row = \<lparr>q_id = i, q_direction = PaymentDirectionPayin, q_provider = pn_Name provider,
                    q_provider_quote_id = pq_ProviderQuoteID res, q_tenant = qr_TenantID r,
                    q_idempotency_key = qr_IdempotencyKey r, q_source = nullif (qr_SourceInstrumentID r),
                    q_destination = qr_DestinationAccountID r, q_method = qr_FundingMethod r,
                    q_source_currency = pq_SourceCurrency res, q_destination_currency = pq_DestinationCurrency res,
                    q_currency_type = qr_CurrencyType r, q_cover_fees = qr_CoverFees r,
                    q_request_amount = qr_AmountMinor r, q_sender_amount = pq_SenderAmountMinor res,
                    q_receiver_amount = pq_ReceiverAmountMinor res, q_commercial_rate = None,
                    q_provider_rate = None, q_flat_fee = None, q_partner_fee = None, q_billing_fee = None,
                    q_status = QuoteOpen, q_expires_at = pq_ExpiresAt res, q_payload = payload,
                    q_execution_context = context, q_payment = None, q_created_at = now, q_updated_at = now\<rparr>
             in if \<not> json_Valid payload \<or> \<not> json_Valid context then Inl (ErrConstraint ''payment_quotes'')
                else bindE (insert_quote row s) (\<lambda>s1. Inr (scan_payin_quote row, s1)))))"

subsection \<open>Creating a pay-in payment\<close>

record PayinCreateRequest =
  ci_TenantID :: string
  ci_IdempotencyKey :: string
  ci_ExternalReference :: string
  ci_QuoteID :: string
  ci_AmountMinor :: int
  ci_Currency :: string
  ci_FundingMethod :: string
  ci_SourceInstrumentID :: string
  ci_DestinationAccountID :: string

definition PayinCreateRequest_Validate :: "PayinCreateRequest \<Rightarrow> unit result" where
  "PayinCreateRequest_Validate r =
     (if TrimSpace (ci_TenantID r) = '''' \<or> TrimSpace (ci_IdempotencyKey r) = '''' \<or>
         TrimSpace (ci_ExternalReference r) = ''''
      then Inl (ErrText ''tenant, idempotency key, and external reference are required'')
      else let direct = ci_AmountMinor r \<noteq> 0 \<or> ci_Currency r \<noteq> '''' \<or> ci_FundingMethod r \<noteq> '''' \<or>
                 ci_SourceInstrumentID r \<noteq> '''' \<or> ci_DestinationAccountID r \<noteq> ''''
      in if ci_QuoteID r \<noteq> ''''
         then (if direct then Inl (ErrText ''payin quote and direct payment fields cannot be combined'') else Inr ())
         else if ci_AmountMinor r \<le> 0 \<or> length (TrimSpace (ci_Currency r)) < 3 \<or>
                 TrimSpace (ci_FundingMethod r) = '''' \<or> TrimSpace (ci_DestinationAccountID r) = ''''
         then Inl (ErrText ''direct payin requires positive amount, currency, funding method, and destination account'')
         else Inr ())"

record Payin =
  py_PaymentID :: string
  py_QuoteID :: string
  py_Provider :: string
  py_ProviderPayinID :: string
  py_FundingMethod :: string
  py_SourceInstrumentID :: string
  py_DestinationAccountID :: string
  py_SourceAmountMinor :: int
  py_SourceCurrency :: string
  py_DestinationAmountMinor :: int
  py_DestinationCurrency :: string
  py_Status :: string
  py_Instructions :: raw
  py_CreatedAt :: time
  py_UpdatedAt :: time

definition scan_payin :: "payin_row \<Rightarrow> Payin" where
  "scan_payin r = \<lparr>py_PaymentID = pi_payment r, py_QuoteID = coalesce (pi_quote r), py_Provider = pi_provider r,
     py_ProviderPayinID = coalesce (pi_provider_payin r), py_FundingMethod = pi_method r,
     py_SourceInstrumentID = coalesce (pi_source r), py_DestinationAccountID = pi_destination r,
     py_SourceAmountMinor = pi_source_amount r, py_SourceCurrency = pi_source_currency r,
     py_DestinationAmountMinor = pi_destination_amount r, py_DestinationCurrency = pi_destination_currency r,
     py_Status = pi_status r, py_Instructions = pi_instructions r, py_CreatedAt = pi_created_at r,
     py_UpdatedAt = pi_updated_at r\<rparr>"

definition enqueuePublicPaymentEvent ::
  "string \<Rightarrow> string \<Rightarrow> string \<Rightarrow> int \<Rightarrow> raw \<Rightarrow> time \<Rightarrow> db \<Rightarrow> db result" where
  "enqueuePublicPaymentEvent eventID payment ty version payload now s =
     (if ty = '''' \<or> version = 0 then Inl (ErrText ''invalid public payment event'')
      else insert_outbox_once (new_outbox eventID PaymentEventsTopic ty version payment ''payment'' payload now) s)"

text \<open>A key already bound to another quote or external reference is refused.\<close>

definition payin_key_conflict :: "PayinCreateRequest \<Rightarrow> string \<Rightarrow> db \<Rightarrow> bool" where
  "payin_key_conflict r quote s =
     (case List.find (\<lambda>p. pi_tenant p = ci_TenantID r \<and> pi_idempotency_key p = ci_IdempotencyKey r \<and>
             has_payment (pi_payment p) s) (payins s) of
        None \<Rightarrow> False
      | Some p \<Rightarrow> coalesce (pi_quote p) \<noteq> quote \<or>
          (case find_payment (pi_payment p) s of
             None \<Rightarrow> True | Some pm \<Rightarrow> pay_external_reference pm \<noteq> ci_ExternalReference r))"

definition payin_of_quote :: "string \<Rightarrow> quote_row \<Rightarrow> string \<Rightarrow> PayinCreateRequest \<Rightarrow> string \<Rightarrow> time \<Rightarrow> payin_row" where
  "payin_of_quote provider q payment r quote now = \<lparr>pi_payment = payment, pi_quote = nullif quote,
     pi_tenant = ci_TenantID r, pi_idempotency_key = ci_IdempotencyKey r, pi_method = q_method q,
     pi_source = nullif (coalesce (q_source q)), pi_destination = q_destination q,
     pi_source_amount = q_sender_amount q, pi_source_currency = q_source_currency q,
     pi_destination_amount = q_receiver_amount q, pi_destination_currency = q_destination_currency q,
     pi_provider = provider, pi_provider_payin = None, pi_status = ''created'', pi_reconciliation = Unmatched,
     pi_instructions = Raw (JObj []), pi_payload = Raw (JObj []), pi_failure = None, pi_created_at = now,
     pi_updated_at = now\<rparr>"

definition payin_matches_quote :: "payin_row \<Rightarrow> quote_row \<Rightarrow> string \<Rightarrow> bool" where
  "payin_matches_quote p q quote \<longleftrightarrow> coalesce (pi_quote p) = quote \<and> pi_method p = q_method q \<and>
     coalesce (pi_source p) = coalesce (q_source q) \<and> pi_destination p = q_destination q \<and>
     pi_source_amount p = q_sender_amount q \<and> pi_source_currency p = q_source_currency q \<and>
     pi_destination_amount p = q_receiver_amount q \<and> pi_destination_currency p = q_destination_currency q"

definition accept_payin_quote :: "string \<Rightarrow> string \<Rightarrow> time \<Rightarrow> db \<Rightarrow> db result" where
  "accept_payin_quote quote payment now s =
     (let open = (\<lambda>q. q_id q = quote \<and> q_direction q = PaymentDirectionPayin \<and> q_status q = QuoteOpen) in
      if affected open (quotes s) \<noteq> 1 then Inl (ErrText ''payin quote was consumed concurrently'')
      else put_quotes (update_where open
             (\<lambda>q. q\<lparr>q_status := QuoteAccepted, q_payment := Some payment, q_updated_at := now\<rparr>) (quotes s)) s)"

definition insert_payin_payment ::
  "PayinProvider \<Rightarrow> env \<Rightarrow> PayinCreateRequest \<Rightarrow> string \<Rightarrow> quote_row \<Rightarrow> db \<Rightarrow> (Payin \<times> db) result" where
  "insert_payin_payment provider e r quote q s =
     bindE (newID ''pay_'' 1 e) (\<lambda>payment.
       let now = env_now e; row = payin_of_quote (pn_Name provider) q payment r quote now;
           eventID = ''evt_'' @ payment @ ''_created''; body = Raw (JObj [(''payin_id'', JStr payment)])
       in bindE (insert_payment (new_payment_row payment PaymentDirectionPayin (ci_ExternalReference r)
                   (q_destination_currency q) (q_receiver_amount q) (ci_TenantID r) (ci_IdempotencyKey r) now) s) (\<lambda>s1.
          bindE (History_Record
                  \<lparr>au_payment = payment, au_event = ''created'', au_message = ''payin payment intent created'', au_at = now\<rparr>
                  \<lparr>tl_payment = payment, tl_status = PaymentStatusCreated, tl_note = ''payin payment created'', tl_at = now\<rparr> s1) (\<lambda>s2.
          bindE (insert_payin row s2) (\<lambda>s3.
          bindE (accept_payin_quote quote payment now s3) (\<lambda>s4.
          bindE (insert_outbox (new_outbox eventID PayinEventsTopic ''payin.created'' SchemaVersion payment ''payin'' body now) s4) (\<lambda>s5.
          bindE (enqueuePublicPaymentEvent (eventID @ ''_payment'') payment ''payment.created'' SchemaVersion body now s5) (\<lambda>s6.
            Inr (scan_payin row, s6))))))))"

definition createPayin :: "PayinProvider \<Rightarrow> env \<Rightarrow> PayinCreateRequest \<Rightarrow> string \<Rightarrow> db \<Rightarrow> (Payin \<times> db) result" where
  "createPayin provider e r quote s =
     (if payin_key_conflict r quote s then Inl ErrPayinIdempotencyConflict else
      case find_quote PaymentDirectionPayin quote s of
        None \<Rightarrow> Inl ErrPayinNotFound
      | Some q \<Rightarrow>
          if q_tenant q \<noteq> ci_TenantID r then Inl ErrPayinNotFound else
          (case List.find (\<lambda>p. pi_quote p = Some quote) (payins s) of
             Some p \<Rightarrow> if payin_matches_quote p q quote then Inr (scan_payin p, s) else Inl ErrPayinIdempotencyConflict
           | None \<Rightarrow>
               if q_status q \<noteq> QuoteOpen \<or> q_expires_at q \<le> env_now e
               then Inl (ErrText ''payin quote expired or already accepted'')
               else insert_payin_payment provider e r quote q s))"

definition payin_implicit_quote :: "PayinCreateRequest \<Rightarrow> PayinQuoteRequest" where
  "payin_implicit_quote r = \<lparr>qr_IdempotencyKey = ci_IdempotencyKey r @ '':implicit-quote'',
     qr_TenantID = ci_TenantID r, qr_FundingMethod = ci_FundingMethod r, qr_SourceCurrency = ci_Currency r,
     qr_DestinationCurrency = ci_Currency r, qr_CurrencyType = ''sender'', qr_AmountMinor = ci_AmountMinor r,
     qr_CoverFees = False, qr_SourceInstrumentID = ci_SourceInstrumentID r,
     qr_DestinationAccountID = ci_DestinationAccountID r\<rparr>"

definition payment_of_payin :: "PayinCreateRequest \<Rightarrow> Payin \<Rightarrow> Payment" where
  "payment_of_payin r p = \<lparr>pm_ID = py_PaymentID p, pm_Direction = PaymentDirectionPayin,
     pm_ExternalReference = ci_ExternalReference r, pm_Currency = py_DestinationCurrency p,
     pm_AmountMinor = py_DestinationAmountMinor p, pm_TenantID = ci_TenantID r,
     pm_PaymentStatus = PaymentStatusCreated, pm_AuditLog = [], pm_Timeline = [], pm_CreatedAt = py_CreatedAt p,
     pm_UpdatedAt = py_UpdatedAt p, pm_IdempotencyKey = '''', pm_QuoteID = '''', pm_Settlement = None\<rparr>"

text \<open>The implicit quote is committed before the pay-in, so the database is returned beside the result.\<close>

definition payin_CreatePayment :: "PayinProvider \<Rightarrow> env \<Rightarrow> PayinCreateRequest \<Rightarrow> db \<Rightarrow> db \<times> Payment result" where
  "payin_CreatePayment provider e r0 s =
     (case PayinCreateRequest_Validate r0 of
        Inl err \<Rightarrow> (s, Inl err)
      | Inr _ \<Rightarrow>
          let r = r0\<lparr>ci_Currency := ToUpper (TrimSpace (ci_Currency r0))\<rparr>;
              finish = (\<lambda>quote t. case createPayin provider e r quote t of
                 Inl err \<Rightarrow> (t, Inl err) | Inr (p, t') \<Rightarrow> (t', Inr (payment_of_payin r p)))
          in if ci_QuoteID r = ''''
             then (case payin_CreateQuote provider e (payin_implicit_quote r) s of
                     Inl err \<Rightarrow> (s, Inl err)
                   | Inr (q, s1) \<Rightarrow> finish (iq_ID q) s1)
             else finish (ci_QuoteID r) s)"

subsection \<open>Executing a pay-in\<close>

definition find_payin :: "string \<Rightarrow> db \<Rightarrow> payin_row option" where
  "find_payin i s = List.find (\<lambda>r. pi_payment r = i) (payins s)"

definition update_payin :: "(payin_row \<Rightarrow> bool) \<Rightarrow> (payin_row \<Rightarrow> payin_row) \<Rightarrow> db \<Rightarrow> db result" where
  "update_payin P f s = put_payins (update_where P f (payins s)) s"

definition payin_recordError :: "env \<Rightarrow> string \<Rightarrow> string \<Rightarrow> err \<Rightarrow> db \<Rightarrow> db result" where
  "payin_recordError e payin status cause s =
     update_payin (\<lambda>r. pi_payment r = payin \<and> pi_status r = ''submission_pending'')
       (\<lambda>r. r\<lparr>pi_status := status, pi_failure := Some (err_text cause), pi_updated_at := env_now e\<rparr>) s"

definition normalizeResultStatus :: "ExecutionStatus \<Rightarrow> string" where
  "normalizeResultStatus st =
     (case st of
        ExecutionPending \<Rightarrow> ''processing''
      | ExecutionOnHold \<Rightarrow> ''on_hold''
      | ExecutionSucceeded \<Rightarrow> ''received''
      | ExecutionFailed \<Rightarrow> ''failed''
      | ExecutionOther t \<Rightarrow> ''unknown'')"

definition executionStatusFromPayin :: "string \<Rightarrow> ExecutionStatus" where
  "executionStatusFromPayin st =
     (if st = ''on_hold'' then ExecutionOnHold
      else if st = ''received'' then ExecutionSucceeded
      else if st = ''failed'' then ExecutionFailed
      else if st = ''refunded'' then ExecutionFailed else ExecutionPending)"

definition paymentStateForResult :: "string \<Rightarrow> PaymentStatus" where
  "paymentStateForResult st =
     (if st = ''failed'' \<or> st = ''refunded'' then PaymentStatusFailed else PaymentStatusProcessing)"

definition provider_quote_of :: "payin_row \<Rightarrow> db \<Rightarrow> string" where
  "provider_quote_of r s =
     (case pi_quote r of
        None \<Rightarrow> ''''
      | Some i \<Rightarrow> (case List.find (\<lambda>q. q_id q = i) (quotes s) of None \<Rightarrow> '''' | Some q \<Rightarrow> q_provider_quote_id q))"

text \<open>\<open>ExecutePayin\<close> commits the pending status before it calls the provider.\<close>

definition submit_payin :: "PayinProvider \<Rightarrow> env \<Rightarrow> string \<Rightarrow> ExecuteRequest \<Rightarrow> db \<Rightarrow> db \<times> ExecuteResult result" where
  "submit_payin provider e payin request s =
     (case ExecuteRequest_Validate request of
        Inl err \<Rightarrow> (s, Inl err)
      | Inr _ \<Rightarrow>
         (case pn_ExecutePayin provider request of
            Inl err \<Rightarrow>
             (case payin_recordError e payin (if submission_failed err then ''failed'' else ''unknown'') err s of
                Inl _ \<Rightarrow> (s, Inl err) | Inr s1 \<Rightarrow> (s1, Inl err))
          | Inr r \<Rightarrow>
             (case ExecutionResult_Validate (ExecutionResult.truncate r) of
                Inl err \<Rightarrow> (s, Inl err) | Inr _ \<Rightarrow> (s, Inr r))))"

definition ExecutePayin :: "PayinProvider \<Rightarrow> env \<Rightarrow> string \<Rightarrow> db \<Rightarrow> db \<times> ExecuteResult result" where
  "ExecutePayin provider e payin s =
     (case List.find (\<lambda>r. pi_payment r = payin \<and> pi_provider r = pn_Name provider) (payins s) of
        None \<Rightarrow> (s, Inl ErrPayinNotFound)
      | Some r \<Rightarrow>
          if coalesce (pi_provider_payin r) \<noteq> ''''
          then (s, Inr \<lparr>er_ProviderReference = coalesce (pi_provider_payin r),
                  er_Status = executionStatusFromPayin (pi_status r), er_FailureCode = '''', er_FailureMessage = '''',
                  er_Payload = pi_payload r, er_Instructions = pi_instructions r\<rparr>)
          else if pi_status r \<notin> {''created'', ''submission_pending'', ''unknown''}
          then (s, Inl (ErrText ''payin cannot execute from this status''))
          else (case update_payin (\<lambda>p. pi_payment p = payin)
                  (\<lambda>p. p\<lparr>pi_status := ''submission_pending'', pi_updated_at := env_now e\<rparr>) s of
                  Inl err \<Rightarrow> (s, Inl err)
                | Inr s1 \<Rightarrow> submit_payin provider e payin
                    \<lparr>xr_IdempotencyKey = pi_idempotency_key r, xr_ProviderQuoteID = provider_quote_of r s\<rparr> s1))"

subsection \<open>Applying a provider result\<close>

definition public_payin_type :: "string \<Rightarrow> string" where
  "public_payin_type st = (if st = ''processing'' \<or> st = ''on_hold'' then ''payment.processing''
     else if st = ''failed'' \<or> st = ''refunded'' then ''payment.failed'' else '''')"

text \<open>The writes of \<open>ApplyResult\<close>, once the row is locked.\<close>

definition apply_payin_result :: "string \<Rightarrow> ExecuteResult \<Rightarrow> raw \<Rightarrow> raw \<Rightarrow> time \<Rightarrow> db \<Rightarrow> db result" where
  "apply_payin_result payin r payload instructions now s =
     (let lifecycle = normalizeResultStatus (er_Status r);
          failure = (if er_FailureMessage r = '''' then er_FailureCode r else er_FailureMessage r);
          status = paymentStateForResult lifecycle;
          eventType = ''payin.'' @ lifecycle;
          eventID = ''evt_'' @ payin @ ''_'' @ lifecycle;
          body = Raw (JObj [(''data'', JObj [(''status'', JStr (execution_status_text (er_Status r)))]),
                   (''id'', JStr eventID), (''occurred_at'', at_json now), (''payin_id'', JStr payin),
                   (''reason'', JStr failure), (''type'', JStr eventType)]);
          version = version_in [''processing'', ''on_hold'', ''received'', ''failed'', ''refunded''] lifecycle;
          publicType = public_payin_type lifecycle
      in bindE (update_payin (\<lambda>p. pi_payment p = payin)
                 (\<lambda>p. p\<lparr>pi_provider_payin := nullif (er_ProviderReference r), pi_status := lifecycle,
                        pi_instructions := instructions, pi_payload := payload, pi_failure := nullif failure,
                        pi_updated_at := now\<rparr>) s) (\<lambda>s1.
         bindE (RecordTimeline \<lparr>tl_payment = payin, tl_status = status, tl_note = eventType, tl_at = now\<rparr>
                 (set_payment_status payin status now s1)) (\<lambda>s2.
         bindE (insert_outbox_once (new_outbox eventID PayinEventsTopic eventType version payin ''payin'' body now) s2) (\<lambda>s3.
           if publicType = '''' then Inr s3
           else enqueuePublicPaymentEvent (eventID @ ''_payment'') payin publicType
                  (version_in [''payment.processing'', ''payment.failed''] publicType) body now s3))))"

definition payin_ApplyResult :: "string \<Rightarrow> ExecuteResult \<Rightarrow> time \<Rightarrow> db \<Rightarrow> db result" where
  "payin_ApplyResult payin r now s =
     (let payload = or_raw (er_Payload r) (JObj []);
          instructions = or_raw (er_Instructions r) (JObj [])
      in if find_payin payin s = None \<or> \<not> has_payment payin s then Inl ErrNoRows
         else if \<not> json_Valid payload \<or> \<not> json_Valid instructions then Inl (ErrConstraint ''payins'')
         else apply_payin_result payin r payload instructions now s)"

subsection \<open>Effects\<close>

lemma update_payin_keeps [store_keeps]: "update_payin P f s = Inr s' \<Longrightarrow> store_ok s \<Longrightarrow> store_ok s'"
  by (auto simp: update_payin_def intro: put_payins_keeps)

lemma enqueuePublicPaymentEvent_keeps [store_keeps]:
  "enqueuePublicPaymentEvent i p ty v body now s = Inr s' \<Longrightarrow> store_ok s \<Longrightarrow> store_ok s'"
  by (auto simp: enqueuePublicPaymentEvent_def split: if_splits intro: insert_outbox_once_keeps)

lemma enqueuePublicPaymentEvent_shape:
  "enqueuePublicPaymentEvent i p ty v body now s = Inr s' \<Longrightarrow> \<exists>ob n. s' = s\<lparr>outbox := ob, outbox_seq := n\<rparr>"
  by (auto simp: enqueuePublicPaymentEvent_def split: if_splits dest: insert_outbox_once_shape)

text \<open>The steps of a successful \<open>ApplyResult\<close>.\<close>

lemma payin_ApplyResult_steps:
  assumes "payin_ApplyResult i r now s = Inr s'"
  obtains f s1 s2 s3 t e1 where
    "update_payin (\<lambda>p. pi_payment p = i) f s = Inr s1"
    "RecordTimeline t (set_payment_status i (paymentStateForResult (normalizeResultStatus (er_Status r))) now s1) = Inr s2"
    "insert_outbox_once e1 s2 = Inr s3"
    "s' = s3 \<or> (\<exists>k ty v body. enqueuePublicPaymentEvent k i ty v body now s3 = Inr s')" "has_payment i s"
proof -
  from assms obtain payload instructions where p: "has_payment i s" and
    w: "apply_payin_result i r payload instructions now s = Inr s'"
    by (auto simp: payin_ApplyResult_def Let_def split: if_splits)
  from w show thesis
    unfolding apply_payin_result_def Let_def bindE_Inr_iff
    by (elim exE conjE) (rule that, assumption+, metis Inr_inject, rule p)
qed

lemma payin_ApplyResult_keeps [store_keeps]:
  assumes "payin_ApplyResult i r now s = Inr s'" and "store_ok s"
  shows "store_ok s'"
proof -
  from assms(1) obtain f s1 s2 s3 t e1 where
    a: "update_payin (\<lambda>p. pi_payment p = i) f s = Inr s1" and
    b: "RecordTimeline t (set_payment_status i (paymentStateForResult (normalizeResultStatus (er_Status r))) now s1) = Inr s2" and
    c: "insert_outbox_once e1 s2 = Inr s3" and
    d: "s' = s3 \<or> (\<exists>k ty v body. enqueuePublicPaymentEvent k i ty v body now s3 = Inr s')"
    by (rule payin_ApplyResult_steps)
  have "store_ok s3"
    using update_payin_keeps [OF a assms(2)] RecordTimeline_keeps [OF b] insert_outbox_once_keeps [OF c]
      store_ok_set_payment_status by blast
  with d show ?thesis using enqueuePublicPaymentEvent_keeps by blast
qed

lemma payin_ApplyResult_frame:
  assumes "payin_ApplyResult i r now s = Inr s'"
  shows "journals s' = journals s" and "entries s' = entries s" and "sagas s' = sagas s" and "inbox s' = inbox s"
    and "quotes s' = quotes s" and "endpoints s' = endpoints s"
    and "status_of k s' = (if k = i then Some (paymentStateForResult (normalizeResultStatus (er_Status r))) else status_of k s)"
proof -
  let ?st = "paymentStateForResult (normalizeResultStatus (er_Status r))"
  from assms obtain f s1 s2 s3 t e1 where
    a: "update_payin (\<lambda>p. pi_payment p = i) f s = Inr s1" and
    b: "RecordTimeline t (set_payment_status i ?st now s1) = Inr s2" and
    c: "insert_outbox_once e1 s2 = Inr s3" and
    d: "s' = s3 \<or> (\<exists>k ty v body. enqueuePublicPaymentEvent k i ty v body now s3 = Inr s')" and
    p: "has_payment i s"
    by (rule payin_ApplyResult_steps)
  from a obtain pt where s1: "s1 = s\<lparr>payins := pt\<rparr>" by (auto simp: update_payin_def put_payins_def split: if_splits)
  from b obtain tl where s2: "s2 = (set_payment_status i ?st now s1)\<lparr>timeline := tl\<rparr>" by (auto simp: RecordTimeline_Inr)
  from insert_outbox_once_shape [OF c] d obtain ob n where s': "s' = s2\<lparr>outbox := ob, outbox_seq := n\<rparr>"
    by (auto dest!: enqueuePublicPaymentEvent_shape)
  show "journals s' = journals s" "entries s' = entries s" "sagas s' = sagas s" "inbox s' = inbox s"
    "quotes s' = quotes s" "endpoints s' = endpoints s"
    by (simp_all add: s' s2 s1)
  have "status_of k s' = status_of k (set_payment_status i ?st now s1)" by (rule status_of_frame) (simp add: s' s2)
  also have "\<dots> = (if k = i then Some ?st else status_of k s)"
    using p status_of_frame [of s1 s k] by (simp add: status_of_set_status s1 has_payment_def)
  finally show "status_of k s' = (if k = i then Some ?st else status_of k s)" .
qed

subsection \<open>Creating a pay-in twice\<close>

lemma insert_payin_payment_Inr:
  assumes "insert_payin_payment provider e r quote q s = Inr (p, s')"
  shows "\<exists>payment. let row = payin_of_quote (pn_Name provider) q payment r quote (env_now e);
      prow = new_payment_row payment PaymentDirectionPayin (ci_ExternalReference r) (q_destination_currency q)
        (q_receiver_amount q) (ci_TenantID r) (ci_IdempotencyKey r) (env_now e);
      open = (\<lambda>q. q_id q = quote \<and> q_direction q = PaymentDirectionPayin \<and> q_status q = QuoteOpen)
    in p = scan_payin row \<and> payins s' = payins s @ [row] \<and> payins_ok (payins s') \<and>
       payments s' = payments s @ [prow] \<and> payments_ok (payments s') \<and> quotes_ok (quotes s') \<and>
       quotes s' = update_where open (\<lambda>q. q\<lparr>q_status := QuoteAccepted, q_payment := Some payment, q_updated_at := env_now e\<rparr>) (quotes s) \<and>
       journals s' = journals s \<and> entries s' = entries s \<and> (store_ok s \<longrightarrow> store_ok s')"
proof -
  from assms obtain payment s1 s2 s3 s4 s5 a t ob ev body where
    s1: "insert_payment (new_payment_row payment PaymentDirectionPayin (ci_ExternalReference r) (q_destination_currency q)
        (q_receiver_amount q) (ci_TenantID r) (ci_IdempotencyKey r) (env_now e)) s = Inr s1" and
    s2: "History_Record a t s1 = Inr s2" and
    s3: "insert_payin (payin_of_quote (pn_Name provider) q payment r quote (env_now e)) s2 = Inr s3" and
    s4: "accept_payin_quote quote payment (env_now e) s3 = Inr s4" and
    s5: "insert_outbox ob s4 = Inr s5" and
    s6: "enqueuePublicPaymentEvent ev payment ''payment.created'' SchemaVersion body (env_now e) s5 = Inr s'" and
    p: "p = scan_payin (payin_of_quote (pn_Name provider) q payment r quote (env_now e))"
    unfolding insert_payin_payment_def Let_def bindE_Inr_iff by blast
  from s2 have e2: "payments s2 = payments s1" "payins s2 = payins s1" "quotes s2 = quotes s1"
    "journals s2 = journals s1" "entries s2 = entries s1" by (auto simp: History_Record_Inr)
  from s3 have e3: "payments s3 = payments s2" "journals s3 = journals s2" "entries s3 = entries s2" "quotes s3 = quotes s2" "payins_ok (payins s3)"
    "payins s3 = payins s2 @ [payin_of_quote (pn_Name provider) q payment r quote (env_now e)]"
    by (auto simp: insert_payin_def put_payins_def split: if_splits)
  from s4 have e4: "payments s4 = payments s3" "journals s4 = journals s3" "entries s4 = entries s3" "payins s4 = payins s3" "quotes_ok (quotes s4)"
    "quotes s4 = update_where (\<lambda>q. q_id q = quote \<and> q_direction q = PaymentDirectionPayin \<and> q_status q = QuoteOpen)
       (\<lambda>q. q\<lparr>q_status := QuoteAccepted, q_payment := Some payment, q_updated_at := env_now e\<rparr>) (quotes s3)"
    and k4: "store_ok s3 \<Longrightarrow> store_ok s4"
    by (auto simp: accept_payin_quote_def put_quotes_def Let_def split: if_splits)
      (auto simp: store_ok_def has_defs)
  from insert_outbox_shape [OF s5] enqueuePublicPaymentEvent_shape [OF s6] have
    e6: "payments s' = payments s4" "journals s' = journals s4" "entries s' = entries s4" "payins s' = payins s4" "quotes s' = quotes s4" by auto
  have keeps: "store_ok s \<Longrightarrow> store_ok s'"
    using insert_payment_keeps [OF s1] History_Record_keeps [OF s2] insert_payin_keeps [OF s3] k4
      insert_outbox_keeps [OF s5] enqueuePublicPaymentEvent_keeps [OF s6] by blast
  from s1 have e1: "journals s1 = journals s" "entries s1 = entries s" "payins s1 = payins s" "quotes s1 = quotes s" "payments_ok (payments s1)"
    "payments s1 = payments s @ [new_payment_row payment PaymentDirectionPayin (ci_ExternalReference r) (q_destination_currency q)
        (q_receiver_amount q) (ci_TenantID r) (ci_IdempotencyKey r) (env_now e)]"
    by (auto simp: insert_payment_Inr)
  show ?thesis
    unfolding Let_def using p e1 e2 e3 e4 e6 keeps by (intro exI [of _ payment]) simp
qed

lemma coalesce_source [simp]: "coalesce (nullif (coalesce v)) = coalesce v"
  by simp

lemma createPayin_again:
  assumes "createPayin provider e r quote s = Inr (p, s')" and "store_ok s" and "quote \<noteq> ''''"
  shows "\<exists>p'. createPayin provider' e' r quote s' = Inr (p', s') \<and> py_PaymentID p' = py_PaymentID p"
proof -
  from assms(1) obtain q where nc: "\<not> payin_key_conflict r quote s" and
    q: "find_quote PaymentDirectionPayin quote s = Some q" "q_tenant q = ci_TenantID r"
    by (auto simp: createPayin_def split: if_splits option.splits)
  show ?thesis
  proof (cases "List.find (\<lambda>p. pi_quote p = Some quote) (payins s)")
    case (Some pr)
    with assms(1) nc q have "s' = s" "createPayin provider' e' r quote s = Inr (p, s)"
      by (auto simp: createPayin_def split: if_splits)
    then show ?thesis by blast
  next
    case None
    with assms(1) nc q have ins: "insert_payin_payment provider e r quote q s = Inr (p, s')" and op: "q_status q = QuoteOpen"
      by (auto simp: createPayin_def split: if_splits)
    from insert_payin_payment_Inr [OF ins] obtain payment row prow where
      row: "row = payin_of_quote (pn_Name provider) q payment r quote (env_now e)" and
      prow: "prow = new_payment_row payment PaymentDirectionPayin (ci_ExternalReference r) (q_destination_currency q)
        (q_receiver_amount q) (ci_TenantID r) (ci_IdempotencyKey r) (env_now e)" and
      p: "p = scan_payin row" and pins: "payins s' = payins s @ [row]" "payins_ok (payins s')" and
      pays: "payments s' = payments s @ [prow]" "payments_ok (payments s')" and qok: "quotes_ok (quotes s')" and
      quo: "quotes s' = update_where (\<lambda>q. q_id q = quote \<and> q_direction q = PaymentDirectionPayin \<and> q_status q = QuoteOpen)
        (\<lambda>q. q\<lparr>q_status := QuoteAccepted, q_payment := Some payment, q_updated_at := env_now e\<rparr>) (quotes s)"
      by (auto simp: Let_def)
    let ?q' = "q\<lparr>q_status := QuoteAccepted, q_payment := Some payment, q_updated_at := env_now e\<rparr>"
    have qid: "q_id q = quote" "q_direction q = PaymentDirectionPayin" "q \<in> set (quotes s)"
      using find_quote_id [OF q(1)] by auto
    have "?q' \<in> set (quotes s')" using qid op by (force simp: quo set_update_where)
    from find_quote_unique [OF qok this] qid have fq: "find_quote PaymentDirectionPayin quote s' = Some ?q'" by simp
    have fresh: "\<not> has_payment payment s" using pays by (auto simp: payments_ok_def has_payment_def prow new_payment_row_def)
    then have pay: "find_payment payment s' = Some prow"
      by (auto simp: find_payment_def pays find_append prow new_payment_row_def has_payment_find split: option.splits)
    have keyed: "List.find (\<lambda>p. pi_tenant p = ci_TenantID r \<and> pi_idempotency_key p = ci_IdempotencyKey r \<and>
        has_payment (pi_payment p) s') (payins s') = Some row"
    proof -
      have "row \<in> set (payins s')" "pi_tenant row = ci_TenantID r" "pi_idempotency_key row = ci_IdempotencyKey r"
        "has_payment (pi_payment row) s'"
        using find_payment_has [OF pay] by (simp_all add: pins row payin_of_quote_def)
      then have "List.find (\<lambda>p. pi_tenant p = ci_TenantID r \<and> pi_idempotency_key p = ci_IdempotencyKey r \<and>
        has_payment (pi_payment p) s') (payins s') \<noteq> None" by (auto simp: find_None_iff_all)
      then obtain x where x: "List.find (\<lambda>p. pi_tenant p = ci_TenantID r \<and> pi_idempotency_key p = ci_IdempotencyKey r \<and>
        has_payment (pi_payment p) s') (payins s') = Some x" by auto
      from find_Some_memb [OF x] have "x \<in> set (payins s')" "(pi_tenant x, pi_idempotency_key x) = (pi_tenant row, pi_idempotency_key row)"
        by (simp_all add: row payin_of_quote_def)
      moreover have "inj_on (\<lambda>r. (pi_tenant r, pi_idempotency_key r)) (set (payins s'))"
        using pins(2) by (simp add: payins_ok_def distinct_map)
      ultimately have "x = row" using \<open>row \<in> set (payins s')\<close> by (meson inj_onD)
      with x show ?thesis by simp
    qed
    have "\<not> payin_key_conflict r quote s'"
      using keyed pay by (simp add: payin_key_conflict_def row payin_of_quote_def prow new_payment_row_def)
    moreover have "List.find (\<lambda>p. pi_quote p = Some quote) (payins s') = Some row"
      using None assms(3) by (simp add: pins find_append row payin_of_quote_def nullif_def)
    moreover have "payin_matches_quote row ?q' quote" by (simp add: payin_matches_quote_def row payin_of_quote_def)
    ultimately show ?thesis using fq q(2) p by (simp add: createPayin_def)
  qed
qed

text \<open>A result that arrives late can move a succeeded payment back to processing: nothing guards the status.\<close>

lemma payin_late_result_regresses:
  assumes "payin_ApplyResult i r now s = Inr s'" and "status_of i s = Some PaymentStatusSucceeded"
    and "er_Status r = ExecutionPending"
  shows "status_of i s' = Some PaymentStatusProcessing"
  using payin_ApplyResult_frame(7) [OF assms(1), of i] assms(3)
  by (simp add: normalizeResultStatus_def paymentStateForResult_def)

lemma payin_ApplyResult_find:
  assumes "payin_ApplyResult i r now s = Inr s'" and "find_payin i s = Some row"
  shows "\<exists>row'. find_payin i s' = Some row' \<and> pi_provider_payin row' = nullif (er_ProviderReference r) \<and>
    pi_status row' = normalizeResultStatus (er_Status r) \<and> pi_provider row' = pi_provider row"
proof -
  from assms(1) obtain payload instructions where w: "apply_payin_result i r payload instructions now s = Inr s'"
    by (auto simp: payin_ApplyResult_def Let_def split: if_splits)
  let ?f = "\<lambda>p. p\<lparr>pi_provider_payin := nullif (er_ProviderReference r), pi_status := normalizeResultStatus (er_Status r),
     pi_instructions := instructions, pi_payload := payload,
     pi_failure := nullif (if er_FailureMessage r = '''' then er_FailureCode r else er_FailureMessage r), pi_updated_at := now\<rparr>"
  from w obtain s1 s2 s3 st t ob where
    a: "update_payin (\<lambda>p. pi_payment p = i) ?f s = Inr s1" and b: "RecordTimeline t (set_payment_status i st now s1) = Inr s2" and
    c: "insert_outbox_once ob s2 = Inr s3" and
    d: "s' = s3 \<or> (\<exists>k ty v body. enqueuePublicPaymentEvent k i ty v body now s3 = Inr s')"
    unfolding apply_payin_result_def Let_def bindE_Inr_iff by (metis Inr_inject)
  from a have s1: "payins s1 = update_where (\<lambda>p. pi_payment p = i) ?f (payins s)"
    by (auto simp: update_payin_def put_payins_def split: if_splits)
  from b have "payins s2 = payins s1" by (auto simp: RecordTimeline_Inr)
  moreover from insert_outbox_once_shape [OF c] d have "payins s' = payins s2"
    by (auto dest!: enqueuePublicPaymentEvent_shape)
  ultimately have "find_payin i s' = map_option (\<lambda>p. if pi_payment p = i then ?f p else p) (find_payin i s)"
    unfolding find_payin_def using s1 by (simp add: find_update_where)
  with assms(2) show ?thesis by (auto simp: find_payin_def dest: find_Some_memb)
qed

subsection \<open>Properties\<close>

text \<open>
  Creating a pay-in payment is idempotent: repeating a successful request with its quote, at any
  later time, returns the same payment and writes nothing.
\<close>

theorem payin_create_idempotent:
  assumes "payin_CreatePayment provider e r s = (s', Inr p)" and "ci_QuoteID r \<noteq> ''''" and "store_ok s"
  shows "\<exists>p'. payin_CreatePayment provider' e' r s' = (s', Inr p') \<and> pm_ID p' = pm_ID p"
proof -
  let ?r = "r\<lparr>ci_Currency := ToUpper (TrimSpace (ci_Currency r))\<rparr>"
  from assms(1,2) obtain py where v: "PayinCreateRequest_Validate r = Inr ()" and
    c: "createPayin provider e ?r (ci_QuoteID r) s = Inr (py, s')" and p: "p = payment_of_payin ?r py"
    by (auto simp: payin_CreatePayment_def Let_def split: sum.splits)
  from createPayin_again [OF c assms(3,2)] obtain py' where
    "createPayin provider' e' ?r (ci_QuoteID r) s' = Inr (py', s')" "py_PaymentID py' = py_PaymentID py" by blast
  with v assms(2) p show ?thesis by (simp add: payin_CreatePayment_def Let_def payment_of_payin_def)
qed

definition sample_payin_provider :: PayinProvider where
  "sample_payin_provider = \<lparr>pn_Name = ''mock'', pn_CreatePayinQuote = (\<lambda>_. Inl (ErrText ''no quotes'')),
     pn_ExecutePayin = (\<lambda>_. Inl (ErrText ''down''))\<rparr>"

definition sample_payin_quote_db :: db where
  "sample_payin_quote_db = empty_db\<lparr>resources := [sample_resource ''src'', sample_resource ''dst''],
     quotes := [(sample_quote QuoteOpen None)\<lparr>q_direction := PaymentDirectionPayin\<rparr>]\<rparr>"

definition sample_payin_request :: PayinCreateRequest where
  "sample_payin_request = \<lparr>ci_TenantID = ''t1'', ci_IdempotencyKey = ''key'', ci_ExternalReference = ''order'',
     ci_QuoteID = ''q1'', ci_AmountMinor = 0, ci_Currency = '''', ci_FundingMethod = '''',
     ci_SourceInstrumentID = '''', ci_DestinationAccountID = ''''\<rparr>"

theorem payin_create_idempotent_witness:
  "\<exists>s' p p'. payin_CreatePayment sample_payin_provider sample_env sample_payin_request sample_payin_quote_db = (s', Inr p) \<and>
     payin_CreatePayment sample_payin_provider (sample_env\<lparr>env_now := 9000\<rparr>) sample_payin_request s' = (s', Inr p') \<and>
     pm_ID p' = pm_ID p \<and> length (payins s') = 1"
proof -
  let ?run = "payin_CreatePayment sample_payin_provider sample_env sample_payin_request sample_payin_quote_db"
  have "\<exists>x. snd ?run = Inr x" by (rule not_isl_Inr) code_simp
  then obtain s' p where run: "?run = (s', Inr p)" by (cases ?run) auto
  have one: "length (payins (fst ?run)) = 1" by code_simp
  have hyps: "ci_QuoteID sample_payin_request \<noteq> ''''" "store_ok sample_payin_quote_db" by code_simp+
  from payin_create_idempotent [OF run hyps] run one show ?thesis by auto
qed

text \<open>
  A recorded pay-in result answers every later execution command: the provider is not called again and
  the command gets back the recorded reference and status.
\<close>

theorem payin_result_roundtrip:
  assumes "payin_ApplyResult i r now s = Inr s'" and "store_ok s" and "find_payin i s = Some row"
    and "pi_provider row = pn_Name provider" and "ExecutionResult_Validate (ExecutionResult.truncate r) = Inr ()"
  shows "\<exists>r'. ExecutePayin provider e i s' = (s', Inr r') \<and> er_ProviderReference r' = er_ProviderReference r \<and>
    er_Status r' = er_Status r"
proof -
  from payin_ApplyResult_find [OF assms(1,3)] obtain row' where
    row': "find_payin i s' = Some row'" "pi_provider_payin row' = nullif (er_ProviderReference r)"
      "pi_status row' = normalizeResultStatus (er_Status r)" "pi_provider row' = pn_Name provider" using assms(4) by auto
  have mem: "row' \<in> set (payins s')" "pi_payment row' = i" using row'(1) by (auto simp: find_payin_def dest: find_Some_memb)
  have "distinct (map pi_payment (payins s'))"
    using payin_ApplyResult_keeps [OF assms(1,2)] by (simp add: store_ok_def payins_ok_def)
  then have same: "x = row'" if "x \<in> set (payins s')" "pi_payment x = i" for x
    using that mem by (auto simp: distinct_map dest: inj_onD)
  have "List.find (\<lambda>r. pi_payment r = i \<and> pi_provider r = pn_Name provider) (payins s') \<noteq> None"
    using mem row'(4) by (auto simp: find_None_iff_all)
  then obtain x where x: "List.find (\<lambda>r. pi_payment r = i \<and> pi_provider r = pn_Name provider) (payins s') = Some x" by auto
  with same find_Some_memb [OF x] have "x = row'" by blast
  moreover have "er_ProviderReference r \<noteq> ''''" "er_Status r = ExecutionPending \<or> er_Status r = ExecutionOnHold \<or>
      er_Status r = ExecutionSucceeded \<or> er_Status r = ExecutionFailed"
    using assms(5) by (auto simp: result_simps ExecutionResult.defs)
  ultimately show ?thesis
    using x row' by (auto simp: ExecutePayin_def executionStatusFromPayin_def normalizeResultStatus_def)
qed

definition sample_received_db :: db where
  "sample_received_db = (sample_db PaymentStatusProcessing)\<lparr>payins :=
     [(payin_of_quote ''mock'' (sample_quote QuoteAccepted (Some ''p1'')) ''p1'' sample_payin_request ''q1'' 1)]\<rparr>"

definition sample_payin_result :: ExecuteResult where
  "sample_payin_result = \<lparr>er_ProviderReference = ''pi1'', er_Status = ExecutionSucceeded, er_FailureCode = '''',
     er_FailureMessage = '''', er_Payload = RawEmpty, er_Instructions = RawEmpty\<rparr>"

theorem payin_result_roundtrip_witness:
  "\<exists>s' r'. payin_ApplyResult ''p1'' sample_payin_result 7 sample_received_db = Inr s' \<and>
     ExecutePayin sample_payin_provider sample_env ''p1'' s' = (s', Inr r') \<and> er_Status r' = ExecutionSucceeded"
proof -
  have "\<exists>s'. payin_ApplyResult ''p1'' sample_payin_result 7 sample_received_db = Inr s'" by (rule not_isl_Inr) code_simp
  then obtain s' where s': "payin_ApplyResult ''p1'' sample_payin_result 7 sample_received_db = Inr s'" ..
  have "\<exists>r'. ExecutePayin sample_payin_provider sample_env ''p1'' s' = (s', Inr r') \<and>
      er_ProviderReference r' = er_ProviderReference sample_payin_result \<and> er_Status r' = er_Status sample_payin_result"
    by (rule payin_result_roundtrip [OF s', where row = "payin_of_quote ''mock'' (sample_quote QuoteAccepted (Some ''p1''))
          ''p1'' sample_payin_request ''q1'' 1"]) code_simp+
  with s' show ?thesis by (auto simp: sample_payin_result_def)
qed

end
