(* ===== verification/Workers.thy ===== *)
theory Workers
  imports Inbox Payout_Saga Payin_Saga Payin_Service
begin

text \<open>
  Package \<^verbatim>\<open>workers\<close> (\<^verbatim>\<open>handlers.go\<close>): the command handler that carries out the commands of both sagas
  with the policy evaluator, the ledger and the settlement services, the two saga event handlers, and the
  replies they enqueue.

  The handler is a client of three interfaces. The locale \<open>command_services\<close> states what it relies on;
  \<open>sublocale\<close> shows that a command handler over such services is a handler the inbox can run exactly once,
  and the interpretation at the end discharges the contract for the services of the program.
\<close>

subsection \<open>The interfaces\<close>

record payoutCommandService =
  pcs_ExecutePayout :: "env \<Rightarrow> string \<Rightarrow> db \<Rightarrow> db \<times> ExecutionResult result"
  pcs_ApplyResult :: "string \<Rightarrow> string \<Rightarrow> ExecutionResult \<Rightarrow> time \<Rightarrow> db \<Rightarrow> db result"

record payinCommandService =
  ncs_ExecutePayin :: "env \<Rightarrow> string \<Rightarrow> db \<Rightarrow> db \<times> ExecuteResult result"
  ncs_ApplyResult :: "string \<Rightarrow> ExecuteResult \<Rightarrow> time \<Rightarrow> db \<Rightarrow> db result"

text \<open>A nil dependency is \<open>None\<close>.\<close>

record CommandHandler =
  h_policyEvaluator :: "evaluator option"
  h_ledgerService :: "LedgerService option"
  h_payoutService :: "payoutCommandService option"
  h_payinService :: "payinCommandService option"

definition NewCommandHandler ::
  "evaluator option \<Rightarrow> LedgerService option \<Rightarrow> payoutCommandService option \<Rightarrow> payinCommandService option \<Rightarrow> CommandHandler" where
  "NewCommandHandler evaluate svc payoutSvc payinSvc = \<lparr>h_policyEvaluator = evaluate, h_ledgerService = svc,
     h_payoutService = payoutSvc, h_payinService = payinSvc\<rparr>"

record commandPayload =
  cp_PaymentID :: string
  cp_PayinID :: string
  cp_Reason :: string

definition decode_command :: "raw \<Rightarrow> commandPayload option" where
  "decode_command body =
     (case (Unmarshal_str ''payment_id'' body, Unmarshal_str ''payin_id'' body, Unmarshal_str ''reason'' body) of
        (Some payment, Some payin, Some reason) \<Rightarrow>
          Some \<lparr>cp_PaymentID = payment, cp_PayinID = payin, cp_Reason = reason\<rparr>
      | _ \<Rightarrow> None)"

subsection \<open>Replies\<close>

definition enqueuePayinReply :: "env \<Rightarrow> event \<Rightarrow> string \<Rightarrow> string \<Rightarrow> string \<Rightarrow> db \<Rightarrow> db result" where
  "enqueuePayinReply e caused payin eventType reason s =
     bindE (newID ''evt_'' 0 e) (\<lambda>i.
       insert_outbox (new_outbox i PayinEventsTopic eventType (version_in [''payin.policy.approved''] eventType)
         (ev_AggregateID caused) ''payin''
         (Raw (JObj [(''caused_by_event_id'', JStr (ev_ID caused)), (''payin_id'', JStr payin),
                     (''payment_id'', JStr (ev_AggregateID caused)), (''reason'', JStr reason)])) (env_now e)) s)"

definition loadPaymentAmount :: "string \<Rightarrow> db \<Rightarrow> (int \<times> string) result" where
  "loadPaymentAmount i s =
     (case find_payment i s of None \<Rightarrow> Inl ErrNoRows | Some p \<Rightarrow> Inr (pay_amount p, pay_currency p))"

definition replies :: "string list" where
  "replies = [''payout.policy.approved'', ''payout.policy.rejected'', ''payout.funds_reserved'', ''payout.ledger_failed'',
     ''payout.funds_released'', ''payout.provider_completed'', ''payout.provider_failed'', ''payout.provider_returned'',
     ''payout.on_hold'', ''payout.completed'', ''payout.failed'', ''payout.funds_returned'']"

definition public_type :: "string \<Rightarrow> string" where
  "public_type reply = (if reply = ''payout.funds_reserved'' then ''payment.processing''
     else if reply = ''payout.completed'' then ''payment.succeeded''
     else if reply = ''payout.failed'' then ''payment.failed'' else '''')"

definition reply_body :: "event \<Rightarrow> commandPayload \<Rightarrow> string \<Rightarrow> raw" where
  "reply_body caused p reply = Raw (JObj ([(''caused_by_event_id'', JStr (ev_ID caused))] @
     (if reply = ''payout.completed'' then [(''payment_status'', JStr ''succeeded'')]
      else if reply = ''payout.failed'' \<or> reply = ''payout.funds_returned'' then [(''payment_status'', JStr ''failed'')]
      else []) @ [(''reason'', JStr (cp_Reason p))]))"

definition enqueueReply :: "env \<Rightarrow> event \<Rightarrow> commandPayload \<Rightarrow> string \<Rightarrow> db \<Rightarrow> db result" where
  "enqueueReply e caused p reply s =
     bindE (newID ''evt_'' 0 e) (\<lambda>i.
     bindE (insert_outbox (new_outbox i PayoutEventsTopic reply (version_in replies reply) (cp_PaymentID p) ''payout''
              (reply_body caused p reply) (env_now e)) s) (\<lambda>s1.
       if public_type reply = '''' then Inr s1
       else bindE (newID ''evt_'' 1 e) (\<lambda>publicID.
         insert_outbox (new_outbox publicID PaymentEventsTopic (public_type reply)
           (version_in [''payment.processing'', ''payment.succeeded'', ''payment.failed''] (public_type reply))
           (cp_PaymentID p) ''payment'' (reply_body caused p reply) (env_now e)) s1)))"

subsection \<open>Commands\<close>

definition failed_payin :: "string \<Rightarrow> string \<Rightarrow> ExecuteResult" where
  "failed_payin code message = \<lparr>er_ProviderReference = '''', er_Status = ExecutionFailed, er_FailureCode = code,
     er_FailureMessage = message, er_Payload = RawEmpty, er_Instructions = RawEmpty\<rparr>"

definition failed_payout :: "string \<Rightarrow> string \<Rightarrow> ExecutionResult" where
  "failed_payout code message = \<lparr>er_ProviderReference = '''', er_Status = ExecutionFailed, er_FailureCode = code,
     er_FailureMessage = message, er_Payload = RawEmpty\<rparr>"

definition evaluate_payin :: "evaluator \<Rightarrow> payinCommandService \<Rightarrow> env \<Rightarrow> event \<Rightarrow> string \<Rightarrow> db \<Rightarrow> db result" where
  "evaluate_payin evaluate payinSvc e ev payin s =
     (case find_payin payin s of
        None \<Rightarrow> Inl ErrNoRows
      | Some r \<Rightarrow>
          bindE (evaluate \<lparr>pr_OperationID = payin, pr_Direction = ''payin'', pr_AmountMinor = pi_source_amount r,
                   pr_Currency = pi_source_currency r\<rparr>) (\<lambda>decision.
            if \<not> pd_Approved decision
            then ncs_ApplyResult payinSvc payin (failed_payin '''' (pd_Reason decision)) (env_now e) s
            else enqueuePayinReply e ev payin ''payin.policy.approved'' '''' s))"

definition execute_payin :: "payinCommandService \<Rightarrow> env \<Rightarrow> string \<Rightarrow> db \<Rightarrow> db \<times> db result" where
  "execute_payin payinSvc e payin s =
     (case ncs_ExecutePayin payinSvc e payin s of
        (s1, Inr r) \<Rightarrow> (s1, ncs_ApplyResult payinSvc payin r (env_now e) s1)
      | (s1, Inl err) \<Rightarrow>
          (s1, case err of
                 ErrProvider pe \<Rightarrow>
                   if \<not> pe_Retryable pe
                   then ncs_ApplyResult payinSvc payin (failed_payin (pe_Code pe) (pe_Message pe)) (env_now e) s1
                   else Inl err
               | _ \<Rightarrow> Inl err))"

definition evaluate_payout :: "evaluator \<Rightarrow> env \<Rightarrow> event \<Rightarrow> commandPayload \<Rightarrow> db \<Rightarrow> db result" where
  "evaluate_payout evaluate e ev p s =
     bindE (loadPaymentAmount (cp_PaymentID p) s) (\<lambda>(amount, currency).
     bindE (evaluate \<lparr>pr_OperationID = cp_PaymentID p, pr_Direction = ''payout'', pr_AmountMinor = amount,
              pr_Currency = currency\<rparr>) (\<lambda>decision.
       if \<not> pd_Approved decision
       then enqueueReply e ev (p\<lparr>cp_Reason := pd_Reason decision\<rparr>) ''payout.policy.rejected'' s
       else enqueueReply e ev p ''payout.policy.approved'' s))"

definition execute_settlement :: "payoutCommandService \<Rightarrow> env \<Rightarrow> event \<Rightarrow> string \<Rightarrow> db \<Rightarrow> db \<times> db result" where
  "execute_settlement payoutSvc e ev payment s =
     (case pcs_ExecutePayout payoutSvc e payment s of
        (s1, Inr r) \<Rightarrow> (s1, pcs_ApplyResult payoutSvc payment (ev_ID ev) r (env_now e) s1)
      | (s1, Inl err) \<Rightarrow>
          (s1, case err of
                 ErrProvider pe \<Rightarrow>
                   if \<not> pe_Retryable pe
                   then (if pe_Code pe = ''submission_failed''
                         then pcs_ApplyResult payoutSvc payment (ev_ID ev) (failed_payout (pe_Code pe) (pe_Message pe)) (env_now e) s1
                         else Inl (Permanent err))
                   else Inl err
               | _ \<Rightarrow> Inl err))"

text \<open>A ledger call whose status error is permanent.\<close>

definition permanent_status :: "db result \<Rightarrow> db result" where
  "permanent_status r = (case r of Inl err \<Rightarrow> Inl (if err = ErrInvalidPaymentStatus then Permanent err else err) | Inr s \<Rightarrow> Inr s)"

text \<open>The commands \<open>payment.fail\<close>, \<open>payment.fail_reserved\<close> and \<open>payment.return\<close>.\<close>

definition outcome_eligible :: "string \<Rightarrow> db \<Rightarrow> payment_row \<Rightarrow> bool" where
  "outcome_eligible ty s p \<longleftrightarrow>
     (if ty = ''payment.return''
      then pay_status p = PaymentStatusFailed \<and>
           list_ex (\<lambda>j. jr_payment j = pay_id p \<and> jr_event j = ''payment.released'' \<and> jr_status j = LedgerPosted) (journals s)
      else pay_status p \<notin> {PaymentStatusSucceeded, PaymentStatusFailed})"

definition record_outcome :: "env \<Rightarrow> event \<Rightarrow> commandPayload \<Rightarrow> db \<Rightarrow> db result" where
  "record_outcome e ev p s =
     (let ret = (ev_Type ev = ''payment.return'');
          i = cp_PaymentID p;
          now = env_now e;
          eventName = (if ret then ''returned'' else ''failed'');
          message = (if ret \<and> cp_Reason p = '''' then ''provider returned payout funds'' else cp_Reason p);
          eligible = (\<lambda>r. pay_id r = i \<and> outcome_eligible (ev_Type ev) s r)
      in if affected eligible (payments s) \<noteq> 1 then Inl (Permanent (ErrText ''payment is not eligible''))
         else bindE (History_Record \<lparr>au_payment = i, au_event = eventName, au_message = message, au_at = now\<rparr>
                       \<lparr>tl_payment = i, tl_status = PaymentStatusFailed, tl_note = message, tl_at = now\<rparr>
                       (s\<lparr>payments := update_where eligible
                            (\<lambda>r. r\<lparr>pay_status := PaymentStatusFailed, pay_updated_at := now\<rparr>) (payments s)\<rparr>))
                (enqueueReply e ev p (if ret then ''payout.funds_returned'' else ''payout.failed'')))"

text \<open>The switch over the command types, once the payload is decoded.\<close>

definition run_command ::
  "evaluator \<Rightarrow> LedgerService \<Rightarrow> payoutCommandService \<Rightarrow> payinCommandService \<Rightarrow> env \<Rightarrow> event \<Rightarrow> commandPayload \<Rightarrow> db \<Rightarrow>
   db \<times> db result" where
  "run_command evaluate svc payoutSvc payinSvc e ev p s =
     (let ty = ev_Type ev; now = env_now e; i = cp_PaymentID p;
          payin = (if cp_PayinID p = '''' then ev_AggregateID ev else cp_PayinID p)
      in if ty = ''payin.policy.evaluate'' then (s, evaluate_payin evaluate payinSvc e ev payin s)
         else if ty = ''payin.execute'' then execute_payin payinSvc e payin s
         else if ty = ''payin.ledger.record'' then (s, ls_RecordPayin svc payin now s)
         else if ty = ''payin.fail''
         then (s, if cp_PayinID p = '''' then Inl (Permanent (ErrText ''payin ID is required''))
                  else ncs_ApplyResult payinSvc (cp_PayinID p) (failed_payin '''' (cp_Reason p)) now s)
         else if ty = ''policy.evaluate'' then (s, evaluate_payout evaluate e ev p s)
         else if ty = ''ledger.reserve''
         then (s, bindE (permanent_status (ls_Reserve svc i now s)) (enqueueReply e ev p ''payout.funds_reserved''))
         else if ty = ''settlement.execute'' then execute_settlement payoutSvc e ev i s
         else if ty = ''ledger.release''
         then (s, bindE (permanent_status (ls_Release svc i now s)) (enqueueReply e ev p ''payout.funds_released''))
         else if ty = ''payment.settle''
         then (s, bindE (permanent_status (ls_Settle svc i now s)) (enqueueReply e ev p ''payout.completed''))
         else if ty = ''payment.fail'' \<or> ty = ''payment.fail_reserved'' \<or> ty = ''payment.return''
         then (s, record_outcome e ev p s)
         else (s, Inl (Permanent (ErrText ''unsupported command''))))"

definition command_Handle :: "CommandHandler \<Rightarrow> handler" where
  "command_Handle h e ev s =
     (case (h_policyEvaluator h, h_ledgerService h, h_payoutService h, h_payinService h) of
        (Some evaluate, Some svc, Some payoutSvc, Some payinSvc) \<Rightarrow>
         (case decode_command (ev_Payload ev) of
            None \<Rightarrow> (s, Inl (Permanent (ErrText ''invalid command payload'')))
          | Some p \<Rightarrow> run_command evaluate svc payoutSvc payinSvc e ev
              (if cp_PaymentID p = '''' then p\<lparr>cp_PaymentID := ev_AggregateID ev\<rparr> else p) s)
      | _ \<Rightarrow> (s, Inl (ErrText ''command handler dependencies are required'')))"

subsection \<open>Saga events\<close>

definition payout_saga_events :: "string list" where
  "payout_saga_events = [''payout.created'', ''payout.completed'', ''payout.failed'', ''payout.policy.approved'',
     ''payout.policy.rejected'', ''payout.funds_reserved'', ''payout.ledger_failed'', ''payout.funds_released'',
     ''payout.provider_completed'', ''payout.provider_failed'', ''payout.provider_returned'', ''payout.on_hold'']"

definition PayoutSagaHandler :: "SagaCoordinator \<Rightarrow> handler" where
  "PayoutSagaHandler c =
     in_tx (\<lambda>e ev s. if ev_Type ev \<notin> set payout_saga_events then Inr s else payout_Handle c e ev s)"

definition PayinSagaHandler :: "PayinSagaCoordinator \<Rightarrow> handler" where
  "PayinSagaHandler c =
     in_tx (\<lambda>e ev s. if \<not> HasPrefix (ev_Type ev) ''payin.'' then Inr s else payin_Handle c e ev s)"

text \<open>
  The timeout worker: rounds of \<open>ExpireOnce\<close>, each with the environment and the locks it meets, until the
  list of rounds ends (the context is cancelled) or a round fails.
\<close>

fun TimeoutWorker ::
  "(env \<Rightarrow> (string \<Rightarrow> bool) \<Rightarrow> db \<Rightarrow> (nat \<times> db) result) \<Rightarrow> (env \<times> (string \<Rightarrow> bool)) list \<Rightarrow> db \<Rightarrow> db \<times> err option" where
  "TimeoutWorker expire [] s = (s, None)"
| "TimeoutWorker expire ((e, locked) # rounds) s =
     (case expire e locked s of Inl err \<Rightarrow> (s, Some err) | Inr (n, s1) \<Rightarrow> TimeoutWorker expire rounds s1)"


subsection \<open>Effects on the books, the inbox and the sagas\<close>

text \<open>What every command leaves behind: the ledger invariant, and the tables it does not touch.\<close>

definition tx_effect :: "db \<Rightarrow> db \<Rightarrow> bool" where
  "tx_effect s s' \<longleftrightarrow> (ledger_ok s \<longrightarrow> ledger_ok s') \<and> inbox s' = inbox s \<and> sagas s' = sagas s \<and>
     quotes s' = quotes s \<and> endpoints s' = endpoints s \<and> ledger_extends s s'"

lemma tx_effect_refl [simp]: "tx_effect s s"
  by (simp add: tx_effect_def ledger_extends_def)

lemma tx_effect_trans: "tx_effect s t \<Longrightarrow> tx_effect t u \<Longrightarrow> tx_effect s u"
  using ledger_extends_trans [of s t u] by (simp add: tx_effect_def)

lemma tx_effectI:
  assumes "store_ok s \<Longrightarrow> store_ok s'" and "journals s' = journals s" and "entries s' = entries s"
    and "inbox s' = inbox s" and "sagas s' = sagas s" and "quotes s' = quotes s" and "endpoints s' = endpoints s"
  shows "tx_effect s s'"
  using assms ledger_balanced_frame [of s' s] by (simp add: tx_effect_def ledger_ok_def ledger_extends_frame)

lemma insert_outbox_frame:
  assumes "insert_outbox r s = Inr s'"
  shows "tx_effect s s'" and "payments s' = payments s"
  using insert_outbox_shape [OF assms] insert_outbox_keeps [OF assms] by (auto intro!: tx_effectI)

lemma insert_outbox_once_frame:
  assumes "insert_outbox_once r s = Inr s'"
  shows "tx_effect s s'" and "payments s' = payments s"
  using insert_outbox_once_shape [OF assms] insert_outbox_once_keeps [OF assms] by (auto intro!: tx_effectI)

lemma enqueueReply_frame:
  assumes "enqueueReply e ev p reply s = Inr s'"
  shows "tx_effect s s' \<and> payments s' = payments s"
proof -
  from assms obtain r s1 where 1: "insert_outbox r s = Inr s1" and
    2: "s' = s1 \<or> (\<exists>r2. insert_outbox r2 s1 = Inr s')"
    unfolding enqueueReply_def bindE_Inr_iff by (auto simp: bindE_Inr_iff split: if_splits)
  show ?thesis using insert_outbox_frame [OF 1] 2 insert_outbox_frame tx_effect_trans by metis
qed

lemma enqueuePayinReply_frame:
  "enqueuePayinReply e ev payin ty reason s = Inr s' \<Longrightarrow> tx_effect s s'"
  unfolding enqueuePayinReply_def bindE_Inr_iff by (auto intro: insert_outbox_frame)

lemma ErrInr_permanent: "permanent_status r = Inr s' \<longleftrightarrow> r = Inr s'"
  by (cases r) (auto simp: permanent_status_def)

lemma ledger_ok_outcome:
  assumes "ledger_ok s"
  shows "ledger_ok (s\<lparr>payments := update_where P (\<lambda>r. r\<lparr>pay_status := st, pay_updated_at := now\<rparr>) (payments s)\<rparr>)"
    (is "ledger_ok ?s1")
proof -
  have "payments_ok (payments ?s1)" and "map pay_id (payments ?s1) = map pay_id (payments s)"
    using assms by (simp_all add: ledger_ok_def store_ok_def payments_ok_def table_simps)
  then have "store_ok ?s1"
    using assms by (auto simp: ledger_ok_def simp del: set_map intro!: store_ok_payments)
  moreover have "ledger_balanced ?s1" using assms ledger_balanced_frame [of ?s1 s] by (simp add: ledger_ok_def)
  ultimately show ?thesis by (simp add: ledger_ok_def)
qed

lemma find_payment_update:
  "find_payment k (s\<lparr>payments := update_where P (\<lambda>r. r\<lparr>pay_status := st, pay_updated_at := now\<rparr>) (payments s)\<rparr>) =
     map_option (\<lambda>r. if P r then r\<lparr>pay_status := st, pay_updated_at := now\<rparr> else r) (find_payment k s)"
  by (simp add: find_payment_def find_update_where)

text \<open>The outcome of a payment is recorded at most once, on an eligible row.\<close>

lemma record_outcome_Inr:
  assumes "record_outcome e ev p s = Inr s'"
  shows "tx_effect s s'"
    and "status_of k s' = (if k = cp_PaymentID p \<and> has_payment k s \<and> (\<exists>r. find_payment k s = Some r \<and> outcome_eligible (ev_Type ev) s r)
           then Some PaymentStatusFailed else status_of k s)"
proof -
  let ?P = "\<lambda>r. pay_id r = cp_PaymentID p \<and> outcome_eligible (ev_Type ev) s r"
  let ?s1 = "s\<lparr>payments := update_where ?P (\<lambda>r. r\<lparr>pay_status := PaymentStatusFailed, pay_updated_at := env_now e\<rparr>) (payments s)\<rparr>"
  from assms obtain a t s2 reply where h: "History_Record a t ?s1 = Inr s2" and
    q: "enqueueReply e ev p reply s2 = Inr s'"
    unfolding record_outcome_def Let_def by (auto simp: bindE_Inr_iff split: if_splits)
  from h obtain al tl where s2: "s2 = ?s1\<lparr>audits := al, timeline := tl\<rparr>" by (auto simp: History_Record_Inr)
  have "tx_effect s s2"
    using ledger_ok_outcome [of s ?P] by (simp add: s2 tx_effect_def ledger_extends_frame)
  with enqueueReply_frame [OF q] show "tx_effect s s'" using tx_effect_trans by blast
  have "status_of k s' = status_of k ?s1"
    using enqueueReply_frame [OF q] by (intro status_of_frame) (simp add: s2)
  then show "status_of k s' = (if k = cp_PaymentID p \<and> has_payment k s \<and>
      (\<exists>r. find_payment k s = Some r \<and> outcome_eligible (ev_Type ev) s r) then Some PaymentStatusFailed else status_of k s)"
    by (cases "find_payment k s") (auto simp: status_of_def find_payment_update dest: find_payment_id find_payment_has)
qed


subsection \<open>Effects of the settlement services\<close>

lemma payout_ApplyResult_frame:
  assumes "payout_ApplyResult provider i cmd r now s = Inr s'"
  shows "tx_effect s s'" and "payments s' = payments s"
proof -
  from assms obtain row s1 where 1: "upsert_submission row s = Inr s1" and
    2: "s' = s1 \<or> (\<exists>ty reason. enqueueProviderResult i cmd ty reason now s1 = Inr s')"
    unfolding payout_ApplyResult_def by (auto simp: bindE_Inr_iff split: if_splits)
  from 1 obtain t where s1: "s1 = s\<lparr>submissions := t\<rparr>"
    by (auto simp: upsert_submission_def Let_def split: if_splits)
  have "store_ok s \<Longrightarrow> store_ok s1" using upsert_submission_keeps [OF 1] .
  then have one: "tx_effect s s1" by (rule tx_effectI) (simp_all add: s1)
  have two: "tx_effect s1 s' \<and> payments s' = payments s1"
    using 2 by (auto simp: enqueueProviderResult_def Let_def split: if_splits dest: insert_outbox_once_frame)
  show "tx_effect s s'" using one two tx_effect_trans by blast
  show "payments s' = payments s" using two by (simp add: s1)
qed

text \<open>Both executions change one table of the settlement provider and nothing else.\<close>

definition payouts_only :: "db \<Rightarrow> db \<Rightarrow> bool" where
  "payouts_only s s' \<longleftrightarrow> (\<exists>t. s' = s\<lparr>payouts := t\<rparr>) \<and> (store_ok s \<longrightarrow> store_ok s')"

definition payins_only :: "db \<Rightarrow> db \<Rightarrow> bool" where
  "payins_only s s' \<longleftrightarrow> (\<exists>t. s' = s\<lparr>payins := t\<rparr>) \<and> (store_ok s \<longrightarrow> store_ok s')"

lemma payouts_only_refl [simp]: "payouts_only s s"
proof -
  have "s = s\<lparr>payouts := payouts s\<rparr>" by simp
  then show ?thesis unfolding payouts_only_def by blast
qed

lemma payins_only_refl [simp]: "payins_only s s"
proof -
  have "s = s\<lparr>payins := payins s\<rparr>" by simp
  then show ?thesis unfolding payins_only_def by blast
qed

lemma payouts_only_trans: "payouts_only s t \<Longrightarrow> payouts_only t u \<Longrightarrow> payouts_only s u"
  by (auto simp: payouts_only_def)

lemma payins_only_trans: "payins_only s t \<Longrightarrow> payins_only t u \<Longrightarrow> payins_only s u"
  by (auto simp: payins_only_def)

lemma only_frame:
  "payouts_only s s' \<Longrightarrow> tx_effect s s' \<and> payments s' = payments s"
  "payins_only s s' \<Longrightarrow> tx_effect s s' \<and> payments s' = payments s"
  by (auto simp: payouts_only_def payins_only_def intro!: tx_effectI)

lemma put_payouts_only: "put_payouts t s = Inr s' \<Longrightarrow> payouts_only s s'"
  using put_payouts_keeps [of t s s'] by (auto simp: payouts_only_def put_payouts_def split: if_splits)

lemma update_payin_only: "update_payin P f s = Inr s' \<Longrightarrow> payins_only s s'"
  using update_payin_keeps [of P f s s'] by (auto simp: payins_only_def update_payin_def put_payins_def split: if_splits)

lemma prepare_only: "prepare provider e i key s = Inr (a, s') \<Longrightarrow> payouts_only s s'"
  by (auto simp: prepare_def insert_payout_once_def bindE_Inr_iff Let_def
      split: option.splits if_splits dest: put_payouts_only)

lemma submit_payout_only: "submit_payout provider e i req s = (s', r) \<Longrightarrow> payouts_only s s'"
  by (auto simp: submit_payout_def recordError_def recordResponse_def Let_def
      split: sum.splits if_splits dest: put_payouts_only)

lemma ExecutePayout_only:
  assumes "ExecutePayout provider e i s = (s', r)"
  shows "payouts_only s s'"
proof (cases "loadExecutionRequest i s")
  case (Inr req)
  obtain payment key where req: "req = (payment, key)" by (cases req)
  show ?thesis
  proof (cases "prepare (pp_Name provider) e payment key s")
    case (Inl err)
    with assms Inr show ?thesis by (auto simp: ExecutePayout_def executePayout_def req split: if_splits)
  next
    case p: (Inr q)
    obtain a s1 where q: "q = (a, s1)" by (cases q)
    from assms Inr p have "s' = s \<or> s' = s1 \<or> submit_payout provider e payment (at_request a) s1 = (s', r)"
      by (auto simp: ExecutePayout_def executePayout_def req q split: if_splits)
    with prepare_only [OF p [unfolded q]] submit_payout_only payouts_only_trans show ?thesis by fastforce
  qed
qed (use assms in \<open>simp add: ExecutePayout_def\<close>)

lemma submit_payin_only: "submit_payin provider e i req s = (s', r) \<Longrightarrow> payins_only s s'"
  by (auto simp: submit_payin_def payin_recordError_def split: sum.splits dest: update_payin_only)

lemma ExecutePayin_only:
  assumes "ExecutePayin provider e i s = (s', r)"
  shows "payins_only s s'"
  using assms update_payin_only submit_payin_only payins_only_trans
  unfolding ExecutePayin_def by (fastforce split: option.splits if_splits sum.splits)

lemma payin_ApplyResult_effect: "payin_ApplyResult i r now s = Inr s' \<Longrightarrow> tx_effect s s'"
  by (auto intro!: tx_effectI dest: payin_ApplyResult_frame payin_ApplyResult_keeps)


subsection \<open>Effects of the saga handlers\<close>

lemma payout_Handle_frame:
  assumes "payout_Handle c e ev s = Inr s'"
  shows "payments s' = payments s \<and> inbox s' = inbox s \<and> journals s' = journals s \<and> entries s' = entries s"
proof (cases "ev_Type ev = ''payout.created''")
  case True
  with payout_start_Inr [OF payout_Handle_created [OF assms]] show ?thesis by (auto split: if_splits)
next
  case False
  from payout_Handle_cases [OF assms False] show ?thesis by (metis updateAndCommand_frame(1-4))
qed

lemma payin_Handle_frame:
  assumes "payin_Handle c e ev s = Inr s'"
  shows "payments s' = payments s \<and> inbox s' = inbox s \<and> journals s' = journals s \<and> entries s' = entries s"
  using assms by (cases rule: payin_Handle_cases) auto

subsection \<open>The contract of the services and what the handler makes of it\<close>

definition terminal :: "PaymentStatus \<Rightarrow> bool" where
  "terminal st \<longleftrightarrow> st = PaymentStatusSucceeded \<or> st = PaymentStatusFailed"

definition payout_command :: "string \<Rightarrow> bool" where
  "payout_command ty \<longleftrightarrow> ty \<in> {''policy.evaluate'', ''ledger.reserve'', ''settlement.execute'', ''ledger.release'',
     ''payment.settle'', ''payment.fail'', ''payment.fail_reserved'', ''payment.return''}"

text \<open>A payout command leaves a payment alone once its outcome is known, and never touches another payment.\<close>

definition status_kept :: "string \<Rightarrow> db \<Rightarrow> db \<Rightarrow> bool" where
  "status_kept i s s' \<longleftrightarrow> (\<forall>k. status_of k s' = status_of k s \<or> k = i \<and> \<not> (\<exists>st. status_of k s = Some st \<and> terminal st))"

lemma status_kept_frame: "payments s' = payments s \<Longrightarrow> status_kept i s s'"
  by (simp add: status_kept_def status_of_def find_payment_def)

lemma status_kept_trans_frame: "status_kept i s t \<Longrightarrow> payments u = payments t \<Longrightarrow> status_kept i s u"
  by (simp add: status_kept_def status_of_def find_payment_def)

locale command_services = ledger_service svc for svc :: LedgerService +
  fixes payoutSvc :: payoutCommandService and payinSvc :: payinCommandService
  assumes execute_payout_frame: "pcs_ExecutePayout payoutSvc e i s = (s', r) \<Longrightarrow> tx_effect s s' \<and> payments s' = payments s"
    and apply_payout_frame: "pcs_ApplyResult payoutSvc i cmd x now s = Inr s' \<Longrightarrow> tx_effect s s' \<and> payments s' = payments s"
    and execute_payin_frame: "ncs_ExecutePayin payinSvc e i s = (s', q) \<Longrightarrow> tx_effect s s' \<and> payments s' = payments s"
    and apply_payin_effect: "ncs_ApplyResult payinSvc i y now s = Inr s' \<Longrightarrow> tx_effect s s'"
begin

lemma ledger_effects:
  "ls_Reserve svc i at s = Inr s' \<Longrightarrow> tx_effect s s'"
  "ls_Release svc i at s = Inr s' \<Longrightarrow> tx_effect s s'"
  "ls_Settle svc i at s = Inr s' \<Longrightarrow> tx_effect s s'"
  "ls_RecordPayin svc i at s = Inr s' \<Longrightarrow> tx_effect s s'"
  using reserve_ok reserve_frame release_ok release_frame settle_ok settle_frame payin_ok payin_frame
  by (simp_all add: tx_effect_def tables_kept_def)

lemma reply_effect:
  assumes "bindE (permanent_status m) (enqueueReply e ev p reply) = Inr s'" and "\<And>t. m = Inr t \<Longrightarrow> tx_effect s t"
  shows "tx_effect s s'"
  using assms enqueueReply_frame tx_effect_trans by (auto simp: bindE_Inr_iff ErrInr_permanent)

lemma evaluate_effects:
  "evaluate_payin evaluate payinSvc e ev payin s = Inr s' \<Longrightarrow> tx_effect s s'"
  "evaluate_payout evaluate e ev p s = Inr s' \<Longrightarrow> tx_effect s s' \<and> payments s' = payments s"
  by (auto simp: evaluate_payin_def evaluate_payout_def bindE_Inr_iff split: option.splits if_splits
      dest: apply_payin_effect enqueuePayinReply_frame enqueueReply_frame)

lemma execute_payin_effect:
  assumes "execute_payin payinSvc e payin s = (side, r)"
  shows "tx_effect s side \<and> (\<forall>s'. r = Inr s' \<longrightarrow> tx_effect s s')"
proof -
  obtain s1 x where x: "ncs_ExecutePayin payinSvc e payin s = (s1, x)" by fastforce
  note frame = execute_payin_frame [OF x]
  from assms x have side: "side = s1" by (auto simp: execute_payin_def split: sum.splits)
  have "tx_effect s1 s'" if "r = Inr s'" for s'
    using assms x that by (auto simp: execute_payin_def split: sum.splits err.splits if_splits dest: apply_payin_effect)
  with frame side show ?thesis using tx_effect_trans by blast
qed

lemma execute_settlement_effect:
  assumes "execute_settlement payoutSvc e ev i s = (side, r)"
  shows "tx_effect s side \<and> payments side = payments s \<and> (\<forall>s'. r = Inr s' \<longrightarrow> tx_effect s s' \<and> payments s' = payments s)"
proof -
  obtain s1 x where x: "pcs_ExecutePayout payoutSvc e i s = (s1, x)" by fastforce
  note frame = execute_payout_frame [OF x]
  from assms x have side: "side = s1" by (auto simp: execute_settlement_def split: sum.splits)
  have "tx_effect s1 s' \<and> payments s' = payments s1" if "r = Inr s'" for s'
    using assms x that
    by (auto simp: execute_settlement_def split: sum.splits err.splits if_splits dest: apply_payout_frame)
  with frame side show ?thesis using tx_effect_trans by fastforce
qed

lemma run_command_effect:
  assumes "run_command evaluate svc payoutSvc payinSvc e ev p s = (side, r)"
  shows "tx_effect s side \<and> (\<forall>s'. r = Inr s' \<longrightarrow> tx_effect s s')"
  using assms unfolding run_command_def Let_def
  by (auto split: if_splits dest: evaluate_effects execute_payin_effect execute_settlement_effect record_outcome_Inr(1)
      ledger_effects(4) apply_payin_effect reply_effect [OF _ ledger_effects(1)] reply_effect [OF _ ledger_effects(2)]
      reply_effect [OF _ ledger_effects(3)])

lemma outcome_status:
  assumes "record_outcome e ev p s = Inr s'"
  shows "status_kept (cp_PaymentID p) s s'"
  using record_outcome_Inr(2) [OF assms]
  by (auto simp: status_kept_def outcome_eligible_def terminal_def status_of_def split: if_splits)

lemma reply_status:
  assumes "bindE (permanent_status m) (enqueueReply e ev p reply) = Inr s'" and "\<And>t. m = Inr t \<Longrightarrow> status_kept i s t"
  shows "status_kept i s s'"
  using assms enqueueReply_frame status_kept_trans_frame by (auto simp: bindE_Inr_iff ErrInr_permanent)

lemma ledger_status:
  "ls_Reserve svc i at s = Inr s' \<Longrightarrow> status_kept i s s'"
  "ls_Release svc i at s = Inr s' \<Longrightarrow> status_kept i s s'"
  "ls_Settle svc i at s = Inr s' \<Longrightarrow> status_kept i s s'"
  using reserve_from [of i at s s'] reserve_status [of i at s s'] release_status [of i at s s']
    settle_from [of i at s s'] settle_status [of i at s s']
  by (auto simp: status_kept_def terminal_def)

lemma run_command_status:
  assumes "run_command evaluate svc payoutSvc payinSvc e ev p s = (side, Inr s')" and "payout_command (ev_Type ev)"
  shows "status_kept (cp_PaymentID p) s s'"
  using assms unfolding run_command_def Let_def payout_command_def
  by (auto split: if_splits intro: outcome_status status_kept_frame reply_status [OF _ ledger_status(1)]
      reply_status [OF _ ledger_status(2)] reply_status [OF _ ledger_status(3)]
      dest: evaluate_effects(2) execute_settlement_effect)

lemma command_effect:
  assumes "command_Handle (NewCommandHandler evaluate (Some svc) (Some payoutSvc) (Some payinSvc)) e ev s = (side, r)"
  shows "tx_effect s side \<and> (\<forall>s'. r = Inr s' \<longrightarrow> tx_effect s s')"
  using assms unfolding command_Handle_def NewCommandHandler_def
  by (cases evaluate; cases "decode_command (ev_Payload ev)") (auto dest: run_command_effect)

lemma command_status:
  assumes "command_Handle (NewCommandHandler evaluate (Some svc) (Some payoutSvc) (Some payinSvc)) e ev s = (side, Inr s')"
    and "payout_command (ev_Type ev)" and "status_of i s = Some st" and "terminal st"
  shows "status_of i s' = Some st"
proof -
  from assms(1) obtain f p where "run_command f svc payoutSvc payinSvc e ev p s = (side, Inr s')"
    unfolding command_Handle_def NewCommandHandler_def by (auto split: option.splits)
  from run_command_status [OF this assms(2)] assms(3,4) show ?thesis by (metis status_kept_def)
qed

end

text \<open>Such a handler meets the contract of the inbox.\<close>

sublocale command_services \<subseteq> commands: event_handler
    "command_Handle (NewCommandHandler evaluate (Some svc) (Some payoutSvc) (Some payinSvc))" for evaluate
  by unfold_locales (auto dest: command_effect simp: tx_effect_def)

text \<open>The services of the program: the PostgreSQL ledger and the two settlement services over a provider.\<close>

definition payout_service :: "PayoutProvider \<Rightarrow> payoutCommandService" where
  "payout_service provider = \<lparr>pcs_ExecutePayout = ExecutePayout provider, pcs_ApplyResult = payout_ApplyResult provider\<rparr>"

definition payin_service :: "PayinProvider \<Rightarrow> payinCommandService" where
  "payin_service provider = \<lparr>ncs_ExecutePayin = ExecutePayin provider, ncs_ApplyResult = payin_ApplyResult\<rparr>"

definition service_handler :: "evaluator \<Rightarrow> PayoutProvider \<Rightarrow> PayinProvider \<Rightarrow> handler" where
  "service_handler evaluate po pn = command_Handle (NewCommandHandler (Some evaluate) (Some PostgresService)
     (Some (payout_service po)) (Some (payin_service pn)))"

interpretation services: command_services PostgresService "payout_service po" "payin_service pn" for po pn
  by unfold_locales (auto simp: payout_service_def payin_service_def
      dest: ExecutePayout_only ExecutePayin_only only_frame payout_ApplyResult_frame payin_ApplyResult_effect)

interpretation payout_saga_handler: event_handler "PayoutSagaHandler c" for c
  by unfold_locales (auto simp: PayoutSagaHandler_def in_tx_def split: if_splits dest: payout_Handle_frame)

interpretation payin_saga_handler: event_handler "PayinSagaHandler c" for c
  by unfold_locales (auto simp: PayinSagaHandler_def in_tx_def split: if_splits dest: payin_Handle_frame)

subsection \<open>Properties\<close>

definition sample_handler :: handler where
  "sample_handler = service_handler (DeterministicEvaluator_Evaluate 0) sample_provider sample_payin_provider"

definition sample_command :: "string \<Rightarrow> event" where
  "sample_command ty = \<lparr>ev_ID = ''c1'', ev_Type = ty, ev_Version = 1, ev_AggregateID = ''p1'',
     ev_AggregateType = ''payment'', ev_OccurredAt = 5, ev_Payload = Raw (JObj [(''payment_id'', JStr ''p1'')])\<rparr>"

lemma sample_run:
  assumes "\<not> isl (snd (sample_handler sample_env (sample_command ty) s))"
  obtains side s' where "sample_handler sample_env (sample_command ty) s = (side, Inr s')"
  using assms by (cases "sample_handler sample_env (sample_command ty) s") (auto dest: not_isl_Inr)

text \<open>
  C22: the outcome of a payout is final. Once a payment is succeeded or failed, no payout command that
  commits changes its status, so a settled payout cannot be failed by a late timeout and a failed one
  cannot be settled.
\<close>

theorem payout_outcome_final:
  assumes "service_handler evaluate po pn e ev s = (side, Inr s')" and "payout_command (ev_Type ev)"
    and "status_of i s = Some st" and "terminal st"
  shows "status_of i s' = Some st"
  using services.command_status [OF assms(1) [unfolded service_handler_def] assms(2-4)] .

theorem payout_outcome_final_witness:
  "\<exists>side s'. sample_handler sample_env (sample_command ''payment.settle'') (sample_db PaymentStatusSucceeded) = (side, Inr s') \<and>
     status_of ''p1'' s' = Some PaymentStatusSucceeded"
proof -
  have "\<not> isl (snd (sample_handler sample_env (sample_command ''payment.settle'') (sample_db PaymentStatusSucceeded)))"
    by code_simp
  then obtain side s' where run: "sample_handler sample_env (sample_command ''payment.settle'')
      (sample_db PaymentStatusSucceeded) = (side, Inr s')" by (rule sample_run)
  have "status_of ''p1'' (sample_db PaymentStatusSucceeded) = Some PaymentStatusSucceeded" by (simp add: status_of_def)
  from payout_outcome_final [OF run [unfolded sample_handler_def] _ this] run show ?thesis
    by (auto simp: payout_command_def sample_command_def terminal_def)
qed

text \<open>
  C12: commands are handled exactly once. Once a delivery of a command has been acknowledged, any later
  delivery of the same event, after any other deliveries in between, is recognised as a duplicate and
  leaves the database as it is.
\<close>

theorem commands_exactly_once:
  assumes "Process schemas consumer (service_handler evaluate po pn) e ev s = (s1, Inr b)"
  shows "Process schemas consumer (service_handler evaluate po pn) e' ev
      (deliver schemas consumer' (service_handler evaluate po pn) ds s1) =
    (deliver schemas consumer' (service_handler evaluate po pn) ds s1, Inr False)"
  using services.commands.exactly_once [OF assms [unfolded service_handler_def]] by (simp add: service_handler_def)

theorem commands_exactly_once_witness:
  "\<exists>s1. Process None ''w'' sample_handler sample_env (sample_command ''ledger.reserve'') (sample_db PaymentStatusCreated) = (s1, Inr True) \<and>
     Process None ''w'' sample_handler sample_env (sample_command ''ledger.reserve'')
       (deliver None ''w'' sample_handler [(sample_env, (sample_command ''payment.settle'')\<lparr>ev_ID := ''c2''\<rparr>)] s1) =
     (deliver None ''w'' sample_handler [(sample_env, (sample_command ''payment.settle'')\<lparr>ev_ID := ''c2''\<rparr>)] s1, Inr False)"
proof -
  let ?run = "Process None ''w'' sample_handler sample_env (sample_command ''ledger.reserve'') (sample_db PaymentStatusCreated)"
  have "snd ?run = Inr True" by code_simp
  then obtain s1 where run: "?run = (s1, Inr True)" by (cases ?run) auto
  from commands_exactly_once [OF run [unfolded sample_handler_def], of sample_env] run show ?thesis
    unfolding sample_handler_def by blast
qed

text \<open>
  C37: a returned payout never becomes failed. The saga answers a provider return with \<open>ledger.release\<close>
  and then \<open>payment.return\<close>; the release succeeds only on a processing payment and leaves it processing,
  and \<open>payment.return\<close> demands a failed one, so it is refused for good and the payment stays processing.
\<close>

theorem return_after_release_refused:
  assumes "Release i at s = Inr s1" and "ledger_ok s" and "ev_Type ev = ''payment.return''"
    and "decode_command (ev_Payload ev) = Some p" and "cp_PaymentID p = i" and "i \<noteq> ''''"
  shows "\<exists>err. service_handler evaluate po pn e ev s1 = (s1, Inl (Permanent err)) \<and>
    status_of i s1 = Some PaymentStatusProcessing"
proof -
  from payout_posting_from(2) [OF assms(1)] payout_posting_status(2) [OF assms(1)]
  have st: "status_of i s1 = Some PaymentStatusProcessing" by simp
  then obtain r where r: "find_payment i s1 = Some r" "pay_status r = PaymentStatusProcessing"
    by (auto simp: status_of_def)
  have "affected (\<lambda>r. pay_id r = i \<and> outcome_eligible (ev_Type ev) s1 r) (payments s1) \<noteq> 1"
  proof -
    have "distinct (map pay_id (payments s1))"
      using payout_posting_ok(2) [OF assms(1,2)] by (simp add: ledger_ok_def store_ok_def payments_ok_def)
    with r(1) have "x = r" if "x \<in> set (payments s1)" "pay_id x = i" for x
      using that find_unique_key by (fastforce simp: find_payment_def)
    with r(2) assms(3) have "affected (\<lambda>r. pay_id r = i \<and> outcome_eligible (ev_Type ev) s1 r) (payments s1) = 0"
      by (auto simp: affected_zero_iff outcome_eligible_def)
    then show ?thesis by simp
  qed
  then have "record_outcome e ev p s1 = Inl (Permanent (ErrText ''payment is not eligible''))"
    using assms(5) by (simp add: record_outcome_def Let_def)
  with assms st show ?thesis
    by (simp add: service_handler_def command_Handle_def NewCommandHandler_def run_command_def Let_def)
qed

theorem return_after_release_refused_witness:
  "\<exists>s1 err. Release ''p1'' 7 (sample_db PaymentStatusProcessing) = Inr s1 \<and>
     sample_handler sample_env (sample_command ''payment.return'') s1 = (s1, Inl (Permanent err)) \<and>
     status_of ''p1'' s1 = Some PaymentStatusProcessing"
proof -
  have "\<exists>s1. Release ''p1'' 7 (sample_db PaymentStatusProcessing) = Inr s1" by (rule not_isl_Inr) code_simp
  then obtain s1 where run: "Release ''p1'' 7 (sample_db PaymentStatusProcessing) = Inr s1" by blast
  have dec: "decode_command (ev_Payload (sample_command ''payment.return'')) =
      Some \<lparr>cp_PaymentID = ''p1'', cp_PayinID = '''', cp_Reason = ''''\<rparr>" by code_simp
  from return_after_release_refused [OF run sample_db_ok _ dec, of "DeterministicEvaluator_Evaluate 0" sample_provider sample_payin_provider sample_env] run
  show ?thesis by (auto simp: sample_handler_def sample_command_def)
qed


definition sample_messages :: "event result list" where
  "sample_messages = [Inr (sample_command ''ledger.reserve''), Inr ((sample_command ''payment.settle'')\<lparr>ev_ID := ''c2''\<rparr>)]"

definition sample_envs :: "nat \<Rightarrow> nat \<Rightarrow> env" where
  "sample_envs j k = sample_env\<lparr>env_rand := (\<lambda>n. Some (replicate (2 * j + n) CHR ''a''))\<rparr>"



lemma payout_Handle_unexpected:
  assumes "find_saga (ev_AggregateID ev) s = Some g" and "sg_state g \<in> {StateCompleted, StateReturned, StateManualReview}"
    and "ev_Type ev \<noteq> ''payout.created''" and "Event_Validate ev = Inr ()"
  shows "\<exists>msg. payout_Handle c e ev s = Inl (ErrText msg)"
proof -
  have "payout_transition c (sg_state g) (ev_Type ev) reason = Inl (ErrText ''event is invalid in this saga state'')" for reason
    using assms(2) by (elim insertE emptyE) (simp_all add: payout_transition_def)
  moreover have "\<exists>msg. (if ev_AggregateType ev \<noteq> ''payout'' then Inl (ErrText ''unsupported saga aggregate type'') else r) =
      Inl (ErrText msg)" if "\<exists>msg. r = Inl (ErrText msg)" for r :: "db result" using that by auto
  ultimately show ?thesis
    using assms(1,3,4) unfolding payout_Handle_def
    by (cases "Unmarshal_str ''reason'' (ev_Payload ev)") simp_all
qed

lemma Process_unexpected:
  assumes "find_saga (ev_AggregateID ev) s = Some g" and "sg_state g \<in> {StateCompleted, StateReturned, StateManualReview}"
    and "ev_Type ev \<in> set payout_saga_events - {''payout.created''}" and "Event_Validate ev = Inr ()"
    and "\<not> processed consumer (ev_ID ev) s" and "consumer \<noteq> ''''"
  shows "\<exists>msg. Process None consumer (PayoutSagaHandler c) e ev s = (s, Inl (ErrText msg))"
proof -
  let ?s1 = "s\<lparr>inbox := inbox s @ [inbox_row_of consumer ev (env_now e)]\<rparr>"
  have v: "1 \<le> ev_Version ev" using assms(4) by (simp add: result_simps)
  have ins: "insert_inbox_once (inbox_row_of consumer ev (env_now e)) s = Inr (?s1, 1)"
    using v assms(5) by (simp add: insert_inbox_once_def inbox_row_of_def processed_def)
  have "find_saga (ev_AggregateID ev) ?s1 = Some g" using assms(1) by (simp add: find_saga_def)
  from payout_Handle_unexpected [OF this assms(2) _ assms(4)] assms(3) obtain msg where
    "payout_Handle c e ev ?s1 = Inl (ErrText msg)" by auto
  with assms(3) have "PayoutSagaHandler c e ev ?s1 = (?s1, Inl (ErrText msg))"
    by (simp add: PayoutSagaHandler_def in_tx_def)
  with ins assms(4,6) show ?thesis by (simp add: Process_def upcast_with_def)
qed

text \<open>
  C36: an event that the payout saga does not expect blocks its consumer. In the states completed, returned
  and manual review every workflow event other than \<open>payout.created\<close> is an error that is not marked
  permanent, so however often the consumer loop retries the message, it neither commits it nor changes the
  database; a provider result that arrives during a manual review stops all later messages of the partition.
\<close>

theorem unexpected_event_blocks_consumer:
  assumes "find_saga (ev_AggregateID ev) s = Some g" and "sg_state g \<in> {StateCompleted, StateReturned, StateManualReview}"
    and "ev_Type ev \<in> set payout_saga_events - {''payout.created''}" and "Event_Validate ev = Inr ()"
    and "\<not> processed consumer (ev_ID ev) s" and "consumer \<noteq> ''''"
  shows "consume_message fuel (\<lambda>k. Process None consumer (PayoutSagaHandler c) (envs k)) (Inr ev) s = (s, Retrying)"
proof -
  have "\<exists>err. Process None consumer (PayoutSagaHandler c) (envs k) ev s = (s, Inl err) \<and> \<not> IsPermanent err" for k
    using Process_unexpected [OF assms, of c "envs k"] by fastforce
  from retry_loop_transient [of fuel "\<lambda>k. Process None consumer (PayoutSagaHandler c) (envs k)" 0 ev s 0] this assms(4)
  show ?thesis by (simp add: consume_message_def)
qed

theorem unexpected_event_blocks_consumer_witness:
  "consume_message 1000 (\<lambda>k. Process None ''saga'' (PayoutSagaHandler sample_coordinator) (sample_envs 0 k))
     (Inr (sample_event ''payout.provider_completed'')) (sample_saga_db StateManualReview None) =
   (sample_saga_db StateManualReview None, Retrying)"
proof -
  have "find_saga (ev_AggregateID (sample_event ''payout.provider_completed'')) (sample_saga_db StateManualReview None) =
      Some (sample_saga StateManualReview None)"
    by (simp add: find_saga_def sample_saga_db_def sample_saga_def sample_event_def)
  moreover have "Event_Validate (sample_event ''payout.provider_completed'') = Inr ()" by code_simp
  moreover have "\<not> processed ''saga'' (ev_ID (sample_event ''payout.provider_completed'')) (sample_saga_db StateManualReview None)"
    by code_simp
  moreover have "ev_Type (sample_event ''payout.provider_completed'') \<in> set payout_saga_events - {''payout.created''}"
    by code_simp
  ultimately show ?thesis
    by (intro unexpected_event_blocks_consumer) (auto simp: sample_saga_def)
qed

end
