(* ===== verification/Bp_Signature.thy ===== *)
theory Bp_Signature
  imports Backoff
begin

text \<open>
  The signature check of BlindPay webhooks (\<^verbatim>\<open>settlement/blindpay/webhook.go\<close>, \<^verbatim>\<open>WebhookVerifier\<close>): the
  decoding of the secret, the timestamp window, and the comparison of the candidate signatures with the
  message authentication code. HMAC-SHA256 is a parameter, a function from key and message to a digest;
  base64, \<^verbatim>\<open>strconv.ParseInt\<close>, \<^verbatim>\<open>strings.Fields\<close>, \<^verbatim>\<open>strings.Cut\<close> and the saturating \<^verbatim>\<open>time.Time.Sub\<close> are
  modelled. Bytes are characters.

  The theorems say exactly which requests the check accepts, the far-future timestamps that pass because
  \<^verbatim>\<open>absDuration\<close> overflows included.
\<close>

subsection \<open>Text helpers of the standard library\<close>

text \<open>\<^verbatim>\<open>strings.Fields\<close>: the maximal runs of characters that are not white space.\<close>

fun fields_from :: "string \<Rightarrow> string \<Rightarrow> string list" where
  "fields_from cur [] = (if cur = [] then [] else [rev cur])"
| "fields_from cur (c # cs) =
     (if is_space c then (if cur = [] then fields_from [] cs else rev cur # fields_from [] cs)
      else fields_from (c # cur) cs)"

definition Fields :: "string \<Rightarrow> string list" where
  "Fields s = fields_from [] s"

text \<open>\<^verbatim>\<open>strings.Cut\<close> at the first separator character.\<close>

fun Cut :: "char \<Rightarrow> string \<Rightarrow> (string \<times> string) option" where
  "Cut d [] = None"
| "Cut d (c # cs) = (if c = d then Some ([], cs) else map_option (\<lambda>(a, b). (c # a, b)) (Cut d cs))"

text \<open>\<^verbatim>\<open>strconv.ParseInt(s, 10, 64)\<close>: an optional sign, at least one digit, the range of a 64-bit integer.\<close>

definition digit_value :: "char \<Rightarrow> int option" where
  "digit_value c = (let n = (of_char c :: int) in if 48 \<le> n \<and> n \<le> 57 then Some (n - 48) else None)"

fun parse_digits :: "int \<Rightarrow> string \<Rightarrow> int option" where
  "parse_digits acc [] = Some acc"
| "parse_digits acc (c # cs) = (case digit_value c of None \<Rightarrow> None | Some v \<Rightarrow> parse_digits (10 * acc + v) cs)"

definition in_int64 :: "int \<Rightarrow> bool" where
  "in_int64 i \<longleftrightarrow> - (2 ^ 63) \<le> i \<and> i < 2 ^ 63"

definition ParseInt :: "string \<Rightarrow> int option" where
  "ParseInt s =
     (let (negative, ds) = (case s of [] \<Rightarrow> (False, []) | c # cs \<Rightarrow>
            if c = CHR ''-'' then (True, cs) else if c = CHR ''+'' then (False, cs) else (False, s))
      in if ds = [] then None
         else case parse_digits 0 ds of None \<Rightarrow> None
              | Some v \<Rightarrow> let i = (if negative then - v else v) in if in_int64 i then Some i else None)"

text \<open>
  \<^verbatim>\<open>base64.StdEncoding.DecodeString\<close>: line breaks are skipped, the rest is read in groups of four with
  padding only at the end.
\<close>

definition sextet :: "char \<Rightarrow> nat option" where
  "sextet c = (let n = (of_char c :: nat) in
     if 65 \<le> n \<and> n \<le> 90 then Some (n - 65)
     else if 97 \<le> n \<and> n \<le> 122 then Some (n - 71)
     else if 48 \<le> n \<and> n \<le> 57 then Some (n + 4)
     else if n = 43 then Some 62 else if n = 47 then Some 63 else None)"

definition pad :: char where
  "pad = CHR ''=''"

fun sextets :: "string \<Rightarrow> nat list option" where
  "sextets [] = Some []"
| "sextets (c # cs) = (case sextet c of None \<Rightarrow> None | Some v \<Rightarrow> map_option (Cons v) (sextets cs))"

definition bytes_of :: "nat list \<Rightarrow> string" where
  "bytes_of vs =
     (case vs of
        [a, b] \<Rightarrow> [char_of (4 * a + b div 16)]
      | [a, b, c] \<Rightarrow> [char_of (4 * a + b div 16), char_of (16 * (b mod 16) + c div 4)]
      | [a, b, c, d] \<Rightarrow> [char_of (4 * a + b div 16), char_of (16 * (b mod 16) + c div 4),
                          char_of (64 * (c mod 4) + d)]
      | _ \<Rightarrow> [])"

fun decode_groups :: "string \<Rightarrow> string option" where
  "decode_groups (a # b # c # d # rest) =
     (if d = pad
      then (if rest \<noteq> [] then None
            else map_option bytes_of (sextets (if c = pad then [a, b] else [a, b, c])))
      else case sextets [a, b, c, d] of None \<Rightarrow> None
           | Some vs \<Rightarrow> map_option (append (bytes_of vs)) (decode_groups rest))"
| "decode_groups [] = Some []"
| "decode_groups cs = None"

definition DecodeString :: "string \<Rightarrow> string option" where
  "DecodeString s = decode_groups (filter (\<lambda>c. c \<noteq> CHR 0x0A \<and> c \<noteq> CHR 0x0D) s)"

subsection \<open>Times\<close>

text \<open>\<^verbatim>\<open>time.Unix(seconds, 0)\<close>: the seconds since year 1 are a 64-bit sum.\<close>

definition unix_time :: "int \<Rightarrow> time" where
  "unix_time seconds = wrap64 (seconds + 62135596800) * Second"

text \<open>\<^verbatim>\<open>Time.Sub\<close> saturates at the ends of a duration.\<close>

definition Time_Sub :: "time \<Rightarrow> time \<Rightarrow> duration" where
  "Time_Sub t u = (if in_int64 (t - u) then t - u else if t < u then - (2 ^ 63) else max_int64)"

definition absDuration :: "duration \<Rightarrow> duration" where
  "absDuration d = (if d < 0 then wrap64 (- d) else d)"

subsection \<open>The verifier\<close>

type_synonym mac = "string \<Rightarrow> string \<Rightarrow> string"

record WebhookVerifier =
  wv_secret :: string
  wv_tolerance :: duration

definition NewWebhookVerifier :: "string \<Rightarrow> WebhookVerifier result" where
  "NewWebhookVerifier secret =
     (let (encoded, ok) = CutPrefix (TrimSpace secret) ''whsec_'' in
      if \<not> ok \<or> encoded = '''' then Inl (ErrText ''BlindPay webhook secret must start with whsec_'')
      else case DecodeString encoded of
             None \<Rightarrow> Inl (ErrText ''invalid BlindPay webhook secret'')
           | Some key \<Rightarrow> if length key = 0 then Inl (ErrText ''invalid BlindPay webhook secret'')
                         else Inr \<lparr>wv_secret = key, wv_tolerance = 5 * Minute\<rparr>)"

definition timestamp_ok :: "WebhookVerifier \<Rightarrow> time \<Rightarrow> string \<Rightarrow> bool" where
  "timestamp_ok v now timestamp =
     (case ParseInt timestamp of None \<Rightarrow> False
      | Some seconds \<Rightarrow> 0 < seconds \<and> absDuration (Time_Sub now (unix_time seconds)) \<le> wv_tolerance v)"

definition candidate_ok :: "string \<Rightarrow> string \<Rightarrow> bool" where
  "candidate_ok expected candidate =
     (case Cut CHR '','' candidate of
        None \<Rightarrow> False
      | Some (version, encoded) \<Rightarrow> version = ''v1'' \<and> DecodeString encoded = Some expected)"

definition Verify :: "mac \<Rightarrow> WebhookVerifier \<Rightarrow> time \<Rightarrow> string \<Rightarrow> string \<Rightarrow> string \<Rightarrow> string \<Rightarrow> unit result" where
  "Verify hmac v now messageID timestamp signatures body =
     (if messageID = '''' \<or> timestamp = '''' \<or> signatures = ''''
      then Inl (ErrText ''missing BlindPay webhook signature headers'')
      else if \<not> timestamp_ok v now timestamp
      then Inl (ErrText ''BlindPay webhook timestamp is outside tolerance'')
      else let expected = hmac (wv_secret v) (messageID @ ''.'' @ timestamp @ ''.'' @ body)
           in if list_ex (candidate_ok expected) (Fields signatures) then Inr ()
              else Inl (ErrText ''invalid BlindPay webhook signature''))"

subsection \<open>What the check accepts\<close>

lemma Cut_Some_iff: "Cut d s = Some (a, b) \<longleftrightarrow> s = a @ d # b \<and> d \<notin> set a"
proof (induction s arbitrary: a)
  case (Cons c cs)
  then show ?case by (cases a) auto
qed simp

lemma candidate_ok_iff:
  "candidate_ok expected c \<longleftrightarrow> (\<exists>encoded. c = ''v1,'' @ encoded \<and> DecodeString encoded = Some expected)"
proof
  assume "candidate_ok expected c"
  then obtain encoded where "Cut CHR '','' c = Some (''v1'', encoded)" "DecodeString encoded = Some expected"
    by (auto simp: candidate_ok_def split: option.splits)
  then show "\<exists>encoded. c = ''v1,'' @ encoded \<and> DecodeString encoded = Some expected"
    by (auto simp: Cut_Some_iff)
qed (auto simp: candidate_ok_def)

text \<open>The most negative duration is its own absolute value, so the window has a second part.\<close>

lemma abs_window:
  assumes "0 \<le> tol" and "tol < max_int64"
  shows "absDuration (Time_Sub now u) \<le> tol \<longleftrightarrow> \<bar>now - u\<bar> \<le> tol \<or> 2 ^ 63 \<le> u - now"
proof (cases "2 ^ 63 \<le> u - now")
  case True
  then have "Time_Sub now u = - (2 ^ 63)" by (auto simp: Time_Sub_def in_int64_def)
  with True assms(1) show ?thesis by (simp add: absDuration_def wrap64_def)
next
  case small: False
  show ?thesis
  proof (cases "now - u < 2 ^ 63")
    case True
    with small have "Time_Sub now u = now - u" and "now - u < 0 \<longrightarrow> wrap64 (u - now) = u - now"
      by (auto simp: Time_Sub_def in_int64_def intro!: wrap64_id)
    with small show ?thesis by (auto simp: absDuration_def)
  next
    case False
    then have "Time_Sub now u = max_int64" by (auto simp: Time_Sub_def in_int64_def)
    with False small assms(2) show ?thesis by (auto simp: absDuration_def max_int64_def)
  qed
qed

lemma NewWebhookVerifier_tolerance: "NewWebhookVerifier secret = Inr v \<Longrightarrow> wv_tolerance v = 5 * Minute"
  by (auto simp: NewWebhookVerifier_def Let_def split: if_splits option.splits prod.splits)

lemma timestamp_ok_iff:
  assumes "NewWebhookVerifier secret = Inr v"
  shows "timestamp_ok v now timestamp \<longleftrightarrow> (\<exists>seconds. ParseInt timestamp = Some seconds \<and> 0 < seconds \<and>
      (\<bar>now - unix_time seconds\<bar> \<le> 5 * Minute \<or> 2 ^ 63 \<le> unix_time seconds - now))"
  using abs_window [of "5 * Minute" now] NewWebhookVerifier_tolerance [OF assms]
  by (simp add: timestamp_ok_def Minute_def max_int64_def split: option.splits)

lemma ParseInt_empty [simp]: "ParseInt '''' = None"
  by (simp add: ParseInt_def)

text \<open>
  C29: A verifier built from a secret accepts a BlindPay webhook exactly when the three headers are
  present, the timestamp is a positive number of seconds that lies within five minutes of the clock
  or, because the absolute value of the most negative duration overflows, at least \<open>2 ^ 63\<close> nanoseconds
  in the future, and one of the space-separated signatures is \<^verbatim>\<open>v1,\<close> followed by the base64 text of
  the message authentication code of message id, timestamp and body.
\<close>
theorem webhook_verify_exact:
  assumes "NewWebhookVerifier secret = Inr v"
  shows "Verify hmac v now messageID timestamp signatures body = Inr () \<longleftrightarrow>
    messageID \<noteq> '''' \<and> signatures \<noteq> '''' \<and>
    (\<exists>seconds. ParseInt timestamp = Some seconds \<and> 0 < seconds \<and>
      (\<bar>now - unix_time seconds\<bar> \<le> 5 * Minute \<or> 2 ^ 63 \<le> unix_time seconds - now)) \<and>
    (\<exists>encoded. ''v1,'' @ encoded \<in> set (Fields signatures) \<and>
      DecodeString encoded = Some (hmac (wv_secret v) (messageID @ ''.'' @ timestamp @ ''.'' @ body)))"
proof -
  have "list_ex (candidate_ok x) cs \<longleftrightarrow> (\<exists>encoded. ''v1,'' @ encoded \<in> set cs \<and> DecodeString encoded = Some x)"
    for x cs by (auto simp: list_ex_iff candidate_ok_iff)
  then show ?thesis
    unfolding Verify_def Let_def timestamp_ok_iff [OF assms, symmetric]
    by (cases "timestamp = ''''") (auto simp: timestamp_ok_def)
qed

text \<open>A message authentication code for the examples: it repeats the first bytes of the message.\<close>

definition sample_mac :: mac where
  "sample_mac key message = take 3 (message @ key)"

definition sample_verifier :: WebhookVerifier where
  "sample_verifier = \<lparr>wv_secret = ''key'', wv_tolerance = 5 * Minute\<rparr>"

theorem webhook_verify_exact_witness:
  "NewWebhookVerifier '' whsec_a2V5'' = Inr sample_verifier \<and>
   Verify sample_mac sample_verifier (unix_time 1700000100) ''m1'' ''1700000000'' ''v0,xx v1,bTEu'' ''{}'' = Inr () \<and>
   Verify sample_mac sample_verifier (unix_time 1700000100) ''m1'' ''99999999999'' ''v1,bTEu'' ''{}'' = Inr ()"
proof -
  have v: "NewWebhookVerifier '' whsec_a2V5'' = Inr sample_verifier" by code_simp
  have d: "DecodeString ''bTEu'' = Some (sample_mac (wv_secret sample_verifier) (''m1'' @ ''.'' @ t @ ''.'' @ ''{}''))" for t
    by (simp add: sample_mac_def) code_simp
  have f: "''v1,'' @ ''bTEu'' \<in> set (Fields ''v0,xx v1,bTEu'')" "''v1,'' @ ''bTEu'' \<in> set (Fields ''v1,bTEu'')"
    by code_simp+
  have p: "ParseInt ''1700000000'' = Some 1700000000" "ParseInt ''99999999999'' = Some 99999999999" by code_simp+
  have w: "\<bar>unix_time 1700000100 - unix_time 1700000000\<bar> \<le> 5 * Minute"
    "2 ^ 63 \<le> unix_time 99999999999 - unix_time 1700000100" by code_simp+
  show ?thesis
    using v d f p w
    by (auto simp: webhook_verify_exact [OF v] simp del: append.simps intro!: exI [of _ "''bTEu''"])
qed

end
