(* ===== verification/Bp_Webhook.thy ===== *)
theory Bp_Webhook
  imports Workers Bp_Signature
begin

text \<open>
  The BlindPay webhook service (\<^verbatim>\<open>settlement/blindpay/webhook.go\<close>, \<^verbatim>\<open>WebhookService\<close>): persisting a verified
  delivery, applying it to the payout or pay-in it names, deriving the saga and public events, recording
  returns of completed payouts, and the repair loop \<^verbatim>\<open>ReconcileOnce\<close> for deliveries that came before their
  payment was visible. A call is one transaction; an error leaves the database as it was.

  The lemmas show that deliveries keep the books, that a payout status only ever moves forward, and what
  a repair round settles.
\<close>

subsection \<open>Statuses\<close>

text \<open>\<^verbatim>\<open>payin.go\<close>, used for the answers of the provider and for its webhooks.\<close>

definition mapPayinStatus :: "string \<Rightarrow> ExecutionStatus" where
  "mapPayinStatus v =
     (if v = ''completed'' then ExecutionSucceeded
      else if v = ''failed'' then ExecutionFailed
      else if v = ''refunded'' then ExecutionFailed
      else if v = ''on_hold'' then ExecutionOnHold
      else ExecutionPending)"

definition validProviderPayinStatus :: "string \<Rightarrow> bool" where
  "validProviderPayinStatus st \<longleftrightarrow> st \<in> {''processing'', ''on_hold'', ''completed'', ''failed'', ''refunded''}"

definition payoutStatusRank :: "string \<Rightarrow> nat" where
  "payoutStatusRank st =
     (if st = ''submission_pending'' \<or> st = ''unknown'' then 1
      else if st = ''processing'' then 2
      else if st = ''on_hold'' then 3
      else if st = ''completed'' \<or> st = ''failed'' \<or> st = ''refunded'' then 4
      else 0)"

definition validPayoutStatus :: "string \<Rightarrow> bool" where
  "validPayoutStatus st \<longleftrightarrow> 0 < payoutStatusRank st"

definition isTerminalPayoutStatus :: "string \<Rightarrow> bool" where
  "isTerminalPayoutStatus st \<longleftrightarrow> st = ''completed'' \<or> st = ''failed'' \<or> st = ''refunded''"

definition payoutStatusCanAdvance :: "string \<Rightarrow> string \<Rightarrow> bool" where
  "payoutStatusCanAdvance current new =
     (if current = new \<or> current = ''failed'' \<or> current = ''refunded'' then False
      else if current = ''completed'' then new = ''refunded''
      else payoutStatusRank current < payoutStatusRank new)"

subsection \<open>Deliveries\<close>

record payoutWebhook =
  pw_WebhookEvent :: string
  pw_ID :: string
  pw_Status :: string

definition decode_webhook :: "raw \<Rightarrow> payoutWebhook option" where
  "decode_webhook body =
     (case (Unmarshal_str ''webhook_event'' body, Unmarshal_str ''id'' body, Unmarshal_str ''status'' body) of
        (Some ev, Some i, Some st) \<Rightarrow> Some \<lparr>pw_WebhookEvent = ev, pw_ID = i, pw_Status = st\<rparr>
      | _ \<Rightarrow> None)"

definition insert_webhook_once :: "bp_webhook_row \<Rightarrow> db \<Rightarrow> db" where
  "insert_webhook_once w s =
     (if list_ex (\<lambda>x. bw_svix x = bw_svix w) (bp_webhooks s) then s
      else s\<lparr>bp_webhooks := bp_webhooks s @ [w]\<rparr>)"

definition bp_payout :: "string \<Rightarrow> payout_row \<Rightarrow> bool" where
  "bp_payout i r \<longleftrightarrow> po_provider r = ''blindpay'' \<and> po_provider_payout r = Some i"

definition bp_payin :: "string \<Rightarrow> payin_row \<Rightarrow> bool" where
  "bp_payin i r \<longleftrightarrow> pi_provider r = ''blindpay'' \<and> pi_provider_payin r = Some i"

subsection \<open>Payout deliveries\<close>

definition saga_result :: "string \<Rightarrow> string \<times> string" where
  "saga_result st =
     (if st = ''completed'' then (''payout.provider_completed'', '''')
      else if st = ''refunded'' then (''payout.provider_returned'', st)
      else if st = ''on_hold'' then (''payout.on_hold'', ''settlement on hold'')
      else (''payout.provider_failed'', st))"

definition bp_event_id :: "string \<Rightarrow> string" where
  "bp_event_id svixID = ''evt_blindpay_'' @ svixID"

definition enqueueSagaResult :: "string \<Rightarrow> string \<Rightarrow> string \<Rightarrow> time \<Rightarrow> db \<Rightarrow> db result" where
  "enqueueSagaResult svixID payment st now s =
     (if \<not> has_saga payment s then Inr s
      else let (eventType, reason) = saga_result st
           in insert_outbox_once (new_outbox (bp_event_id svixID) PayoutEventsTopic eventType SchemaVersion
                payment ''payout'' (Raw (JObj [(''reason'', JStr reason)])) now) s)"

definition enqueuePaymentReturn :: "string \<Rightarrow> string \<Rightarrow> string \<Rightarrow> string \<Rightarrow> time \<Rightarrow> db \<Rightarrow> db result" where
  "enqueuePaymentReturn svixID returnID payment reason now s =
     insert_outbox_once (new_outbox (bp_event_id svixID) PaymentEventsTopic ''payment.return.succeeded''
       SchemaVersion payment ''payment''
       (Raw (JObj [(''payment_status'', JStr ''succeeded''), (''reason'', JStr reason),
          (''return_id'', JStr returnID), (''return_status'', JStr ''succeeded'')])) now) s"

definition advanced_payout :: "string \<Rightarrow> raw \<Rightarrow> time \<Rightarrow> payout_row \<Rightarrow> payout_row" where
  "advanced_payout st body now r = r\<lparr>po_status := st, po_payload := body, po_updated_at := now\<rparr>"

definition return_reason :: string where
  "return_reason = ''provider returned funds after completed payout''"

definition bp_return :: "string \<Rightarrow> string \<Rightarrow> time \<Rightarrow> ReturnRequest" where
  "bp_return svixID payment now = \<lparr>rq_ID = ''ret_blindpay_'' @ svixID, rq_PaymentID = payment,
     rq_Provider = ''blindpay'', rq_ProviderEventID = svixID, rq_Reason = return_reason, rq_At = now\<rparr>"

definition applyPayoutWebhook :: "string \<Rightarrow> string \<Rightarrow> string \<Rightarrow> raw \<Rightarrow> time \<Rightarrow> db \<Rightarrow> db result" where
  "applyPayoutWebhook svixID providerID st body now s =
     (case List.find (bp_payout providerID) (payouts s) of
        None \<Rightarrow> Inr s
      | Some r \<Rightarrow>
          let payment = po_payment r; current = po_status r;
              postSuccessReturn = (current = ''completed'' \<and> st = ''refunded'')
          in if \<not> payoutStatusCanAdvance current st
             then (if current = st \<and> isTerminalPayoutStatus st then enqueueSagaResult svixID payment st now s
                   else Inr s)
             else bindE (put_payouts (update_where (\<lambda>x. po_payment x = payment) (advanced_payout st body now)
                           (payouts s)) s) (\<lambda>s1.
                  if postSuccessReturn
                  then bindE (RecordReturn (bp_return svixID payment now) s1)
                         (enqueuePaymentReturn svixID (''ret_blindpay_'' @ svixID) payment return_reason now)
                  else if st \<in> {''completed'', ''failed'', ''refunded'', ''on_hold''}
                  then enqueueSagaResult svixID payment st now s1
                  else Inr s1))"

subsection \<open>Pay-in deliveries\<close>

definition lifecycle_status :: "string \<Rightarrow> string" where
  "lifecycle_status providerStatus =
     (let st = execution_status_text (mapPayinStatus providerStatus)
      in if st = ''succeeded'' then ''received'' else st)"

definition payin_target :: "string \<Rightarrow> db \<Rightarrow> (payin_row \<times> payment_row) option" where
  "payin_target providerID s =
     (case List.find (bp_payin providerID) (payins s) of
        None \<Rightarrow> None
      | Some r \<Rightarrow> map_option (Pair r) (find_payment (pi_payment r) s))"

definition advanced_payin :: "string \<Rightarrow> string \<Rightarrow> raw \<Rightarrow> time \<Rightarrow> payin_row \<Rightarrow> payin_row" where
  "advanced_payin st providerStatus body now r =
     r\<lparr>pi_status := st, pi_payload := body, pi_instructions := body,
       pi_failure := (if st \<in> {''failed'', ''refunded''} then Some providerStatus else None),
       pi_updated_at := now\<rparr>"

definition payin_payment_status :: "string \<Rightarrow> PaymentStatus \<Rightarrow> PaymentStatus" where
  "payin_payment_status st current =
     (if current = PaymentStatusSucceeded then current
      else if st = ''failed'' \<or> st = ''refunded'' then PaymentStatusFailed
      else PaymentStatusProcessing)"

definition payin_event_version :: "string \<Rightarrow> int" where
  "payin_event_version st =
     (if st \<in> {''processing'', ''on_hold'', ''received'', ''failed'', ''refunded''} then SchemaVersion else 0)"

definition payin_public_type :: "string \<Rightarrow> string" where
  "payin_public_type st =
     (if st = ''processing'' \<or> st = ''on_hold'' then ''payment.processing''
      else if st = ''failed'' \<or> st = ''refunded'' then ''payment.failed'' else '''')"

definition payin_webhook_body :: "string \<Rightarrow> string \<Rightarrow> string \<Rightarrow> string \<Rightarrow> time \<Rightarrow> raw" where
  "payin_webhook_body eventID payment st providerStatus now =
     Raw (JObj [(''data'', JObj [(''settlement_status'', JStr providerStatus), (''status'', JStr st)]),
       (''id'', JStr eventID), (''occurred_at'', at_json now), (''payin_id'', JStr payment),
       (''reason'', JStr providerStatus), (''type'', JStr (''payin.'' @ st))])"

definition has_payin_saga :: "string \<Rightarrow> db \<Rightarrow> bool" where
  "has_payin_saga payment s \<longleftrightarrow>
     list_ex (\<lambda>g. sg_payment g = payment \<and> sg_direction g = PaymentDirectionPayin) (sagas s)"

definition enqueue_payin_events :: "string \<Rightarrow> string \<Rightarrow> string \<Rightarrow> string \<Rightarrow> PaymentStatus \<Rightarrow> time \<Rightarrow> db \<Rightarrow> db result" where
  "enqueue_payin_events providerID payment st providerStatus currentPayment now s =
     (let eventID = ''evt_blindpay_'' @ providerID @ ''_'' @ st;
          body = payin_webhook_body eventID payment st providerStatus now;
          publicType = payin_public_type st
      in bindE (if has_payin_saga payment s
                then insert_outbox_once (new_outbox (''evt_payin_saga_'' @ providerID @ ''_'' @ st) PayinEventsTopic
                       (''payin.'' @ st) (payin_event_version st) payment ''payin'' body now) s
                else Inr s) (\<lambda>s1.
         if publicType \<noteq> '''' \<and> currentPayment \<noteq> PaymentStatusSucceeded
         then insert_outbox_once (new_outbox (eventID @ ''_payment'') PaymentEventsTopic publicType SchemaVersion
                payment ''payment'' body now) s1
         else Inr s1))"

text \<open>The reversal of a recorded pay-in.\<close>

definition reverse_payin :: "string \<Rightarrow> payin_row \<Rightarrow> time \<Rightarrow> db \<Rightarrow> (bool \<times> db) result" where
  "reverse_payin payment r now s =
     (let journal = ''jrn_'' @ payment @ ''_refunded''
      in bindE (insert_journal_once journal payment ''payin.refunded'' now s) (\<lambda>(s1, rows).
           if rows = 0 then Inr (False, s1)
           else bindE (insert_lines journal SettlementAccount CashOperatingAccount (pi_destination_amount r)
                  (pi_destination_currency r) s1) (\<lambda>s2. Inr (True, s2))))"

definition applyPayinWebhook :: "string \<Rightarrow> string \<Rightarrow> raw \<Rightarrow> time \<Rightarrow> db \<Rightarrow> (bool \<times> db) result" where
  "applyPayinWebhook providerID providerStatus body now s =
     (let st = lifecycle_status providerStatus in
      case payin_target providerID s of
        None \<Rightarrow> Inr (False, s)
      | Some (r, p) \<Rightarrow>
          let payment = pi_payment r; current = pi_status r in
          if current = st \<or> current = ''failed'' \<or> current = ''refunded'' then Inr (True, s)
          else bindE (update_payin (\<lambda>x. pi_payment x = payment) (advanced_payin st providerStatus body now) s) (\<lambda>s1.
               let new = payin_payment_status st (pay_status p); s2 = set_payment_status payment new now s1
               in bindE (RecordTimeline \<lparr>tl_payment = payment, tl_status = new, tl_note = ''payin.'' @ st, tl_at = now\<rparr> s2) (\<lambda>s3.
                  bindE (enqueue_payin_events providerID payment st providerStatus (pay_status p) now s3) (\<lambda>s4.
                    if \<not> (pay_status p = PaymentStatusSucceeded \<and> st = ''refunded'') then Inr (True, s4)
                    else reverse_payin payment r now s4))))"

definition insert_application_once :: "application_row \<Rightarrow> db \<Rightarrow> db" where
  "insert_application_once a s =
     (if list_ex (\<lambda>x. wa_provider x = wa_provider a \<and> wa_event x = wa_event a) (applications s) then s
      else s\<lparr>applications := applications s @ [a]\<rparr>)"

text \<open>The insert selects the pay-ins of the provider id, of which there is at most one.\<close>

definition record_application :: "string \<Rightarrow> string \<Rightarrow> time \<Rightarrow> db \<Rightarrow> db" where
  "record_application svixID providerID now s =
     fold (\<lambda>r. insert_application_once \<lparr>wa_provider = ''blindpay'', wa_event = svixID,
             wa_operation_type = ''payin'', wa_operation = pi_payment r, wa_applied_at = now\<rparr>)
       (filter (bp_payin providerID) (payins s)) s"

subsection \<open>Processing a delivery\<close>

definition bp_Process :: "env \<Rightarrow> string \<Rightarrow> raw \<Rightarrow> db \<Rightarrow> db result" where
  "bp_Process e svixID body s =
     (case decode_webhook body of
        None \<Rightarrow> Inl (ErrText ''invalid BlindPay webhook payload'')
      | Some w \<Rightarrow>
          if svixID = '''' \<or> pw_WebhookEvent w = '''' then Inl (ErrText ''invalid BlindPay webhook payload'') else
          let now = env_now e;
              s1 = insert_webhook_once \<lparr>bw_svix = svixID, bw_event = pw_WebhookEvent w,
                     bw_provider_id = nullif (pw_ID w), bw_payload = body, bw_received_at = now\<rparr> s
          in if HasPrefix (pw_WebhookEvent w) ''payin.'' then
               (if \<not> HasPrefix (pw_ID w) ''pi_'' then Inl (ErrText ''invalid BlindPay payin webhook'')
                else if \<not> validProviderPayinStatus (pw_Status w) then Inl (ErrText ''invalid BlindPay payin status'')
                else bindE (applyPayinWebhook (pw_ID w) (pw_Status w) body now s1) (\<lambda>(applied, s2).
                       Inr (if applied then record_application svixID (pw_ID w) now s2 else s2)))
             else if \<not> HasPrefix (pw_WebhookEvent w) ''payout.'' then Inr s1
             else if \<not> HasPrefix (pw_ID w) ''po_'' \<or> \<not> validPayoutStatus (pw_Status w)
             then Inl (ErrText ''invalid BlindPay payout webhook'')
             else applyPayoutWebhook svixID (pw_ID w) (pw_Status w) body now s1)"

text \<open>
  The HTTP handler: the body is read up to one megabyte, the three headers are checked, and the status
  code is the answer. \<open>parse\<close> is the JSON parser.
\<close>

record bp_request =
  br_body :: string
  br_svix_id :: string
  br_svix_timestamp :: string
  br_svix_signature :: string

definition NewWebhookHandler ::
  "mac \<Rightarrow> (string \<Rightarrow> raw) \<Rightarrow> WebhookVerifier \<Rightarrow> env \<Rightarrow> bp_request \<Rightarrow> db \<Rightarrow> int \<times> db" where
  "NewWebhookHandler hmac parse v e r s =
     (if 1048576 < length (br_body r) then (400, s)
      else case Verify hmac v (env_now e) (br_svix_id r) (br_svix_timestamp r) (br_svix_signature r) (br_body r) of
             Inl _ \<Rightarrow> (401, s)
           | Inr _ \<Rightarrow> (case bp_Process e (br_svix_id r) (parse (br_body r)) s of
                         Inl _ \<Rightarrow> (500, s) | Inr s' \<Rightarrow> (204, s')))"

subsection \<open>The repair loop\<close>

text \<open>\<^verbatim>\<open>payload->>'status'\<close>, of which only text values can match.\<close>

definition payload_status :: "raw \<Rightarrow> string option" where
  "payload_status body =
     (case body of Raw (JObj fs) \<Rightarrow> (case map_of (rev fs) ''status'' of Some (JStr st) \<Rightarrow> Some st | _ \<Rightarrow> None)
      | _ \<Rightarrow> None)"

definition unreconciled :: "db \<Rightarrow> bp_webhook_row \<Rightarrow> bool" where
  "unreconciled s w \<longleftrightarrow> HasPrefix (bw_event w) ''payout.'' \<and>
     payload_status (bw_payload w) \<in> Some ` {''completed'', ''failed'', ''refunded''} \<and>
     \<not> list_ex (\<lambda>o1. ob_id o1 = bp_event_id (bw_svix w)) (outbox s)"

definition unapplied_payin :: "db \<Rightarrow> bp_webhook_row \<Rightarrow> bool" where
  "unapplied_payin s w \<longleftrightarrow> HasPrefix (bw_event w) ''payin.'' \<and>
     \<not> list_ex (\<lambda>a. wa_provider a = ''blindpay'' \<and> wa_event a = bw_svix w) (applications s) \<and>
     list_ex (\<lambda>r. pi_provider r = ''blindpay'' \<and> pi_provider_payin r \<noteq> None \<and>
       pi_provider_payin r = bw_provider_id w) (payins s)"

definition oldest_100 :: "(bp_webhook_row \<Rightarrow> bool) \<Rightarrow> db \<Rightarrow> bp_webhook_row list" where
  "oldest_100 P s = take 100 (sort_key bw_received_at (filter P (bp_webhooks s)))"

fun reprocess :: "(nat \<Rightarrow> env) \<Rightarrow> nat \<Rightarrow> bp_webhook_row list \<Rightarrow> db \<Rightarrow> db \<times> nat \<times> err option" where
  "reprocess es n [] s = (s, n, None)"
| "reprocess es n (d # ds) s =
     (case bp_Process (es n) (bw_svix d) (bw_payload d) s of
        Inl e \<Rightarrow> (s, n, Some e)
      | Inr s' \<Rightarrow> reprocess es (Suc n) ds s')"

definition bp_ReconcileOnce :: "(nat \<Rightarrow> env) \<Rightarrow> db \<Rightarrow> db \<times> nat \<times> err option" where
  "bp_ReconcileOnce es s =
     (case reprocess es 0 (oldest_100 (unreconciled s) s) s of
        (s1, n, Some e) \<Rightarrow> (s1, n, Some e)
      | (s1, n, None) \<Rightarrow> reprocess es n (oldest_100 (unapplied_payin s1) s1) s1)"

fun RunReconciler :: "(nat \<Rightarrow> env) list \<Rightarrow> db \<Rightarrow> db \<times> err option" where
  "RunReconciler [] s = (s, None)"
| "RunReconciler (es # rest) s =
     (case bp_ReconcileOnce es s of
        (s1, n, Some e) \<Rightarrow> (s1, Some e)
      | (s1, n, None) \<Rightarrow> RunReconciler rest s1)"

subsection \<open>What a delivery leaves alone and what it moves forward\<close>

text \<open>The order of payout statuses: unchanged, or advanced as the code allows.\<close>

definition status_le :: "string \<Rightarrow> string \<Rightarrow> bool" where
  "status_le a b \<longleftrightarrow> a = b \<or> payoutStatusCanAdvance a b"

lemma rank_terminal: "payoutStatusRank a = 4 \<longleftrightarrow> isTerminalPayoutStatus a"
  by (simp add: payoutStatusRank_def isTerminalPayoutStatus_def)

lemma rank_le_4: "payoutStatusRank a \<le> 4"
  by (simp add: payoutStatusRank_def)

lemma can_advance_iff:
  "payoutStatusCanAdvance a b \<longleftrightarrow>
     (if isTerminalPayoutStatus a then a = ''completed'' \<and> b = ''refunded''
      else payoutStatusRank a < payoutStatusRank b)"
  by (auto simp: payoutStatusCanAdvance_def isTerminalPayoutStatus_def)

lemma status_le_refl [simp]: "status_le a a"
  by (simp add: status_le_def)

lemma status_le_trans: "status_le a b \<Longrightarrow> status_le b c \<Longrightarrow> status_le a c"
  using rank_terminal [of b] rank_terminal [of c] rank_le_4 [of c] rank_terminal [of a]
  by (auto simp: status_le_def can_advance_iff split: if_splits) (auto simp: isTerminalPayoutStatus_def)

definition payout_forward :: "payout_row \<Rightarrow> payout_row \<Rightarrow> bool" where
  "payout_forward r r' \<longleftrightarrow>
     (\<exists>st body now. r' = advanced_payout st body now r) \<and> status_le (po_status r) (po_status r')"

lemma advanced_payout_sel [simp]:
  "po_payment (advanced_payout st body now r) = po_payment r"
  "po_provider (advanced_payout st body now r) = po_provider r"
  "po_provider_payout (advanced_payout st body now r) = po_provider_payout r"
  "po_status (advanced_payout st body now r) = st"
  "bp_payout i (advanced_payout st body now r) = bp_payout i r"
  "advanced_payout st2 body2 now2 (advanced_payout st body now r) = advanced_payout st2 body2 now2 r"
  by (simp_all add: advanced_payout_def bp_payout_def)

lemma payout_forward_refl [simp]: "payout_forward r r"
proof -
  have "r = advanced_payout (po_status r) (po_payload r) (po_updated_at r) r"
    unfolding advanced_payout_def by (rule payout_row.equality) simp_all
  then show ?thesis unfolding payout_forward_def by (metis status_le_refl)
qed

lemma payout_forward_trans:
  assumes "payout_forward a b" and "payout_forward b c"
  shows "payout_forward a c"
proof -
  from assms(1) obtain st body now where b: "b = advanced_payout st body now a" and
    ab: "status_le (po_status a) (po_status b)" unfolding payout_forward_def by blast
  from assms(2) obtain st2 body2 now2 where c: "c = advanced_payout st2 body2 now2 b" and
    bc: "status_le (po_status b) (po_status c)" unfolding payout_forward_def by blast
  from b c have "c = advanced_payout st2 body2 now2 a" by simp
  with status_le_trans [OF ab bc] show ?thesis unfolding payout_forward_def by blast
qed

definition bp_effect :: "db \<Rightarrow> db \<Rightarrow> bool" where
  "bp_effect s s' \<longleftrightarrow> tx_effect s s' \<and> ob_id ` set (outbox s) \<subseteq> ob_id ` set (outbox s') \<and>
     list_all2 payout_forward (payouts s) (payouts s')"

lemma bp_effect_refl [simp]: "bp_effect s s"
  by (simp add: bp_effect_def list_all2_refl)

lemma bp_effect_trans [trans]:
  assumes "bp_effect s t" and "bp_effect t u"
  shows "bp_effect s u"
proof -
  have "list_all2 payout_forward (payouts s) (payouts u)"
    by (rule list_all2_trans [where as = "payouts s" and bs = "payouts t" and ?P1.0 = payout_forward and
          ?P2.0 = payout_forward])
      (use assms payout_forward_trans in \<open>auto simp: bp_effect_def\<close>)
  moreover have "tx_effect s u" using assms tx_effect_trans [of s t u] by (simp add: bp_effect_def)
  moreover have "ob_id ` set (outbox s) \<subseteq> ob_id ` set (outbox u)" using assms by (auto simp: bp_effect_def)
  ultimately show ?thesis by (simp add: bp_effect_def)
qed

lemma bp_effect_tables: "tx_effect s s' \<Longrightarrow> outbox s' = outbox s \<Longrightarrow> payouts s' = payouts s \<Longrightarrow> bp_effect s s'"
  by (simp add: bp_effect_def list_all2_refl)

lemma insert_webhook_once_shape: "\<exists>b. insert_webhook_once w s = s\<lparr>bp_webhooks := b\<rparr>"
proof -
  have "s = s\<lparr>bp_webhooks := bp_webhooks s\<rparr>" by simp
  then show ?thesis unfolding insert_webhook_once_def by metis
qed

lemma insert_webhook_once_effect: "bp_effect s (insert_webhook_once w s)"
proof -
  have "bp_effect s (s\<lparr>bp_webhooks := b\<rparr>)" for b
    by (auto intro!: bp_effect_tables tx_effectI simp: store_ok_def has_defs)
  then show ?thesis by (simp add: insert_webhook_once_def)
qed

lemma insert_outbox_once_effect:
  assumes "insert_outbox_once r s = Inr s'"
  shows "bp_effect s s'" and "ob_id r \<in> ob_id ` set (outbox s')"
proof -
  have "outbox s' = outbox s \<and> ob_id r \<in> ob_id ` set (outbox s) \<or> outbox s' = outbox s @ [r\<lparr>ob_seq := outbox_seq s\<rparr>]"
    using assms by (auto simp: insert_outbox_once_def insert_outbox_def list_ex_iff split: if_splits) (metis image_eqI)
  moreover have "payouts s' = payouts s" using insert_outbox_once_shape [OF assms] by auto
  ultimately show "bp_effect s s'" and "ob_id r \<in> ob_id ` set (outbox s')"
    using insert_outbox_once_frame [OF assms] by (auto simp: bp_effect_def list_all2_refl)
qed

lemma enqueueSagaResult_effect:
  assumes "enqueueSagaResult svixID payment st now s = Inr s'"
  shows "bp_effect s s'" and "has_saga payment s \<Longrightarrow> bp_event_id svixID \<in> ob_id ` set (outbox s')"
  using assms insert_outbox_once_effect
  by (fastforce simp: enqueueSagaResult_def new_outbox_def split: if_splits prod.splits)+

lemma enqueuePaymentReturn_effect:
  assumes "enqueuePaymentReturn svixID ret payment reason now s = Inr s'"
  shows "bp_effect s s'" and "bp_event_id svixID \<in> ob_id ` set (outbox s')"
  using insert_outbox_once_effect [OF assms [unfolded enqueuePaymentReturn_def]]
  by (simp_all add: new_outbox_def)

lemma RecordReturn_effect: "RecordReturn r s = Inr s' \<Longrightarrow> bp_effect s s'"
proof (rule bp_effect_tables)
  assume r: "RecordReturn r s = Inr s'"
  then show "tx_effect s s'" "outbox s' = outbox s"
    using RecordReturn_frame [OF r] RecordReturn_ledger_ok [OF r] RecordReturn_extends [OF r]
    by (auto simp: tx_effect_def tables_kept_def)
  show "payouts s' = payouts s" using r by (cases rule: RecordReturn_cases) simp_all
qed

text \<open>An advance rewrites the row of one payment: the payment id is a key of the table.\<close>

lemma advance_effect:
  assumes put: "put_payouts (update_where (\<lambda>x. po_payment x = po_payment r) (advanced_payout st body now) (payouts s)) s = Inr s'"
    and r: "r \<in> set (payouts s)" and adv: "payoutStatusCanAdvance (po_status r) st"
  shows "bp_effect s s'"
proof -
  from put have s': "s' = s\<lparr>payouts := update_where (\<lambda>x. po_payment x = po_payment r) (advanced_payout st body now) (payouts s)\<rparr>"
    and ok: "payouts_ok (payouts s')" by (auto simp: put_payouts_def split: if_splits)
  have "map po_payment (payouts s') = map po_payment (payouts s)"
    by (simp add: s' map_update_where)
  with ok have "distinct (map po_payment (payouts s))" by (simp add: payouts_ok_def)
  with r have one: "x = r" if "x \<in> set (payouts s)" "po_payment x = po_payment r" for x
    using that by (metis distinct_map inj_onD)
  have fwd: "payout_forward x (advanced_payout st body now x)"
    if "x \<in> set (payouts s)" "po_payment x = po_payment r" for x
    using one [OF that] adv by (auto simp: payout_forward_def status_le_def)
  have "list_all2 payout_forward (payouts s) (payouts s')"
    by (simp add: s' update_where_def list.rel_map)
      (rule list.rel_refl_strong, use fwd in auto)
  moreover have "tx_effect s s'"
    using put_payouts_keeps [OF put] by (intro tx_effectI) (simp_all add: s')
  ultimately show ?thesis by (simp add: bp_effect_def s')
qed

lemma find_payout_forward:
  assumes "list_all2 payout_forward t t'"
  shows "rel_option payout_forward (List.find (bp_payout i) t) (List.find (bp_payout i) t')"
  using assms
  by (induction rule: list_all2_induct) (auto simp: payout_forward_def)

lemma applyPayoutWebhook_effect:
  assumes "applyPayoutWebhook svixID providerID st body now s = Inr s'"
  shows "bp_effect s s'"
proof (cases "List.find (bp_payout providerID) (payouts s)")
  case None
  with assms show ?thesis by (simp add: applyPayoutWebhook_def)
next
  case (Some r)
  then have r: "r \<in> set (payouts s)" by (simp add: find_Some_memb)
  show ?thesis
  proof (cases "payoutStatusCanAdvance (po_status r) st")
    case False
    with assms Some show ?thesis
      by (auto simp: applyPayoutWebhook_def split: if_splits dest: enqueueSagaResult_effect(1))
  next
    case True
    with assms Some obtain s1 where
      put: "put_payouts (update_where (\<lambda>x. po_payment x = po_payment r) (advanced_payout st body now) (payouts s)) s = Inr s1"
      and rest: "s' = s1 \<or> enqueueSagaResult svixID (po_payment r) st now s1 = Inr s' \<or>
        (\<exists>s2. RecordReturn (bp_return svixID (po_payment r) now) s1 = Inr s2 \<and>
          enqueuePaymentReturn svixID (''ret_blindpay_'' @ svixID) (po_payment r) return_reason now s2 = Inr s')"
      by (auto simp: applyPayoutWebhook_def Let_def bindE_Inr_iff simp del: append.simps split: if_splits)
    from rest have "bp_effect s1 s'"
      by (auto dest: enqueueSagaResult_effect(1) RecordReturn_effect enqueuePaymentReturn_effect(1)
          intro: bp_effect_trans)
    with advance_effect [OF put r True] show ?thesis by (rule bp_effect_trans)
  qed
qed

lemma update_payin_effect: "update_payin P f s = Inr s' \<Longrightarrow> bp_effect s s' \<and> payments s' = payments s"
  using update_payin_only [of P f s s'] put_payins_keeps [of "update_where P f (payins s)" s s']
  by (auto simp: update_payin_def put_payins_def intro!: bp_effect_tables tx_effectI split: if_splits)

lemma set_payment_status_effect: "bp_effect s (set_payment_status i st now s)"
  by (rule bp_effect_tables) (auto intro!: tx_effectI store_ok_set_payment_status)

lemma RecordTimeline_effect:
  assumes "RecordTimeline r s = Inr s'"
  shows "bp_effect s s'"
  using assms RecordTimeline_keeps [OF assms]
  by (auto simp: RecordTimeline_Inr intro!: bp_effect_tables tx_effectI)

lemma enqueue_payin_events_effect:
  "enqueue_payin_events providerID payment st providerStatus current now s = Inr s' \<Longrightarrow> bp_effect s s'"
  unfolding enqueue_payin_events_def Let_def bindE_Inr_iff
  by (auto split: if_splits dest: insert_outbox_once_effect(1) intro: bp_effect_trans)

lemma reverse_payin_effect:
  assumes "reverse_payin payment r now s = Inr (b, s')"
  shows "bp_effect s s'"
proof -
  let ?j = "''jrn_'' @ payment @ ''_refunded''"
  from assms obtain s1 n where j: "insert_journal_once ?j payment ''payin.refunded'' now s = Inr (s1, n)" and
    rest: "n = 0 \<and> s' = s1 \<or> n \<noteq> 0 \<and> insert_lines ?j SettlementAccount CashOperatingAccount
        (pi_destination_amount r) (pi_destination_currency r) s1 = Inr s'"
    by (auto simp: reverse_payin_def Let_def bindE_Inr_iff simp del: append.simps split: if_splits)
  show ?thesis
  proof (cases "n = 0")
    case True
    with j rest show ?thesis by (auto simp: insert_journal_once_0)
  next
    case False
    with rest have "insert_lines ?j SettlementAccount CashOperatingAccount
        (pi_destination_amount r) (pi_destination_currency r) s1 = Inr s'" by simp
    note post = posted_steps [OF j False this]
    have "ledger_ok s \<longrightarrow> ledger_ok s'"
      using post by (auto simp: accounts_def simp del: append.simps intro!: ledger_ok_posted)
    moreover have "ledger_extends s s'" by (rule ledger_extends_posted) (simp_all add: post(1))
    ultimately show ?thesis by (intro bp_effect_tables) (simp_all add: tx_effect_def post(1))
  qed
qed

lemma applyPayinWebhook_effect:
  assumes "applyPayinWebhook providerID providerStatus body now s = Inr (b, s')"
  shows "bp_effect s s'"
proof (cases "payin_target providerID s")
  case None
  with assms show ?thesis by (simp add: applyPayinWebhook_def)
next
  case (Some rp)
  then obtain r p where target: "payin_target providerID s = Some (r, p)" by (cases rp) auto
  let ?st = "lifecycle_status providerStatus" and ?i = "pi_payment r"
  let ?new = "payin_payment_status ?st (pay_status p)"
  consider "s' = s" | s1 s3 s4 tl where
    "update_payin (\<lambda>x. pi_payment x = ?i) (advanced_payin ?st providerStatus body now) s = Inr s1"
    "RecordTimeline tl (set_payment_status ?i ?new now s1) = Inr s3"
    "enqueue_payin_events providerID ?i ?st providerStatus (pay_status p) now s3 = Inr s4"
    "s' = s4 \<or> reverse_payin ?i r now s4 = Inr (b, s')"
    using assms target unfolding applyPayinWebhook_def Let_def
    by (auto simp: bindE_Inr_iff simp del: append.simps split: if_splits)
  then show ?thesis
  proof cases
    case 2
    have "bp_effect s s1" using update_payin_effect [OF 2(1)] by simp
    also note set_payment_status_effect [of s1 ?i ?new now]
    also note RecordTimeline_effect [OF 2(2)]
    also note enqueue_payin_events_effect [OF 2(3)]
    finally have "bp_effect s s4" .
    with 2(4) show ?thesis by (auto dest: reverse_payin_effect intro: bp_effect_trans)
  qed simp
qed

lemma record_application_effect: "bp_effect s (record_application svixID providerID now s)"
proof -
  have app: "bp_effect s (insert_application_once a s)" for a s
  proof -
    have "bp_effect s (s\<lparr>applications := b\<rparr>)" for b
      by (auto intro!: bp_effect_tables tx_effectI simp: store_ok_def has_defs)
    then show ?thesis by (simp add: insert_application_once_def)
  qed
  have "bp_effect s (fold (\<lambda>r. insert_application_once (f r)) rs s)" for f :: "payin_row \<Rightarrow> application_row" and rs s
    by (induction rs arbitrary: s) (auto intro: bp_effect_trans app)
  then show ?thesis by (simp add: record_application_def)
qed

lemma payout_not_payin: "HasPrefix ev ''payout.'' \<Longrightarrow> \<not> HasPrefix ev ''payin.''"
  by (auto simp: HasPrefix_def prefix_def)

lemma bp_Process_cases [consumes 1, case_names payin other payout]:
  assumes "bp_Process e svixID body s = Inr s'"
  obtains
    w s1 b s2 where "decode_webhook body = Some w" "bp_effect s s1" "HasPrefix (pw_WebhookEvent w) ''payin.''"
      "applyPayinWebhook (pw_ID w) (pw_Status w) body (env_now e) s1 = Inr (b, s2)"
      "s' = (if b then record_application svixID (pw_ID w) (env_now e) s2 else s2)"
  | w where "decode_webhook body = Some w" "bp_effect s s'" "\<not> HasPrefix (pw_WebhookEvent w) ''payout.''"
  | w s1 b where "decode_webhook body = Some w" "s1 = s\<lparr>bp_webhooks := b\<rparr>" "bp_effect s s1"
      "HasPrefix (pw_WebhookEvent w) ''payout.''"
      "validPayoutStatus (pw_Status w)"
      "applyPayoutWebhook svixID (pw_ID w) (pw_Status w) body (env_now e) s1 = Inr s'"
proof -
  from assms obtain w where w: "decode_webhook body = Some w" by (auto simp: bp_Process_def split: option.splits)
  let ?s1 = "insert_webhook_once \<lparr>bw_svix = svixID, bw_event = pw_WebhookEvent w,
      bw_provider_id = nullif (pw_ID w), bw_payload = body, bw_received_at = env_now e\<rparr> s"
  note s1 = insert_webhook_once_effect [of s]
  show thesis
  proof (cases "HasPrefix (pw_WebhookEvent w) ''payin.''")
    case True
    with assms w have "bindE (applyPayinWebhook (pw_ID w) (pw_Status w) body (env_now e) ?s1) (\<lambda>(applied, s2).
        Inr (if applied then record_application svixID (pw_ID w) (env_now e) s2 else s2)) = Inr s'"
      by (simp add: bp_Process_def Let_def split: if_split_asm)
    then obtain bs where "applyPayinWebhook (pw_ID w) (pw_Status w) body (env_now e) ?s1 = Inr bs"
      "s' = (if fst bs then record_application svixID (pw_ID w) (env_now e) (snd bs) else snd bs)"
      by (auto simp only: bindE_Inr_iff split_beta sum.inject)
    then have "applyPayinWebhook (pw_ID w) (pw_Status w) body (env_now e) ?s1 = Inr (fst bs, snd bs)"
      "s' = (if fst bs then record_application svixID (pw_ID w) (env_now e) (snd bs) else snd bs)" by simp_all
    then show thesis using that(1) [OF w s1 True] by blast
  next
    case False
    show thesis
    proof (cases "HasPrefix (pw_WebhookEvent w) ''payout.''")
      case True
      with assms w False have "validPayoutStatus (pw_Status w)"
        "applyPayoutWebhook svixID (pw_ID w) (pw_Status w) body (env_now e) ?s1 = Inr s'"
        by (auto simp: bp_Process_def Let_def split: if_splits)
      then show thesis using that(3) [OF w _ s1 True] insert_webhook_once_shape by metis
    next
      case np: False
      with assms w False have "s' = ?s1" by (auto simp: bp_Process_def Let_def split: if_splits)
      then show thesis using that(2) [OF w _ np] s1 by blast
    qed
  qed
qed

lemma bp_Process_effect:
  assumes "bp_Process e svixID body s = Inr s'"
  shows "bp_effect s s'"
  using assms
proof (cases rule: bp_Process_cases)
  case (payin w s1 b s2)
  then have "bp_effect s s2" using applyPayinWebhook_effect bp_effect_trans by blast
  with payin(5) show ?thesis using record_application_effect bp_effect_trans by (cases b) simp_all
next
  case (payout w s1 b)
  then show ?thesis using applyPayoutWebhook_effect bp_effect_trans by blast
qed simp

lemma reprocess_effect: "reprocess es n ds s = (s', m, r) \<Longrightarrow> bp_effect s s'"
  by (induction es n ds s rule: reprocess.induct)
    (auto split: sum.splits dest: bp_Process_effect intro: bp_effect_trans)

lemma bp_ReconcileOnce_effect: "bp_ReconcileOnce es s = (s', m, r) \<Longrightarrow> bp_effect s s'"
  unfolding bp_ReconcileOnce_def
  by (auto split: prod.splits option.splits dest!: reprocess_effect intro: bp_effect_trans)

subsection \<open>What a repair round settles\<close>

text \<open>
  A terminal payout delivery is settled when its event is in the outbox, when there is no payout or no saga
  it could apply to yet, or when the payout has reached a status that the delivery's may not follow.
\<close>

definition delivery_settled :: "string \<Rightarrow> payoutWebhook \<Rightarrow> db \<Rightarrow> bool" where
  "delivery_settled svixID d s \<longleftrightarrow> bp_event_id svixID \<in> ob_id ` set (outbox s) \<or>
     (case List.find (bp_payout (pw_ID d)) (payouts s) of None \<Rightarrow> True
      | Some r \<Rightarrow> \<not> has_saga (po_payment r) s \<or> \<not> status_le (po_status r) (pw_Status d))"

lemma delivery_settled_stable:
  assumes "bp_effect s s'" and "delivery_settled svixID d s"
  shows "delivery_settled svixID d s'"
proof -
  from assms(1) have ids: "ob_id ` set (outbox s) \<subseteq> ob_id ` set (outbox s')" and sagas: "sagas s' = sagas s"
    and find: "rel_option payout_forward (List.find (bp_payout (pw_ID d)) (payouts s))
      (List.find (bp_payout (pw_ID d)) (payouts s'))"
    by (simp_all add: bp_effect_def tx_effect_def find_payout_forward)
  show ?thesis
  proof (cases "List.find (bp_payout (pw_ID d)) (payouts s')")
    case (Some r')
    with find obtain r where r: "List.find (bp_payout (pw_ID d)) (payouts s) = Some r" "payout_forward r r'"
      by (auto simp: option_rel_Some2)
    then have "po_payment r' = po_payment r" and le: "status_le (po_status r) (po_status r')"
      by (auto simp: payout_forward_def)
    with assms(2) ids sagas Some r(1) status_le_trans [OF le] show ?thesis
      by (auto simp: delivery_settled_def has_saga_def)
  qed (simp add: delivery_settled_def)
qed

lemma applyPayoutWebhook_settles:
  assumes "applyPayoutWebhook svixID (pw_ID d) (pw_Status d) body now s = Inr s'"
    and terminal: "isTerminalPayoutStatus (pw_Status d)"
  shows "delivery_settled svixID d s'"
proof (cases "List.find (bp_payout (pw_ID d)) (payouts s)")
  case None
  with assms(1) show ?thesis by (simp add: applyPayoutWebhook_def delivery_settled_def)
next
  case (Some r)
  have saga: "delivery_settled svixID d t'"
    if "enqueueSagaResult svixID (po_payment r) (pw_Status d) now t = Inr t'"
      and "\<exists>r'. List.find (bp_payout (pw_ID d)) (payouts t) = Some r' \<and> po_payment r' = po_payment r" for t t'
  proof (cases "has_saga (po_payment r) t")
    case True
    with enqueueSagaResult_effect(2) [OF that(1)] show ?thesis by (simp add: delivery_settled_def)
  next
    case False
    with that show ?thesis by (auto simp: enqueueSagaResult_def delivery_settled_def)
  qed
  show ?thesis
  proof (cases "payoutStatusCanAdvance (po_status r) (pw_Status d)")
    case False
    show ?thesis
    proof (cases "po_status r = pw_Status d")
      case True
      with False assms Some have "enqueueSagaResult svixID (po_payment r) (pw_Status d) now s = Inr s'"
        by (simp add: applyPayoutWebhook_def)
      with saga Some show ?thesis by blast
    next
      case ne: False
      with False assms Some show ?thesis
        by (simp add: applyPayoutWebhook_def delivery_settled_def status_le_def)
    qed
  next
    case True
    with assms(1) Some obtain s1 where
      put: "put_payouts (update_where (\<lambda>x. po_payment x = po_payment r) (advanced_payout (pw_Status d) body now) (payouts s)) s = Inr s1"
      and "(if po_status r = ''completed'' \<and> pw_Status d = ''refunded''
         then bindE (RecordReturn (bp_return svixID (po_payment r) now) s1)
                (enqueuePaymentReturn svixID (''ret_blindpay_'' @ svixID) (po_payment r) return_reason now)
         else if pw_Status d \<in> {''completed'', ''failed'', ''refunded'', ''on_hold''}
         then enqueueSagaResult svixID (po_payment r) (pw_Status d) now s1 else Inr s1) = Inr s'"
      by (simp add: applyPayoutWebhook_def Let_def bindE_Inr_iff del: append.simps) blast
    moreover have "pw_Status d \<in> {''completed'', ''failed'', ''refunded'', ''on_hold''}"
      using terminal by (auto simp: isTerminalPayoutStatus_def)
    ultimately have rest: "enqueueSagaResult svixID (po_payment r) (pw_Status d) now s1 = Inr s' \<or>
        (\<exists>s2. enqueuePaymentReturn svixID (''ret_blindpay_'' @ svixID) (po_payment r) return_reason now s2 = Inr s')"
      by (auto simp: bindE_Inr_iff simp del: append.simps split: if_split_asm)
    have "bp_effect s s1" using advance_effect [OF put _ True] Some by (simp add: find_Some_memb)
    then have "rel_option payout_forward (Some r) (List.find (bp_payout (pw_ID d)) (payouts s1))"
      using find_payout_forward [of "payouts s" "payouts s1" "pw_ID d"] Some by (simp add: bp_effect_def)
    then have "\<exists>r'. List.find (bp_payout (pw_ID d)) (payouts s1) = Some r' \<and> po_payment r' = po_payment r"
      by (auto simp: option_rel_Some1 payout_forward_def)
    with rest saga enqueuePaymentReturn_effect(2) show ?thesis by (auto simp: delivery_settled_def)
  qed
qed

text \<open>A stored delivery that the repair query can ask to reprocess as what it is.\<close>

definition terminal_delivery :: "bp_webhook_row \<Rightarrow> payoutWebhook \<Rightarrow> bool" where
  "terminal_delivery w d \<longleftrightarrow> decode_webhook (bw_payload w) = Some d \<and>
     HasPrefix (pw_WebhookEvent d) ''payout.'' \<and> isTerminalPayoutStatus (pw_Status d)"

lemma bp_Process_settles:
  assumes "bp_Process e (bw_svix w) (bw_payload w) s = Inr s'" and "terminal_delivery w d"
  shows "delivery_settled (bw_svix w) d s'"
  using assms(1)
proof (cases rule: bp_Process_cases)
  case (payout w' s1 b)
  with assms(2) show ?thesis by (auto simp: terminal_delivery_def intro: applyPayoutWebhook_settles)
qed (use assms(2) in \<open>auto simp: terminal_delivery_def dest: payout_not_payin\<close>)

lemma reprocess_settles:
  assumes "reprocess es n ds s = (s', m, None)" and "w \<in> set ds" and "terminal_delivery w d"
  shows "delivery_settled (bw_svix w) d s'"
  using assms(1,2)
proof (induction es n ds s rule: reprocess.induct)
  case (2 es n x ds s)
  then obtain s1 where s1: "bp_Process (es n) (bw_svix x) (bw_payload x) s = Inr s1" and
    rest: "reprocess es (Suc n) ds s1 = (s', m, None)" by (auto split: sum.splits)
  show ?case
  proof (cases "w \<in> set ds")
    case True
    with 2 s1 rest show ?thesis by simp
  next
    case False
    with 2(3) have "w = x" by simp
    with s1 assms(3) have "delivery_settled (bw_svix w) d s1" by (auto intro: bp_Process_settles)
    with reprocess_effect [OF rest] show ?thesis by (rule delivery_settled_stable)
  qed
qed simp

lemma oldest_100_all:
  "length (filter P (bp_webhooks s)) \<le> 100 \<Longrightarrow> set (oldest_100 P s) = {w \<in> set (bp_webhooks s). P w}"
  by (simp add: oldest_100_def)

lemma bp_ReconcileOnce_settles:
  assumes "bp_ReconcileOnce es s = (s', n, None)" and "w \<in> set (oldest_100 (unreconciled s) s)"
    and "terminal_delivery w d"
  shows "delivery_settled (bw_svix w) d s'"
proof -
  from assms(1) obtain s1 k where 1: "reprocess es 0 (oldest_100 (unreconciled s) s) s = (s1, k, None)" and
    2: "reprocess es k (oldest_100 (unapplied_payin s1) s1) s1 = (s', n, None)"
    by (auto simp: bp_ReconcileOnce_def split: prod.splits option.splits)
  from reprocess_settles [OF 1 assms(2,3)] reprocess_effect [OF 2] show ?thesis
    by (rule delivery_settled_stable [rotated])
qed

subsection \<open>Where pay-in deliveries go wrong\<close>

text \<open>
  BlindPay's \<open>refunded\<close> is mapped to \<open>failed\<close>, so the reversal branch is never taken; \<open>processing\<close> is mapped
  to \<open>pending\<close>, which the table of pay-ins rejects.
\<close>

lemma lifecycle_never_refunded: "lifecycle_status st \<noteq> ''refunded''"
  by (simp add: lifecycle_status_def mapPayinStatus_def)

lemma payin_processing_rejected:
  assumes "payin_target i s = Some (r, p)" and "pi_status r \<notin> {''failed'', ''refunded'', ''pending''}"
  shows "applyPayinWebhook i ''processing'' body now s = Inl (ErrConstraint ''payins'')"
proof -
  have st: "lifecycle_status ''processing'' = ''pending''" by code_simp
  have bad: "\<not> payin_status_ok ''pending''" by code_simp
  from assms(1) have "List.find (bp_payin i) (payins s) = Some r" by (auto simp: payin_target_def split: option.splits)
  then have "r \<in> set (payins s)" by (auto dest: find_Some_memb)
  then have "advanced_payin ''pending'' ''processing'' body now r \<in> set (update_where (\<lambda>x. pi_payment x = pi_payment r)
      (advanced_payin ''pending'' ''processing'' body now) (payins s))" (is "?r' \<in> set ?t")
    unfolding set_update_where by (rule image_eqI [rotated]) simp
  moreover have "\<not> payin_status_ok (pi_status ?r')" using bad by (simp add: advanced_payin_def)
  ultimately have "\<not> payins_ok ?t" unfolding payins_ok_def list_all_iff by blast
  then show ?thesis
    using assms by (simp add: applyPayinWebhook_def Let_def st update_payin_def put_payins_def)
qed

subsection \<open>Returns of completed payouts\<close>

lemma refunded_delivery:
  assumes "applyPayoutWebhook svixID providerID st body now s = Inr s'"
    and "List.find (bp_payout providerID) (payouts s) = Some r"
    and "po_status r = ''completed''" and "st = ''refunded''"
  obtains t s1 s2 where "s1 = s\<lparr>payouts := t\<rparr>"
    "RecordReturn (bp_return svixID (po_payment r) now) s1 = Inr s2"
    "enqueuePaymentReturn svixID (''ret_blindpay_'' @ svixID) (po_payment r) return_reason now s2 = Inr s'"
proof -
  have adv: "payoutStatusCanAdvance ''completed'' ''refunded''" by code_simp
  from assms obtain s1 s2 where
    "put_payouts (update_where (\<lambda>x. po_payment x = po_payment r) (advanced_payout st body now) (payouts s)) s = Inr s1"
    "RecordReturn (bp_return svixID (po_payment r) now) s1 = Inr s2"
    "enqueuePaymentReturn svixID (''ret_blindpay_'' @ svixID) (po_payment r) return_reason now s2 = Inr s'"
    by (auto simp: applyPayoutWebhook_def Let_def bindE_Inr_iff adv simp del: append.simps)
  then show thesis by (intro that) (auto simp: put_payouts_def split: if_splits)
qed

text \<open>What a return books: money moves back, and the return row carries the whole payment amount.\<close>

definition return_booked :: "string \<Rightarrow> payment_row \<Rightarrow> time \<Rightarrow> db \<Rightarrow> db \<Rightarrow> bool" where
  "return_booked svixID p now s s' \<longleftrightarrow>
     (if has_event (pay_id p) ''payment.return.succeeded'' s
      then returns s' = returns s \<and> (\<forall>a c. balance a c s' = balance a c s)
      else returns s' = returns s @ [return_row_of (bp_return svixID (pay_id p) now) p] \<and>
        (\<forall>a c. balance a c s' = transfer CashOperatingAccount SettlementAccount (pay_currency p) (pay_amount p)
           (\<lambda>a c. balance a c s) a c))"

lemma RecordReturn_booked:
  assumes "RecordReturn (bp_return svixID payment now) s = Inr s'"
  shows "\<exists>p. find_payment payment s = Some p \<and> pay_status p = PaymentStatusSucceeded \<and> settled payment s \<and>
    return_booked svixID p now s s'"
  using assms
proof (cases rule: RecordReturn_cases)
  case (again p)
  then show ?thesis using find_payment_id [of payment s p] by (auto simp: bp_return_def return_booked_def)
next
  case (new p a t)
  let ?q = "posted (''jrn_'' @ rq_ID (bp_return svixID payment now)) payment ''payment.return.succeeded''
    CashOperatingAccount SettlementAccount (pay_amount p) (pay_currency p) now s"
  from new(7) have "entries s' = entries ?q" by (simp add: bp_return_def)
  then have same: "balance x c s' = balance x c ?q" for x c by (rule balance_frame)
  have "(\<lambda>a c. balance a c ?q) = transfer CashOperatingAccount SettlementAccount (pay_currency p) (pay_amount p)
      (\<lambda>a c. balance a c s)" by (rule balance_posted)
  then have "balance x c s' = transfer CashOperatingAccount SettlementAccount (pay_currency p) (pay_amount p)
      (\<lambda>a c. balance a c s) x c" for x c
    unfolding same by (rule fun_cong [THEN fun_cong])
  moreover have "returns s' = returns s @ [return_row_of (bp_return svixID payment now) p]" using new(7) by simp
  ultimately show ?thesis
    using new find_payment_id [of payment s p] by (auto simp: bp_return_def return_booked_def)
qed

lemma return_booked_frame:
  assumes "returns t = returns s" and "journals t = journals s" and "entries t = entries s"
    and "returns t' = returns s'" and "entries t' = entries s'"
  shows "return_booked svixID p now t t' = return_booked svixID p now s s'"
  using assms by (simp add: return_booked_def has_event_def balance_def)

subsection \<open>Properties\<close>

text \<open>Any interleaving of accepted deliveries and repair rounds.\<close>

inductive bp_run :: "db \<Rightarrow> db \<Rightarrow> bool" where
  start: "bp_run s s"
| deliver: "bp_run s t \<Longrightarrow> bp_Process e svixID body t = Inr u \<Longrightarrow> bp_run s u"
| repair: "bp_run s t \<Longrightarrow> bp_ReconcileOnce es t = (u, n, r) \<Longrightarrow> bp_run s u"

lemma bp_run_effect: "bp_run s s' \<Longrightarrow> bp_effect s s'"
  by (induction rule: bp_run.induct)
    (auto dest: bp_Process_effect bp_ReconcileOnce_effect intro: bp_effect_trans)

text \<open>
  C7: Whatever BlindPay deliveries and repair rounds are processed, in any order and number, the ledger
  invariant is kept, no payout appears or disappears, only status, provider payload and update time of a
  payout change, and its status moves forward in rank, except that a completed payout may become refunded;
  a failed or refunded payout never changes status.
\<close>
theorem payout_status_forward:
  assumes "bp_run s s'" and "ledger_ok s"
  shows "ledger_ok s' \<and> list_all2 (\<lambda>r r'.
      r' = r\<lparr>po_status := po_status r', po_payload := po_payload r', po_updated_at := po_updated_at r'\<rparr> \<and>
      (po_status r' = po_status r \<or> po_status r = ''completed'' \<and> po_status r' = ''refunded'' \<or>
       po_status r \<notin> {''completed'', ''failed'', ''refunded''} \<and>
       payoutStatusRank (po_status r) < payoutStatusRank (po_status r'))) (payouts s) (payouts s')"
proof -
  have "payout_forward r r' \<Longrightarrow>
      r' = r\<lparr>po_status := po_status r', po_payload := po_payload r', po_updated_at := po_updated_at r'\<rparr> \<and>
      (po_status r' = po_status r \<or> po_status r = ''completed'' \<and> po_status r' = ''refunded'' \<or>
       po_status r \<notin> {''completed'', ''failed'', ''refunded''} \<and>
       payoutStatusRank (po_status r) < payoutStatusRank (po_status r'))" for r r'
    by (auto simp: payout_forward_def status_le_def can_advance_iff isTerminalPayoutStatus_def split: if_splits)
      (auto simp: advanced_payout_def)
  then show ?thesis
    using bp_run_effect [OF assms(1)] assms(2) list_all2_mono [of payout_forward "payouts s" "payouts s'"]
    by (auto simp: bp_effect_def tx_effect_def)
qed

definition sample_bp_payout :: "string \<Rightarrow> payout_row" where
  "sample_bp_payout st = \<lparr>po_payment = ''p1'', po_quote = None, po_tenant = ''t1'', po_source = None,
     po_destination = None, po_method = ''ach'', po_source_amount = 500, po_source_currency = ''USDC'',
     po_destination_amount = 500, po_destination_currency = ''USD'', po_provider = ''blindpay'',
     po_provider_payout = Some ''po_1'', po_status = st, po_reconciliation = Unmatched, po_idempotency_key = ''k1'',
     po_payload = Raw (JObj []), po_last_error = None, po_created_at = 1, po_updated_at = 1, po_submitted_at = None\<rparr>"

definition sample_bp_db :: "PaymentStatus \<Rightarrow> string \<Rightarrow> db" where
  "sample_bp_db ps st = (sample_db ps)\<lparr>payouts := [sample_bp_payout st],
     sagas := [\<lparr>sg_payment = ''p1'', sg_direction = PaymentDirectionPayout, sg_state = StateAwaitingSettlement,
       sg_deadline = Some 10, sg_failure = None, sg_created_at = 1, sg_updated_at = 1\<rparr>]\<rparr>"

definition sample_bp_body :: "string \<Rightarrow> raw" where
  "sample_bp_body st = Raw (JObj [(''webhook_event'', JStr ''payout.update''), (''id'', JStr ''po_1''), (''status'', JStr st)])"

definition sample_bp_env :: env where
  "sample_bp_env = \<lparr>env_now = 20, env_rand = (\<lambda>n. None)\<rparr>"

lemma sample_bp_db_ok: "ledger_ok (sample_bp_db PaymentStatusProcessing ''processing'')"
  by code_simp

lemma sample_bp_delivered:
  "\<exists>s'. bp_Process sample_bp_env ''m1'' (sample_bp_body ''completed'') (sample_bp_db PaymentStatusProcessing ''processing'') = Inr s'"
  by (rule not_isl_Inr) code_simp

theorem payout_status_forward_witness:
  "\<exists>s'. bp_run (sample_bp_db PaymentStatusProcessing ''processing'') s' \<and> ledger_ok s' \<and>
     length (payouts s') = 1"
proof -
  from sample_bp_delivered obtain s' where "bp_Process sample_bp_env ''m1'' (sample_bp_body ''completed'')
    (sample_bp_db PaymentStatusProcessing ''processing'') = Inr s'" ..
  then have "bp_run (sample_bp_db PaymentStatusProcessing ''processing'') s'" by (rule bp_run.deliver [OF bp_run.start])
  moreover from payout_status_forward [OF this sample_bp_db_ok]
  have "ledger_ok s'" and "length (payouts (sample_bp_db PaymentStatusProcessing ''processing'')) = length (payouts s')"
    by (auto dest: list_all2_lengthD)
  then have "ledger_ok s' \<and> length (payouts s') = 1" by (simp add: sample_bp_db_def)
  ultimately show ?thesis by blast
qed

text \<open>
  C14: A repair round that ends without error and sees at most 100 open terminal payout deliveries settles
  each of them: afterwards its event is in the outbox, or the provider id still matches no payout, or
  its payout still has no saga, or the payout has moved to a status the delivered one may not follow.
\<close>
theorem reconcile_settles_deliveries:
  assumes "bp_ReconcileOnce es s = (s', n, None)"
    and "length (filter (unreconciled s) (bp_webhooks s)) \<le> 100"
    and "w \<in> set (bp_webhooks s)" and "unreconciled s w"
    and "decode_webhook (bw_payload w) = Some d" and "HasPrefix (pw_WebhookEvent d) ''payout.''"
    and "pw_Status d \<in> {''completed'', ''failed'', ''refunded''}"
  shows "''evt_blindpay_'' @ bw_svix w \<in> ob_id ` set (outbox s') \<or>
    (case List.find (bp_payout (pw_ID d)) (payouts s') of None \<Rightarrow> True
     | Some r \<Rightarrow> \<not> has_saga (po_payment r) s' \<or>
         po_status r \<in> {''completed'', ''failed'', ''refunded''} \<and> po_status r \<noteq> pw_Status d)"
proof -
  have terminal: "isTerminalPayoutStatus (pw_Status d)" using assms(7) by (auto simp: isTerminalPayoutStatus_def)
  have "delivery_settled (bw_svix w) d s'"
    using assms(3-6) terminal oldest_100_all [OF assms(2)]
    by (intro bp_ReconcileOnce_settles [OF assms(1)]) (simp_all add: terminal_delivery_def)
  moreover have "isTerminalPayoutStatus st \<and> st \<noteq> pw_Status d" if "\<not> status_le st (pw_Status d)" for st
    using that rank_terminal [of "pw_Status d"] rank_le_4 [of st] rank_terminal [of st] terminal
    by (auto simp: status_le_def can_advance_iff)
  ultimately show ?thesis
    by (auto simp: delivery_settled_def bp_event_id_def isTerminalPayoutStatus_def split: option.splits)
qed

definition sample_stored :: bp_webhook_row where
  "sample_stored = \<lparr>bw_svix = ''m1'', bw_event = ''payout.update'', bw_provider_id = Some ''po_1'',
     bw_payload = sample_bp_body ''completed'', bw_received_at = 5\<rparr>"

definition sample_early_db :: db where
  "sample_early_db = (sample_bp_db PaymentStatusProcessing ''processing'')\<lparr>bp_webhooks := [sample_stored]\<rparr>"

theorem reconcile_settles_deliveries_witness:
  "\<exists>s' n. bp_ReconcileOnce (\<lambda>k. sample_bp_env) sample_early_db = (s', n, None) \<and>
     (''evt_blindpay_'' @ ''m1'' \<in> ob_id ` set (outbox s') \<or>
      (case List.find (bp_payout ''po_1'') (payouts s') of None \<Rightarrow> True
       | Some r \<Rightarrow> \<not> has_saga (po_payment r) s' \<or>
           po_status r \<in> {''completed'', ''failed'', ''refunded''} \<and> po_status r \<noteq> ''completed''))"
proof -
  have "snd (snd (bp_ReconcileOnce (\<lambda>k. sample_bp_env) sample_early_db)) = None" by code_simp
  then obtain s' n where run: "bp_ReconcileOnce (\<lambda>k. sample_bp_env) sample_early_db = (s', n, None)"
    by (metis prod.collapse)
  have d: "decode_webhook (bw_payload sample_stored) =
    Some \<lparr>pw_WebhookEvent = ''payout.update'', pw_ID = ''po_1'', pw_Status = ''completed''\<rparr>" by code_simp
  have w: "bp_webhooks sample_early_db = [sample_stored]" by (simp add: sample_early_db_def)
  have u: "unreconciled sample_early_db sample_stored" by code_simp
  have pre: "HasPrefix ''payout.update'' ''payout.''" by code_simp
  have "bw_svix sample_stored = ''m1''" by (simp add: sample_stored_def)
  with reconcile_settles_deliveries [OF run _ _ u d, unfolded payoutWebhook.select_convs] w u pre run show ?thesis
    by (simp del: append.simps)
qed

text \<open>
  C25: A delivery that moves a completed BlindPay payout to refunded is accepted only when the payment has
  succeeded and its settlement is posted; the payment row stays as it is, the public return event is in the
  outbox, and the books show exactly one return: the first delivery transfers the payment amount
  back and stores the return row, a later one adds nothing.
\<close>
theorem payout_return_booked:
  assumes "bp_Process e svixID body s = Inr s'" and "decode_webhook body = Some w"
    and "HasPrefix (pw_WebhookEvent w) ''payout.''" and "pw_Status w = ''refunded''"
    and "List.find (bp_payout (pw_ID w)) (payouts s) = Some r" and "po_status r = ''completed''"
  shows "\<exists>p. find_payment (po_payment r) s = Some p \<and> pay_status p = PaymentStatusSucceeded \<and>
    settled (po_payment r) s \<and> payments s' = payments s \<and> return_booked svixID p (env_now e) s s' \<and>
    ''evt_blindpay_'' @ svixID \<in> ob_id ` set (outbox s')"
  using assms(1)
proof (cases rule: bp_Process_cases)
  case (payout w' s0 b)
  with assms(2) have "applyPayoutWebhook svixID (pw_ID w) (pw_Status w) body (env_now e) s0 = Inr s'"
    and s0: "s0 = s\<lparr>bp_webhooks := b\<rparr>" and found: "List.find (bp_payout (pw_ID w)) (payouts s0) = Some r"
    using assms(5) by simp_all
  from refunded_delivery [OF this(1) found assms(6,4)] obtain t s1 s2 where s1: "s1 = s0\<lparr>payouts := t\<rparr>" and
    ret: "RecordReturn (bp_return svixID (po_payment r) (env_now e)) s1 = Inr s2" and
    ob: "enqueuePaymentReturn svixID (''ret_blindpay_'' @ svixID) (po_payment r) return_reason (env_now e) s2 = Inr s'" .
  from RecordReturn_booked [OF ret] obtain p where p: "find_payment (po_payment r) s1 = Some p"
    "pay_status p = PaymentStatusSucceeded" "settled (po_payment r) s1" "return_booked svixID p (env_now e) s1 s2" by blast
  from insert_outbox_once_shape [OF ob [unfolded enqueuePaymentReturn_def]] obtain x n
    where s': "s' = s2\<lparr>outbox := x, outbox_seq := n\<rparr>" by blast
  have "return_booked svixID p (env_now e) s s'"
    using p(4) by (subst return_booked_frame [of s s1 s' s2]) (simp_all add: s' s1 s0)
  moreover have "payments s' = payments s"
    using RecordReturn_frame(1) [OF ret] by (simp add: s' s1 s0)
  ultimately show ?thesis
    using p enqueuePaymentReturn_effect(2) [OF ob] s1 s0
    by (auto simp: find_payment_def settled_def bp_event_id_def)
qed (use assms(2,3) in \<open>auto dest: payout_not_payin\<close>)

definition sample_returned_db :: db where
  "sample_returned_db = (sample_bp_db PaymentStatusSucceeded ''completed'')\<lparr>journals :=
     [\<lparr>jr_id = ''j1'', jr_payment = ''p1'', jr_event = ''payment.succeeded'', jr_status = LedgerPosted, jr_at = 2\<rparr>]\<rparr>"

theorem payout_return_booked_witness:
  "\<exists>s'. bp_Process sample_bp_env ''m2'' (sample_bp_body ''refunded'') sample_returned_db = Inr s' \<and>
     return_booked ''m2'' (sample_payment ''p1'' PaymentStatusSucceeded) 20 sample_returned_db s'"
proof -
  have "\<exists>s'. bp_Process sample_bp_env ''m2'' (sample_bp_body ''refunded'') sample_returned_db = Inr s'"
    by (rule not_isl_Inr) code_simp
  then obtain s' where run: "bp_Process sample_bp_env ''m2'' (sample_bp_body ''refunded'') sample_returned_db = Inr s'" ..
  have d: "decode_webhook (sample_bp_body ''refunded'') =
    Some \<lparr>pw_WebhookEvent = ''payout.update'', pw_ID = ''po_1'', pw_Status = ''refunded''\<rparr>" by code_simp
  have f: "List.find (bp_payout ''po_1'') (payouts sample_returned_db) = Some (sample_bp_payout ''completed'')"
    by (simp add: sample_returned_db_def sample_bp_db_def sample_bp_payout_def bp_payout_def)
  have pre: "HasPrefix ''payout.update'' ''payout.''" by code_simp
  have pay: "find_payment ''p1'' sample_returned_db = Some (sample_payment ''p1'' PaymentStatusSucceeded)"
    by (simp add: sample_returned_db_def sample_bp_db_def sample_db_def find_payment_def sample_payment_def)
  show ?thesis
    using payout_return_booked [OF run d] f pre pay run
    by (auto simp: sample_bp_payout_def sample_bp_env_def)
qed

end
