(* ===== verification/Platform.thy ===== *)
theory Platform
  imports Outbox Notification Reconciliation Bp_Webhook
begin

text \<open>
  The components together. Every entry point of the running program, the requests of the API, the consumers
  of commands, workflow events and public events, the timers, the relay, the dispatcher, the reconciler and
  the BlindPay webhooks, is one step of the relation \<open>platform_step\<close> on the shared database.

  \<open>books_step\<close> is what the ledger sees of a step: the invariant is kept and the ledger only grows. The locale
  \<open>books_handler\<close> is the contract under which a message handler behind the inbox is such a step; it is
  interpreted by the four handlers of the program.
\<close>

subsection \<open>What the ledger sees of a step\<close>

definition books_step :: "db \<Rightarrow> db \<Rightarrow> bool" where
  "books_step s s' \<longleftrightarrow> (ledger_ok s \<longrightarrow> ledger_ok s') \<and> ledger_extends s s'"

lemma books_step_refl [simp]: "books_step s s"
  by (simp add: books_step_def ledger_extends_def)

lemma books_step_trans: "books_step s t \<Longrightarrow> books_step t u \<Longrightarrow> books_step s u"
  using ledger_extends_trans [of s t u] by (auto simp: books_step_def)

lemma tx_effect_books: "tx_effect s s' \<Longrightarrow> books_step s s'"
  by (simp add: tx_effect_def books_step_def)

text \<open>A step beside the ledger keeps the constraints and leaves journals and entries alone.\<close>

lemma books_stepI:
  assumes "store_ok s \<Longrightarrow> store_ok s'" and "journals s' = journals s" and "entries s' = entries s"
  shows "books_step s s'"
  using assms ledger_balanced_frame [of s' s] by (simp add: books_step_def ledger_ok_def ledger_extends_frame)

subsection \<open>Handlers behind the inbox\<close>

locale books_handler = event_handler handler for handler :: handler +
  assumes handler_books: "handler e ev s = (side, r) \<Longrightarrow> books_step s side \<and> (\<forall>s'. r = Inr s' \<longrightarrow> books_step s s')"
begin

lemma inbox_insert_books:
  assumes "insert_inbox_once row s = Inr (s1, n)"
  shows "books_step s s1"
proof -
  have "s1 = s \<or> s1 = s\<lparr>inbox := inbox s @ [row]\<rparr>"
    using assms by (auto simp: insert_inbox_once_def split: if_splits)
  then show ?thesis using insert_inbox_once_keeps [OF assms] by (auto intro: books_stepI)
qed

lemma rollback_books:
  assumes "books_step s side"
  shows "books_step s (side\<lparr>inbox := inbox s\<rparr>)"
proof -
  have "ledger_ok (side\<lparr>inbox := inbox s\<rparr>)" if "ledger_ok side" "ledger_ok s"
  proof -
    from that have "store_ok side" "inbox_ok (inbox s)" by (simp_all add: ledger_ok_def store_ok_def)
    then have "store_ok (side\<lparr>inbox := inbox s\<rparr>)" by (simp add: store_ok_def has_defs)
    moreover have "ledger_balanced (side\<lparr>inbox := inbox s\<rparr>) = ledger_balanced side"
      by (rule ledger_balanced_frame) simp_all
    ultimately show ?thesis using that(1) by (simp add: ledger_ok_def)
  qed
  with assms show ?thesis by (simp add: books_step_def ledger_extends_def)
qed

lemma Process_books:
  assumes "Process schemas consumer handler e ev s = (s', r)"
  shows "books_step s s'"
proof -
  let ?row = "inbox_row_of consumer ev (env_now e)"
  show ?thesis
  proof (cases "s' = s")
    case False
    with assms obtain s1 n hev where ins: "insert_inbox_once ?row s = Inr (s1, n)" and
      run: "(case handler e hev s1 of (side, Inl err) \<Rightarrow> (side\<lparr>inbox := inbox s\<rparr>, Inl err)
        | (side, Inr s2) \<Rightarrow> (s2, Inr True)) = (s', r)"
      unfolding Process_def by (simp split: if_split_asm sum.split_asm prod.split_asm)
    obtain side q where h: "handler e hev s1 = (side, q)" by fastforce
    note from_s = books_step_trans [OF inbox_insert_books [OF ins]]
    show ?thesis
    proof (cases q)
      case (Inl err)
      with run h have "s' = side\<lparr>inbox := inbox s\<rparr>" by simp
      then show ?thesis using rollback_books from_s handler_books [OF h] by blast
    next
      case (Inr s2)
      with run h have "s2 = s'" by simp
      with Inr show ?thesis using from_s handler_books [OF h] by blast
    qed
  qed simp
qed

end

lemma payout_Handle_books: "payout_Handle c e ev s = Inr s' \<Longrightarrow> books_step s s'"
  using payout_Handle_frame payout_Handle_keeps by (auto intro!: books_stepI)

lemma payin_Handle_books: "payin_Handle c e ev s = Inr s' \<Longrightarrow> books_step s s'"
  using payin_Handle_frame payin_Handle_keeps by (auto intro!: books_stepI)

lemma webhook_EventHandler_books: "webhook_EventHandler md5 e ev s = Inr s' \<Longrightarrow> books_step s s'"
  by (drule EventHandler_frame) (auto intro!: books_stepI simp: store_ok_def has_defs)

interpretation command_books: books_handler "service_handler evaluate po pn" for evaluate po pn
  by unfold_locales (auto simp: service_handler_def dest: services.command_effect services.commands.commit_inbox
      services.commands.side_inbox intro: tx_effect_books)

interpretation payout_saga_books: books_handler "PayoutSagaHandler c" for c
  by unfold_locales (auto simp: PayoutSagaHandler_def in_tx_def split: if_splits dest: payout_Handle_books)

interpretation payin_saga_books: books_handler "PayinSagaHandler c" for c
  by unfold_locales (auto simp: PayinSagaHandler_def in_tx_def split: if_splits dest: payin_Handle_books)

interpretation webhook_books: books_handler "in_tx (webhook_EventHandler md5)" for md5
  by unfold_locales (auto simp: in_tx_def dest: webhook_EventHandler_books)

subsection \<open>Requests\<close>

lemma plain_quotes:
  assumes "insert_quote r s = Inr s'"
  shows "books_step s s'"
  using insert_quote_keeps [OF assms] assms
  by (auto simp: insert_quote_def put_quotes_def split: if_splits intro: books_stepI)

lemma payout_CreateQuote_books: "payout_CreateQuote provider e r s = Inr (q, s') \<Longrightarrow> books_step s s'"
  by (auto simp: payout_CreateQuote_def bindE_Inr_iff Let_def split: option.splits if_splits dest: plain_quotes)

lemma payin_CreateQuote_books: "payin_CreateQuote provider e r s = Inr (q, s') \<Longrightarrow> books_step s s'"
  by (auto simp: payin_CreateQuote_def bindE_Inr_iff Let_def split: option.splits if_splits dest: plain_quotes)

lemma insert_payout_payment_books:
  assumes "insert_payout_payment e r quote i s = Inr (p, s')"
  shows "books_step s s'"
  using assms by (cases rule: insert_payout_payment_cases) (auto intro: books_stepI)

lemma unique_some_map: "(\<And>r. k (f r) = k r) \<Longrightarrow> unique_some k (map f t) = unique_some k t"
  by (simp add: unique_some_def List.map_filter_def comp_def filter_map)

lemma expire_quote_books: "books_step s (expire_quote quote now s)"
proof (rule books_stepI)
  define f where "f q = (if q_id q = quote \<and> q_status q = QuoteOpen
    then q\<lparr>q_status := QuoteExpired, q_updated_at := now\<rparr> else q)" for q :: quote_row
  have same: "q_id (f q) = q_id q" "q_provider (f q) = q_provider q" "q_provider_quote_id (f q) = q_provider_quote_id q"
    "q_tenant (f q) = q_tenant q" "q_idempotency_key (f q) = q_idempotency_key q" "q_payment (f q) = q_payment q"
    "q_request_amount (f q) = q_request_amount q" "q_sender_amount (f q) = q_sender_amount q"
    "q_receiver_amount (f q) = q_receiver_amount q" "q_currency_type (f q) = q_currency_type q"
    "q_flat_fee (f q) = q_flat_fee q" "q_partner_fee (f q) = q_partner_fee q" for q by (simp_all add: f_def)
  assume "store_ok s"
  then have "quotes_ok (quotes s)" by (simp add: store_ok_def)
  then have "quotes_ok (map f (quotes s))"
    by (simp add: quotes_ok_def list.pred_map unique_some_map same comp_def)
  then have "quotes_ok (quotes (expire_quote quote now s))"
    by (simp add: expire_quote_def update_where_def f_def [abs_def])
  with \<open>store_ok s\<close> show "store_ok (expire_quote quote now s)"
    by (simp add: store_ok_def expire_quote_def has_defs)
qed (simp_all add: expire_quote_def)

lemma createPayout_tx_books: "createPayout_tx e r quote s = (s', p) \<Longrightarrow> books_step s s'"
  by (auto simp: createPayout_tx_def split: sum.splits option.splits if_splits prod.splits
      intro: expire_quote_books insert_payout_payment_books)

lemma payout_CreatePayment_books:
  assumes "payout_CreatePayment provider e r s = (s', p)"
  shows "books_step s s'"
  using assms unfolding payout_CreatePayment_def createPayout_def
  by (auto split: sum.splits if_splits prod.splits dest: createPayout_tx_books payout_CreateQuote_books
      intro: books_step_trans)

lemma insert_payin_payment_books:
  assumes "insert_payin_payment provider e r quote q s = Inr (p, s')"
  shows "books_step s s'"
  using insert_payin_payment_Inr [OF assms] by (auto simp: Let_def intro: books_stepI)

lemma createPayin_books: "createPayin provider e r quote s = Inr (p, s') \<Longrightarrow> books_step s s'"
  by (auto simp: createPayin_def split: option.splits if_splits intro: insert_payin_payment_books)

lemma payin_CreatePayment_books:
  assumes "payin_CreatePayment provider e r s = (s', p)"
  shows "books_step s s'"
  using assms unfolding payin_CreatePayment_def Let_def
  by (auto split: sum.splits if_splits prod.splits dest: createPayin_books payin_CreateQuote_books
      intro: books_step_trans)

lemma insert_refund_payment_books:
  assumes "insert_refund_payment e p tenant key amount reason quote s = Inr (rfd, s')"
  shows "books_step s s'"
proof (rule books_stepI)
  from assms obtain i s1 s2 s3 s4 a t payload where
    1: "insert_payment (new_payment_row i PaymentDirectionPayout (pay_external_reference p @ '':refund:'' @ i)
        (pay_currency p) amount tenant key (env_now e)) s = Inr s1" and
    2: "insert_refund \<lparr>rf_payment = i, rf_original = pay_id p, rf_tenant = tenant, rf_idempotency_key = key,
        rf_amount = amount, rf_currency = pay_currency p, rf_reason = reason, rf_created_at = env_now e,
        rf_updated_at = env_now e\<rparr> s1 = Inr s2" and
    3: "(if quote = '''' then Inr s2 else accept_quote quote i (env_now e) s2) = Inr s3" and
    4: "History_Record a t s3 = Inr s4" and
    5: "enqueue_state_event e 1 i ''payment.created'' payload (env_now e) s4 = Inr s'"
    by (rule insert_refund_payment_steps)
  have "journals s2 = journals s \<and> entries s2 = entries s" using 1 2 by (auto simp: insert_payment_Inr insert_refund_Inr)
  moreover have "journals s3 = journals s2 \<and> entries s3 = entries s2"
    using 3 by (auto split: if_splits dest: accept_quote_Inr)
  moreover have "journals s4 = journals s3 \<and> entries s4 = entries s3" using 4 by (auto simp: History_Record_Inr)
  moreover have "journals s' = journals s4 \<and> entries s' = entries s4" using enqueue_state_event_shape [OF 5] by auto
  ultimately show "journals s' = journals s" "entries s' = entries s" by simp_all
qed (rule insert_refund_payment_keeps [OF assms])

lemma CreateRefund_books:
  assumes "CreateRefund e payment tenant key amount reason quote s = Inr (rfd, s')"
  shows "books_step s s'"
  using assms
proof (cases rule: CreateRefund_cases)
  case again
  then show ?thesis by simp
next
  case (new p)
  then show ?thesis by (auto intro: insert_refund_payment_books)
qed

subsection \<open>Timers and operators\<close>

lemma payout_ExpireOnce_books: "payout_ExpireOnce c e locked s = Inr (n, s') \<Longrightarrow> books_step s s'"
  using payout_ExpireOnce_frame payout_ExpireOnce_keeps by (auto intro!: books_stepI)

lemma payin_expire_step_books:
  assumes "payin_expire_step c e x s = Inr s'"
  shows "books_step s s'"
proof (rule books_stepI)
  obtain n item where x: "x = (n, item)" by fastforce
  from assms show "journals s' = journals s" "entries s' = entries s"
    by (auto simp: x payin_expire_step_def dest!: payin_enqueueCommand_Inr)
qed (rule payin_expire_step_keeps [OF assms])

lemma payin_ExpireOnce_books:
  assumes "payin_ExpireOnce c e locked s = Inr (n, s')"
  shows "books_step s s'"
  using conjunct2 [OF payin_ExpireOnce_Inr [OF assms]] books_step_refl
  by (rule foldE_invariant) (blast intro: books_step_trans payin_expire_step_books)

lemma ResolveManualReview_books:
  assumes "ResolveManualReview c e i action operator note s = Inr s'"
  shows "books_step s s'"
proof (rule books_stepI)
  from assms obtain st' command timeout r where
    "updateAndCommand e 0 i ''manual_review'' st' command timeout note (s\<lparr>reviews := reviews s @ [r]\<rparr>) = Inr s'"
    by (rule ResolveManualReview_cases)
  from updateAndCommand_frame [OF this] show "journals s' = journals s" "entries s' = entries s" by simp_all
qed (rule ResolveManualReview_keeps [OF assms])

subsection \<open>Relay, dispatcher and reconciler\<close>

lemma outbox_ok_effect:
  assumes "relay_effect ids t t'" and "outbox_ok t"
  shows "outbox_ok t'"
proof -
  have "list_all2 (\<lambda>x y. ob_id y = ob_id x \<and> ob_version y = ob_version x \<and> ob_payload y = ob_payload x) t t'"
    using assms(1) unfolding relay_effect_def row_effect_def by (rule list_all2_mono) (auto dest: identity_fields)
  then have "map ob_id t' = map ob_id t \<and> (list_all (\<lambda>e. 0 < ob_version e \<and> json_Valid (ob_payload e)) t \<longrightarrow>
      list_all (\<lambda>e. 0 < ob_version e \<and> json_Valid (ob_payload e)) t')"
    by (induction rule: list_all2_induct) auto
  with assms(2) show ?thesis by (simp add: outbox_ok_def)
qed

lemma outbox_books: "relay_effect ids (outbox s) t \<Longrightarrow> books_step s (s\<lparr>outbox := t\<rparr>)"
  by (rule books_stepI) (auto simp: store_ok_def has_defs intro: outbox_ok_effect)

lemma RelayOnce_books: "RelayOnce c e nanos publish locked s = (s', sent, r) \<Longrightarrow> books_step s s'"
  by (drule RelayOnce_effect) (auto intro: outbox_books)

lemma Relay_Redrive_books: "Relay_Redrive e i s = Inr s' \<Longrightarrow> books_step s s'"
  by (auto simp: Relay_Redrive_def dead_lettered_def split: if_splits intro!: outbox_books update_effect [where ids = UNIV])

lemma deliveries_books: "books_step s (s\<lparr>deliveries := d\<rparr>)"
  by (rule books_stepI) (simp_all add: store_ok_def has_defs)

lemma dispatch_loop_books: "books_step s (dispatch_loop c world e n vs s)"
proof (induction vs arbitrary: n s)
  case (Cons v vs)
  have "books_step s (webhook_deliver c world e n v s)"
    by (simp add: webhook_deliver_row update_delivery_def deliveries_books)
  with Cons.IH books_step_trans show ?case unfolding dispatch_loop.simps by blast
qed simp

lemma DispatchOnce_books: "DispatchOnce c world e s = (n, s') \<Longrightarrow> books_step s s'"
  by (auto simp: DispatchOnce_def Let_def intro: dispatch_loop_books)

lemma webhook_Redrive_books: "webhook_Redrive e i s = Inr s' \<Longrightarrow> books_step s s'"
  by (auto simp: webhook_Redrive_def Let_def split: if_splits intro: deliveries_books)

lemma recon_columns_ok:
  "(\<And>r. \<exists>x. f r = r\<lparr>po_reconciliation := x\<rparr>) \<Longrightarrow> payouts_ok t \<Longrightarrow> payouts_ok (map f t)"
  "(\<And>r. \<exists>x. g r = r\<lparr>pi_reconciliation := x\<rparr>) \<Longrightarrow> payins_ok u \<Longrightarrow> payins_ok (map g u)"
proof -
  assume f: "\<And>r. \<exists>x. f r = r\<lparr>po_reconciliation := x\<rparr>" and ok: "payouts_ok t"
  have same: "po_payment (f r) = po_payment r" "po_quote (f r) = po_quote r" "po_provider (f r) = po_provider r"
    "po_provider_payout (f r) = po_provider_payout r" "po_idempotency_key (f r) = po_idempotency_key r"
    "po_status (f r) = po_status r" "po_source_amount (f r) = po_source_amount r"
    "po_destination_amount (f r) = po_destination_amount r" for r
    using f [of r] by auto
  with ok show "payouts_ok (map f t)" by (simp add: payouts_ok_def unique_some_map list.pred_map comp_def)
next
  assume g: "\<And>r. \<exists>x. g r = r\<lparr>pi_reconciliation := x\<rparr>" and ok: "payins_ok u"
  have same: "pi_payment (g r) = pi_payment r" "pi_quote (g r) = pi_quote r" "pi_provider (g r) = pi_provider r"
    "pi_provider_payin (g r) = pi_provider_payin r" "pi_idempotency_key (g r) = pi_idempotency_key r"
    "pi_tenant (g r) = pi_tenant r" "pi_status (g r) = pi_status r" "pi_source_amount (g r) = pi_source_amount r"
    "pi_destination_amount (g r) = pi_destination_amount r" for r
    using g [of r] by auto
  with ok show "payins_ok (map g u)" by (simp add: payins_ok_def unique_some_map list.pred_map comp_def)
qed

lemma recon_columns_books:
  "books_step s (set_payout_recon P st (set_payin_recon Q st' s))"
proof -
  have "payouts_ok (update_where (\<lambda>r. P (po_payment r)) (\<lambda>r. r\<lparr>po_reconciliation := st\<rparr>) t)" if "payouts_ok t" for t
    unfolding update_where_def
  proof (rule recon_columns_ok(1) [OF _ that])
    show "\<exists>x. (if P (po_payment r) then r\<lparr>po_reconciliation := st\<rparr> else r) = r\<lparr>po_reconciliation := x\<rparr>" for r
      by (cases "P (po_payment r)") (auto intro: exI [of _ "po_reconciliation r"])
  qed
  moreover have "payins_ok (update_where (\<lambda>r. Q (pi_payment r)) (\<lambda>r. r\<lparr>pi_reconciliation := st'\<rparr>) t)" if "payins_ok t" for t
    unfolding update_where_def
  proof (rule recon_columns_ok(2) [OF _ that])
    show "\<exists>x. (if Q (pi_payment r) then r\<lparr>pi_reconciliation := st'\<rparr> else r) = r\<lparr>pi_reconciliation := x\<rparr>" for r
      by (cases "Q (pi_payment r)") (auto intro: exI [of _ "pi_reconciliation r"])
  qed
  ultimately show ?thesis
    by (intro books_stepI) (simp_all add: set_payout_recon_def set_payin_recon_def store_ok_def has_defs)
qed

lemma discrepancies_books: "books_step s (s\<lparr>discrepancies := d\<rparr>)" "books_step s (s\<lparr>discrepancies := d, runs := r\<rparr>)"
  "books_step s (s\<lparr>runs := r\<rparr>)"
  by (rule books_stepI; simp add: store_ok_def has_defs)+

lemma record_finding_books: "record_finding now run f s = Inr s' \<Longrightarrow> books_step s s'"
  by (auto simp: record_finding_def Let_def split: if_splits
      intro: discrepancies_books books_step_trans [OF discrepancies_books(1) recon_columns_books])

lemma Reconciler_RunOnce_books:
  assumes "Reconciler_RunOnce e s = Inr (n, s')"
  shows "books_step s s'"
proof -
  let ?run = "Suc (length (runs s))"
  let ?s1 = "s\<lparr>runs := runs s @ [\<lparr>rr_id = ?run, rr_started = env_now e, rr_completed = None, rr_count = 0, rr_error = None\<rparr>]\<rparr>"
  let ?m = "set_payout_recon (\<lambda>_. True) Matched (set_payin_recon (\<lambda>_. True) Matched ?s1)"
  from assms obtain s2 d r where s2: "foldE (record_finding (env_now e) ?run) (find_discrepancies ?s1) ?m = Inr s2" and
    s': "s' = s2\<lparr>discrepancies := d, runs := r\<rparr>"
    unfolding Reconciler_RunOnce_def Let_def bindE_Inr_iff by blast
  have "books_step ?m s2"
    using s2 books_step_refl by (rule foldE_invariant) (blast intro: books_step_trans record_finding_books)
  moreover have "books_step s ?m" using discrepancies_books(3) recon_columns_books by (rule books_step_trans)
  ultimately show ?thesis unfolding s' using discrepancies_books(2) books_step_trans by blast
qed

lemma Reconciler_Resolve_books: "Reconciler_Resolve e i operator note s = Inr s' \<Longrightarrow> books_step s s'"
  by (auto simp: Reconciler_Resolve_def Let_def split: if_splits intro: discrepancies_books)

subsection \<open>The trial balance\<close>

text \<open>With every journal balanced in one currency, the two accounts of the program cancel in every currency.\<close>

lemma sum_by_journal:
  fixes g :: "entry_row \<Rightarrow> int"
  assumes "finite J" and "\<And>e. e \<in> set es \<Longrightarrow> en_journal e \<in> J"
  shows "sum_list (map g (filter P es)) = (\<Sum>j\<in>J. sum_list (map g (filter (\<lambda>e. en_journal e = j \<and> P e) es)))"
  using assms(2)
proof (induction es)
  case (Cons e es)
  have "(\<Sum>j\<in>J. sum_list (map g (filter (\<lambda>e. en_journal e = j \<and> P e) (e # es)))) =
      (\<Sum>j\<in>J. (if j = en_journal e then (if P e then g e else 0) else 0) +
        sum_list (map g (filter (\<lambda>e. en_journal e = j \<and> P e) es)))"
    by (rule sum.cong) auto
  also have "\<dots> = (if P e then g e else 0) + (\<Sum>j\<in>J. sum_list (map g (filter (\<lambda>e. en_journal e = j \<and> P e) es)))"
    using assms(1) Cons.prems by (simp add: sum.distrib)
  finally show ?case using Cons by simp
qed simp

lemma signed_total:
  "sum_list (map signed_amount (filter (\<lambda>e. en_journal e = j) es)) =
     sum_list (map en_amount (filter (\<lambda>e. en_journal e = j \<and> en_side e = EntryDebit) es)) -
     sum_list (map en_amount (filter (\<lambda>e. en_journal e = j \<and> en_side e = EntryCredit) es))"
  by (induction es) (auto simp: signed_amount_def split: EntrySide.splits)

lemma one_currency_entries:
  assumes "one_currency j s"
  obtains x where "\<And>e. e \<in> set (entries s) \<Longrightarrow> en_journal e = j \<Longrightarrow> en_currency e = x"
proof -
  let ?cs = "map en_currency (filter (\<lambda>e. en_journal e = j) (entries s))"
  from assms obtain x where "remdups ?cs = [x]" by (auto simp: one_currency_def length_Suc_conv)
  then have "set ?cs = {x}" by (metis list.set(1,2) set_remdups)
  then show thesis by (intro that [of x]) auto
qed

lemma journal_cancels:
  assumes "journal_balanced j s"
  shows "sum_list (map signed_amount (filter (\<lambda>e. en_journal e = j \<and> en_currency e = c) (entries s))) = 0"
proof -
  from assms obtain x where x: "\<And>e. e \<in> set (entries s) \<Longrightarrow> en_journal e = j \<Longrightarrow> en_currency e = x"
    by (auto simp: journal_balanced_def elim: one_currency_entries)
  show ?thesis
  proof (cases "x = c")
    case True
    with x have "filter (\<lambda>e. en_journal e = j \<and> en_currency e = c) (entries s) = filter (\<lambda>e. en_journal e = j) (entries s)"
      by (auto intro: filter_cong)
    with assms show ?thesis by (simp add: signed_total journal_balanced_def side_total_def)
  next
    case False
    with x have "filter (\<lambda>e. en_journal e = j \<and> en_currency e = c) (entries s) = []" by (auto simp: filter_empty_conv)
    then show ?thesis by simp
  qed
qed

lemma two_accounts:
  assumes "\<And>e. e \<in> set es \<Longrightarrow> en_account e \<in> {CashOperatingAccount, SettlementAccount}"
  shows "sum_list (map signed_amount (filter (\<lambda>e. en_account e = CashOperatingAccount \<and> en_currency e = c) es)) +
    sum_list (map signed_amount (filter (\<lambda>e. en_account e = SettlementAccount \<and> en_currency e = c) es)) =
    sum_list (map signed_amount (filter (\<lambda>e. en_currency e = c) es))"
  using assms
proof (induction es)
  case (Cons e es)
  have "CashOperatingAccount \<noteq> SettlementAccount" by (simp add: CashOperatingAccount_def SettlementAccount_def)
  moreover have "en_account e \<in> {CashOperatingAccount, SettlementAccount}" using Cons.prems by simp
  ultimately show ?case using Cons by auto
qed simp

lemma trial_balance:
  assumes "ledger_ok s"
  shows "balance CashOperatingAccount c s + balance SettlementAccount c s = 0"
proof -
  let ?J = "jr_id ` set (journals s)"
  have acc: "en_account e \<in> {CashOperatingAccount, SettlementAccount}" and jr: "en_journal e \<in> ?J"
    if "e \<in> set (entries s)" for e
    using that assms by (auto simp: ledger_ok_def store_ok_def entries_ok_def has_journal_def list_all_iff)
  have "journal_balanced j s" if "j \<in> ?J" for j
    using that assms by (auto simp: ledger_ok_def ledger_balanced_def list_all_iff)
  then have "(\<Sum>j\<in>?J. sum_list (map signed_amount (filter (\<lambda>e. en_journal e = j \<and> en_currency e = c) (entries s)))) = 0"
    by (intro sum.neutral ballI journal_cancels)
  then show ?thesis
    using two_accounts [of "entries s" c, OF acc] sum_by_journal [of ?J "entries s" signed_amount "\<lambda>e. en_currency e = c"] jr
    by (simp add: balance_def)
qed

subsection \<open>Steps\<close>

inductive platform_step :: "db \<Rightarrow> db \<Rightarrow> bool" where
  create_payout: "payout_CreatePayment po e cr s = (s', res) \<Longrightarrow> platform_step s s'"
| create_payin: "payin_CreatePayment pn e ci s = (s', res) \<Longrightarrow> platform_step s s'"
| quote_payout: "payout_CreateQuote po e qr s = Inr (q, s') \<Longrightarrow> platform_step s s'"
| quote_payin: "payin_CreateQuote pn e iqr s = Inr (iq, s') \<Longrightarrow> platform_step s s'"
| refund: "CreateRefund e i tenant key amount reason quote s = Inr (rfd, s') \<Longrightarrow> platform_step s s'"
| command: "Process schemas consumer (service_handler evaluate po pn) e ev s = (s', r) \<Longrightarrow> platform_step s s'"
| payout_event: "Process schemas consumer (PayoutSagaHandler c) e ev s = (s', r) \<Longrightarrow> platform_step s s'"
| payin_event: "Process schemas consumer (PayinSagaHandler k) e ev s = (s', r) \<Longrightarrow> platform_step s s'"
| public_event: "Process schemas consumer (in_tx (webhook_EventHandler md5)) e ev s = (s', r) \<Longrightarrow> platform_step s s'"
| payout_timeout: "payout_ExpireOnce c e locked s = Inr (n, s') \<Longrightarrow> platform_step s s'"
| payin_timeout: "payin_ExpireOnce k e locked s = Inr (n, s') \<Longrightarrow> platform_step s s'"
| review: "ResolveManualReview c e i action operator note s = Inr s' \<Longrightarrow> platform_step s s'"
| relay: "RelayOnce rl e nanos publish locked s = (s', sent, rr) \<Longrightarrow> platform_step s s'"
| redrive_event: "Relay_Redrive e i s = Inr s' \<Longrightarrow> platform_step s s'"
| dispatch: "DispatchOnce wc world e s = (n, s') \<Longrightarrow> platform_step s s'"
| redrive_webhook: "webhook_Redrive e i s = Inr s' \<Longrightarrow> platform_step s s'"
| reconcile: "Reconciler_RunOnce e s = Inr (n, s') \<Longrightarrow> platform_step s s'"
| resolve: "Reconciler_Resolve e d operator note s = Inr s' \<Longrightarrow> platform_step s s'"
| provider_webhook: "NewWebhookHandler hmac parse v e req s = (code, s') \<Longrightarrow> platform_step s s'"
| provider_repair: "bp_ReconcileOnce es s = (s', n, er) \<Longrightarrow> platform_step s s'"

lemma bp_effect_books: "bp_effect s s' \<Longrightarrow> books_step s s'"
  by (simp add: bp_effect_def tx_effect_books)

lemma NewWebhookHandler_books: "NewWebhookHandler hmac parse v e req s = (code, s') \<Longrightarrow> books_step s s'"
  by (auto simp: NewWebhookHandler_def split: if_splits sum.splits dest: bp_Process_effect bp_effect_books)

lemma platform_step_books: "platform_step s s' \<Longrightarrow> books_step s s'"
  by (induction rule: platform_step.induct)
    (blast intro: payout_CreatePayment_books payin_CreatePayment_books payout_CreateQuote_books payin_CreateQuote_books
      CreateRefund_books command_books.Process_books payout_saga_books.Process_books payin_saga_books.Process_books
      webhook_books.Process_books payout_ExpireOnce_books payin_ExpireOnce_books ResolveManualReview_books
      RelayOnce_books Relay_Redrive_books DispatchOnce_books webhook_Redrive_books Reconciler_RunOnce_books
      Reconciler_Resolve_books NewWebhookHandler_books bp_effect_books [OF bp_ReconcileOnce_effect])+

lemma platform_run_books: "platform_step\<^sup>*\<^sup>* s s' \<Longrightarrow> books_step s s'"
  by (induction rule: rtranclp_induct) (auto dest: platform_step_books intro: books_step_trans)

end
