(* ===== verification/Http.thy ===== *)
theory Http
  imports Payin_Service Bp_Signature "HOL-Library.Word"
begin

text \<open>
  What the HTTP handlers of package \<^verbatim>\<open>paymentapi\<close> share: requests and responses, the decoding of a JSON
  body into a struct with unknown fields refused, the multiplexer \<^verbatim>\<open>http.ServeMux\<close>, and the tenant of the
  request context.

  A request carries the headers the handlers read and its body as the sequence of JSON texts in it: a text
  that is no JSON document, and the place where \<^verbatim>\<open>http.MaxBytesReader\<close> cuts a body of more than 1 MiB, are
  \<open>RawInvalid\<close>. The path is the list of its segments. A response carries the value given to
  \<^verbatim>\<open>writeJSON\<close>, before it is encoded.
\<close>

subsection \<open>Requests and responses\<close>

record Request =
  rq_method :: string
  rq_path :: "string list"
  rq_id :: string
  rq_authorization :: string
  rq_key :: string
  rq_body :: "raw list"

record WebhookEndpoint =
  ep_ID :: string
  ep_URL :: string
  ep_Active :: bool
  ep_CreatedAt :: time

record Metrics =
  mt_requests :: "64 word"
  mt_errors :: "64 word"
  mt_durationNanos :: "64 word"

datatype answer =
    NoBody
  | Text string
  | Problem string
  | Fields_body "(string \<times> string) list"
  | Payment_body Payment
  | Refund_body Refund
  | Quote_body Quote
  | PayinQuote_body PayinQuote
  | Timeline_body string "timeline_row list"
  | Registered_body WebhookEndpoint string
  | Endpoints_body "WebhookEndpoint list"
  | Metrics_body Metrics

record Response =
  hr_status :: int
  hr_body :: answer

definition writeJSON :: "int \<Rightarrow> answer \<Rightarrow> Response" where
  "writeJSON st v = \<lparr>hr_status = st, hr_body = v\<rparr>"

definition problem :: "int \<Rightarrow> string \<Rightarrow> Response" where
  "problem st detail = writeJSON st (Problem detail)"

lemma reply_sel [simp]:
  "hr_status (writeJSON st v) = st" "hr_body (writeJSON st v) = v"
  "hr_status (problem st d) = st" "hr_body (problem st d) = Problem d"
  by (simp_all add: writeJSON_def problem_def)

lemma writeJSON_inject [simp]: "writeJSON st v = writeJSON st' v' \<longleftrightarrow> st = st' \<and> v = v'"
  by (simp add: writeJSON_def)

lemma problem_inject [simp]:
  "problem st d = problem st' d' \<longleftrightarrow> st = st' \<and> d = d'"
  "problem st d = writeJSON st' v \<longleftrightarrow> st = st' \<and> v = Problem d"
  "writeJSON st' v = problem st d \<longleftrightarrow> st = st' \<and> v = Problem d"
  by (auto simp: problem_def)

text \<open>
  The shape of every response: a success carries no problem, a failure is a problem with a text, or the
  plain text the multiplexer writes.
\<close>

fun response_ok :: "Response \<Rightarrow> bool" where
  "response_ok r = (if 200 \<le> hr_status r \<and> hr_status r < 300
     then (case hr_body r of Problem d \<Rightarrow> False | Text t \<Rightarrow> False | NoBody \<Rightarrow> hr_status r = 204 | _ \<Rightarrow> hr_status r \<noteq> 204)
     else 400 \<le> hr_status r \<and> hr_status r < 600 \<and>
       (case hr_body r of Problem d \<Rightarrow> True | Text t \<Rightarrow> t \<noteq> [] | _ \<Rightarrow> False))"

lemma response_ok_problem [simp]: "400 \<le> st \<Longrightarrow> st < 600 \<Longrightarrow> response_ok (problem st d)"
  by simp

lemma response_ok_fields [simp]: "200 \<le> st \<Longrightarrow> st < 204 \<Longrightarrow> response_ok (writeJSON st (Fields_body fs))" "response_ok (writeJSON 204 NoBody)"
  by simp_all

declare response_ok.simps [simp del]

subsection \<open>Decoding a body\<close>

text \<open>
  Members whose key is no field are refused (\<^verbatim>\<open>DisallowUnknownFields\<close>); \<^verbatim>\<open>null\<close> leaves the zero value. A JSON
  number for an integer field must be in the range of \<^verbatim>\<open>int64\<close>.
\<close>

definition any_object :: "raw \<Rightarrow> (string \<times> json) list option" where
  "any_object r = (case r of Raw JNull \<Rightarrow> Some [] | Raw (JObj ms) \<Rightarrow> Some ms | _ \<Rightarrow> None)"

definition known_fields :: "string list \<Rightarrow> (string \<times> json) list \<Rightarrow> bool" where
  "known_fields fs ms \<longleftrightarrow> list_all (\<lambda>m. ToLower (fst m) \<in> set (map ToLower fs)) ms"

definition strict_object :: "string list \<Rightarrow> raw \<Rightarrow> (string \<times> json) list option" where
  "strict_object fs r = Option.bind (any_object r) (\<lambda>ms. if known_fields fs ms then Some ms else None)"

fun decode_int :: "string \<Rightarrow> (string \<times> json) list \<Rightarrow> int \<Rightarrow> int option" where
  "decode_int f [] cur = Some cur"
| "decode_int f ((k, v) # rest) cur =
     (if ToLower k = ToLower f
      then (case v of JNum i \<Rightarrow> if in_int64 i then decode_int f rest i else None
                    | JNull \<Rightarrow> decode_int f rest cur | _ \<Rightarrow> None)
      else decode_int f rest cur)"

fun decode_raw :: "string \<Rightarrow> (string \<times> json) list \<Rightarrow> raw \<Rightarrow> raw" where
  "decode_raw f [] cur = cur"
| "decode_raw f ((k, v) # rest) cur = decode_raw f rest (if ToLower k = ToLower f then Raw v else cur)"

fun decode_bool :: "string \<Rightarrow> (string \<times> json) list \<Rightarrow> bool \<Rightarrow> bool option" where
  "decode_bool f [] cur = Some cur"
| "decode_bool f ((k, v) # rest) cur =
     (if ToLower k = ToLower f
      then (case v of JBool b \<Rightarrow> decode_bool f rest b | JNull \<Rightarrow> decode_bool f rest cur | _ \<Rightarrow> None)
      else decode_bool f rest cur)"

lemma decode_int_range: "decode_int f ms cur = Some i \<Longrightarrow> in_int64 cur \<Longrightarrow> in_int64 i"
  by (induction f ms cur rule: decode_int.induct) (auto split: if_splits json.splits)

text \<open>The first JSON text of the body, and nothing after it.\<close>

fun decode_single :: "(raw \<Rightarrow> 'a option) \<Rightarrow> raw list \<Rightarrow> 'a result" where
  "decode_single d [] = Inl (ErrText ''invalid JSON request body'')"
| "decode_single d (r # rest) =
     (case d r of
        None \<Rightarrow> Inl (ErrText ''invalid JSON request body'')
      | Some x \<Rightarrow> if rest = [] then Inr x else Inl (ErrText ''request body must contain one JSON object''))"

lemma decode_single_Inr [result_simps]: "decode_single d body = Inr x \<longleftrightarrow> (\<exists>r. body = [r] \<and> d r = Some x)"
  by (cases body) (auto split: option.splits)

subsection \<open>The multiplexer\<close>

text \<open>
  A pattern is a method, none for any, and a path whose wildcard \<^verbatim>\<open>{id}\<close> stands for one segment. The first
  pattern of the list that matches is taken; the patterns of the program are disjoint, but for the
  catch-all of the process, which is not among them. \<^verbatim>\<open>GET\<close> also takes \<^verbatim>\<open>HEAD\<close>.
\<close>

datatype segment = Lit string | Wild

fun match_path :: "segment list \<Rightarrow> string list \<Rightarrow> string \<Rightarrow> string option" where
  "match_path [] [] i = Some i"
| "match_path (Lit l # ps) (x # xs) i = (if l = x then match_path ps xs i else None)"
| "match_path (Wild # ps) (x # xs) i = match_path ps xs x"
| "match_path ps xs i = None"

definition method_ok :: "string \<Rightarrow> string \<Rightarrow> bool" where
  "method_ok m r \<longleftrightarrow> m = '''' \<or> m = r \<or> m = ''GET'' \<and> r = ''HEAD''"

type_synonym 'h route = "string \<times> segment list \<times> 'h"

fun find_route :: "'h route list \<Rightarrow> Request \<Rightarrow> ('h \<times> string) option" where
  "find_route [] r = None"
| "find_route ((m, p, h) # rs) r =
     (if method_ok m (rq_method r)
      then (case match_path p (rq_path r) '''' of Some i \<Rightarrow> Some (h, i) | None \<Rightarrow> find_route rs r)
      else find_route rs r)"

definition no_route :: "'h route list \<Rightarrow> Request \<Rightarrow> Response" where
  "no_route rs r = (if list_ex (\<lambda>(m, p, h). match_path p (rq_path r) '''' \<noteq> None) rs
     then writeJSON 405 (Text ''Method Not Allowed'') else writeJSON 404 (Text ''404 page not found''))"

definition ServeMux :: "(Request \<Rightarrow> 's \<Rightarrow> Response \<times> 's) route list \<Rightarrow> Request \<Rightarrow> 's \<Rightarrow> Response \<times> 's" where
  "ServeMux rs r s = (case find_route rs r of
     Some (h, i) \<Rightarrow> h (r\<lparr>rq_id := i\<rparr>) s | None \<Rightarrow> (no_route rs r, s))"

lemma find_route_match: "find_route rs r = Some (h, i) \<Longrightarrow>
    \<exists>m p. (m, p, h) \<in> set rs \<and> method_ok m (rq_method r) \<and> match_path p (rq_path r) '''' = Some i"
  by (induction rs r rule: find_route.induct) (auto split: if_splits option.splits)

lemma find_route_in: "find_route rs r = Some (h, i) \<Longrightarrow> \<exists>m p. (m, p, h) \<in> set rs"
  by (drule find_route_match) blast

lemma match_path_two: "match_path (Lit a # Lit b # ps) xs i = Some j \<Longrightarrow> take 2 xs = [a, b]"
  by (cases xs; cases "tl xs") (auto split: if_splits)

lemma match_path_one: "match_path [Lit a] xs i = Some j \<Longrightarrow> xs = [a]"
  by (cases xs; cases "tl xs") (auto split: if_splits)

text \<open>What holds of every handler, and of a request nobody handles, holds of the multiplexer.\<close>

lemma ServeMux_induct:
  assumes "ServeMux rs r s = (reply, s')" and "P (no_route rs r) s"
    and "\<And>m p h i. (m, p, h) \<in> set rs \<Longrightarrow> h (r\<lparr>rq_id := i\<rparr>) s = (reply, s') \<Longrightarrow> P reply s'"
  shows "P reply s'"
  using assms by (auto simp: ServeMux_def split: option.splits dest: find_route_in)

lemma no_route_ok [simp]: "response_ok (no_route rs r)"
  by (simp add: no_route_def response_ok.simps)

subsection \<open>The tenant of a request\<close>

definition TenantIDFromContext :: "string option \<Rightarrow> string option" where
  "TenantIDFromContext ctx = (case ctx of None \<Rightarrow> None | Some v \<Rightarrow> if v = '''' then None else Some v)"

lemma TenantIDFromContext_Some [simp]: "TenantIDFromContext ctx = Some t \<longleftrightarrow> ctx = Some t \<and> t \<noteq> ''''"
  by (auto simp: TenantIDFromContext_def split: option.splits)

lemma TenantIDFromContext_None: "TenantIDFromContext ctx = None \<longleftrightarrow> ctx = None \<or> ctx = Some ''''"
  by (auto simp: TenantIDFromContext_def split: option.splits)

end
