(* ===== verification/Api_Keys.thy ===== *)
theory Api_Keys
  imports Http
begin

text \<open>
  Tenant API keys (\<^verbatim>\<open>paymentapi/apikey.go\<close>) with their table, and the operator endpoints that issue and
  revoke them (\<^verbatim>\<open>paymentapi/operator.go\<close>). SHA-256 is a parameter, a function from text to digest; hex and
  base64 URL encodings are modelled.

  The lemmas show what \<open>authenticate\<close> accepts, that an issued key authenticates its tenant until it is
  revoked, and that a revoked key never authenticates again.
\<close>

subsection \<open>Encodings\<close>

definition hex_value :: "char \<Rightarrow> nat" where
  "hex_value c = (let n = (of_char c :: nat) in if n \<le> 57 then n - 48 else n - 87)"

text \<open>The bytes behind the hexadecimal text of a random draw.\<close>

fun hex_bytes :: "string \<Rightarrow> nat list" where
  "hex_bytes (a # b # rest) = (16 * hex_value a + hex_value b) # hex_bytes rest"
| "hex_bytes cs = []"

definition url_sextet :: "nat \<Rightarrow> char" where
  "url_sextet v = (if v < 26 then char_of (v + 65) else if v < 52 then char_of (v + 71)
     else if v < 62 then char_of (v - 4) else if v = 62 then CHR ''-'' else CHR ''_'')"

text \<open>\<^verbatim>\<open>base64.RawURLEncoding.EncodeToString\<close>: three bytes to four characters, no padding.\<close>

fun RawURLEncoding :: "nat list \<Rightarrow> string" where
  "RawURLEncoding (a # b # c # rest) =
     url_sextet (a div 4) # url_sextet (16 * (a mod 4) + b div 16) # url_sextet (4 * (b mod 16) + c div 64) #
     url_sextet (c mod 64) # RawURLEncoding rest"
| "RawURLEncoding [a, b] = [url_sextet (a div 4), url_sextet (16 * (a mod 4) + b div 16), url_sextet (4 * (b mod 16))]"
| "RawURLEncoding [a] = [url_sextet (a div 4), url_sextet (16 * (a mod 4))]"
| "RawURLEncoding [] = []"

lemma RawURLEncoding_Nil [simp]: "RawURLEncoding bs = [] \<longleftrightarrow> bs = []"
  by (cases bs rule: RawURLEncoding.cases) auto

lemma hex_bytes_Nil [simp]: "hex_bytes h = [] \<longleftrightarrow> length h < 2"
  by (cases h rule: hex_bytes.cases) auto

subsection \<open>The table and the service\<close>

type_synonym sha = "string \<Rightarrow> string"

record api_key_row =
  ak_id :: string
  ak_tenant :: string
  ak_name :: string
  ak_secret_hash :: string
  ak_created_at :: time
  ak_last_used :: "time option"
  ak_revoked :: "time option"

definition has_key :: "string \<Rightarrow> api_key_row list \<Rightarrow> bool" where
  "has_key i ks \<longleftrightarrow> i \<in> set (map ak_id ks)"

definition insert_api_key :: "api_key_row \<Rightarrow> api_key_row list \<Rightarrow> api_key_row list result" where
  "insert_api_key k ks = (if has_key (ak_id k) ks then Inl (ErrConstraint ''tenant_api_keys'') else Inr (ks @ [k]))"

text \<open>The key ID, the key itself, and the table with its digest.\<close>

definition Issue :: "sha \<Rightarrow> env \<Rightarrow> string \<Rightarrow> string \<Rightarrow> api_key_row list \<Rightarrow> (string \<times> string \<times> api_key_row list) result" where
  "Issue sha e tenantID name ks =
     (if TrimSpace tenantID = '''' \<or> TrimSpace name = '''' then Inl (ErrText ''tenant ID and key name are required'')
      else bindE (newID ''key_'' 0 e) (\<lambda>i.
           bindE (newID '''' 1 e) (\<lambda>secretBytes.
             let secret = RawURLEncoding (hex_bytes secretBytes)
             in bindE (insert_api_key \<lparr>ak_id = i, ak_tenant = tenantID, ak_name = name, ak_secret_hash = sha secret,
                         ak_created_at = env_now e, ak_last_used = None, ak_revoked = None\<rparr> ks) (\<lambda>ks'.
                  Inr (i, ''srk_'' @ i @ ''_'' @ secret, ks')))))"

definition active_key :: "string \<Rightarrow> api_key_row \<Rightarrow> bool" where
  "active_key i k \<longleftrightarrow> ak_id k = i \<and> ak_revoked k = None"

definition Revoke :: "env \<Rightarrow> string \<Rightarrow> api_key_row list \<Rightarrow> api_key_row list result" where
  "Revoke e i ks =
     (if TrimSpace i = '''' then Inl (ErrText ''API key ID is required'')
      else if affected (active_key i) ks \<noteq> 1 then Inl (ErrText ''active API key not found'')
      else Inr (update_where (active_key i) (\<lambda>k. k\<lparr>ak_revoked := Some (env_now e)\<rparr>) ks))"

text \<open>The ID and the secret of a token; \<open>None\<close> where \<open>authenticate\<close> refuses it before it looks at the table.\<close>

definition split_token :: "string \<Rightarrow> (string \<times> string) option" where
  "split_token token =
     (let (rest, ok) = CutPrefix token ''srk_''; idLength = length ''key_'' + 24
      in if \<not> ok \<or> length rest \<le> idLength \<or> rest ! idLength \<noteq> CHR ''_'' then None
         else let i = take idLength rest; secret = drop (idLength + 1) rest
              in if \<not> HasPrefix i ''key_'' \<or> secret = '''' then None else Some (i, secret))"

definition authenticate :: "sha \<Rightarrow> env \<Rightarrow> string \<Rightarrow> api_key_row list \<Rightarrow> (string \<times> api_key_row list) result" where
  "authenticate sha e token ks =
     (case split_token token of
        None \<Rightarrow> Inl ErrInvalidAPIKey
      | Some (i, secret) \<Rightarrow>
         (case List.find (\<lambda>k. active_key i k \<and> ak_secret_hash k = sha secret) ks of
            None \<Rightarrow> Inl ErrInvalidAPIKey
          | Some k \<Rightarrow> Inr (ak_tenant k, update_where (\<lambda>k. ak_id k = i) (\<lambda>k. k\<lparr>ak_last_used := Some (env_now e)\<rparr>) ks)))"

text \<open>
  \<open>Middleware\<close>: the health endpoints pass without a tenant, every other request needs a key. The wrapped
  handler works on a state of its own; the second database of the pair is the table of keys.
\<close>

definition public_path :: "Request \<Rightarrow> bool" where
  "public_path r \<longleftrightarrow> rq_path r = [''healthz''] \<or> rq_path r = [''readyz'']"

definition Middleware ::
  "sha \<Rightarrow> env \<Rightarrow> (string option \<Rightarrow> Request \<Rightarrow> 's \<Rightarrow> Response \<times> 's) \<Rightarrow> Request \<Rightarrow> 's \<times> api_key_row list \<Rightarrow>
     Response \<times> 's \<times> api_key_row list" where
  "Middleware sha e next r sk =
     (case sk of (s, ks) \<Rightarrow>
        if public_path r then (case next None r s of (reply, s') \<Rightarrow> (reply, s', ks))
        else (case CutPrefix (rq_authorization r) ''Bearer '' of (token, ok) \<Rightarrow>
          if \<not> ok then (problem 401 ''valid tenant API key is required'', s, ks)
          else (case authenticate sha e token ks of
              Inl err \<Rightarrow> (if err = ErrInvalidAPIKey then problem 401 ''valid tenant API key is required''
                          else problem 503 ''API key service unavailable'', s, ks)
            | Inr (tenant, ks') \<Rightarrow> (case next (Some tenant) r s of (reply, s') \<Rightarrow> (reply, s', ks')))))"

subsection \<open>Operator endpoints\<close>

text \<open>The comparison in constant time of two digests is equality.\<close>

definition validOperatorToken :: "sha \<Rightarrow> Request \<Rightarrow> string \<Rightarrow> bool" where
  "validOperatorToken sha r token =
     (let (provided, ok) = CutPrefix (rq_authorization r) ''Bearer '' in ok \<and> sha provided = sha token)"

definition unauthorized :: Response where
  "unauthorized = problem 401 ''valid operator bearer token is required''"

definition decode_key_name :: "raw \<Rightarrow> string option" where
  "decode_key_name b = Option.bind (strict_object [''name''] b) (\<lambda>ms.
     Option.bind (decode_str ''name'' ms '''') (\<lambda>name. if TrimSpace name = '''' then None else Some name))"

text \<open>
  The name is required before the rest of the body is looked at, so a missing name and a malformed body
  get the same answer.
\<close>

definition NewAPIKeyOperatorHandler ::
  "sha \<Rightarrow> env \<Rightarrow> string \<Rightarrow> Request \<Rightarrow> api_key_row list \<Rightarrow> Response \<times> api_key_row list" where
  "NewAPIKeyOperatorHandler sha e token r ks =
     (if \<not> validOperatorToken sha r token then (unauthorized, ks)
      else (case rq_body r of
          [] \<Rightarrow> (problem 400 ''key name is required'', ks)
        | b # rest \<Rightarrow>
           (case decode_key_name b of
              None \<Rightarrow> (problem 400 ''key name is required'', ks)
            | Some name \<Rightarrow>
                if rest \<noteq> [] then (problem 400 ''request body must contain one JSON object'', ks)
                else (case Issue sha e (rq_id r) (TrimSpace name) ks of
                    Inl err \<Rightarrow> (problem 500 ''could not issue API key'', ks)
                  | Inr (i, key, ks') \<Rightarrow>
                      (writeJSON 201 (Fields_body [(''id'', i), (''tenant_id'', rq_id r), (''name'', TrimSpace name),
                         (''api_key'', key)]), ks')))))"

definition NewAPIKeyRevokeOperatorHandler ::
  "sha \<Rightarrow> env \<Rightarrow> string \<Rightarrow> Request \<Rightarrow> api_key_row list \<Rightarrow> Response \<times> api_key_row list" where
  "NewAPIKeyRevokeOperatorHandler sha e token r ks =
     (if \<not> validOperatorToken sha r token then (unauthorized, ks)
      else (case Revoke e (rq_id r) ks of
          Inl err \<Rightarrow> (problem 404 ''active API key not found'', ks)
        | Inr ks' \<Rightarrow> (writeJSON 204 NoBody, ks')))"

subsection \<open>Which tokens authenticate\<close>

lemma split_token_iff:
  "split_token token = Some (i, secret) \<longleftrightarrow>
     token = ''srk_'' @ i @ ''_'' @ secret \<and> length i = 28 \<and> prefix ''key_'' i \<and> secret \<noteq> ''''"
proof
  assume l: "split_token token = Some (i, secret)"
  then obtain rest where tok: "token = ''srk_'' @ rest" and len: "28 < length rest" and sep: "rest ! 28 = CHR ''_''" and
    i: "i = take 28 rest" and sec: "secret = drop 29 rest" "secret \<noteq> ''''" and pre: "prefix ''key_'' i"
    by (auto simp: split_token_def CutPrefix_def Let_def HasPrefix_def prefix_def split: if_splits)
  from len sep have "rest = take 28 rest @ CHR ''_'' # drop 29 rest" by (metis id_take_nth_drop Suc_numeral semiring_norm(5,8))
  with tok i sec len pre show "token = ''srk_'' @ i @ ''_'' @ secret \<and> length i = 28 \<and> prefix ''key_'' i \<and> secret \<noteq> ''''"
    by simp
next
  assume "token = ''srk_'' @ i @ ''_'' @ secret \<and> length i = 28 \<and> prefix ''key_'' i \<and> secret \<noteq> ''''"
  then show "split_token token = Some (i, secret)"
    by (simp add: split_token_def CutPrefix_def Let_def HasPrefix_def nth_append)
qed

definition keys_ok :: "api_key_row list \<Rightarrow> bool" where
  "keys_ok ks \<longleftrightarrow> distinct (map ak_id ks) \<and> list_all (\<lambda>k. TrimSpace (ak_tenant k) \<noteq> '''') ks"

definition touch_key :: "time \<Rightarrow> string \<Rightarrow> api_key_row list \<Rightarrow> api_key_row list" where
  "touch_key now i = update_where (\<lambda>k. ak_id k = i) (\<lambda>k. k\<lparr>ak_last_used := Some now\<rparr>)"

lemma authenticate_cases:
  assumes "authenticate sha e token ks = Inr (tenant, ks')"
  obtains i secret k where "split_token token = Some (i, secret)" and "k \<in> set ks" and "active_key i k" and
    "ak_secret_hash k = sha secret" and "tenant = ak_tenant k" and "ks' = touch_key (env_now e) i ks"
  using assms unfolding authenticate_def touch_key_def
  by (auto split: option.splits prod.splits dest!: find_Some_memb)

lemma authenticate_row:
  assumes "keys_ok ks" and "k \<in> set ks" and "split_token token = Some (ak_id k, secret)"
  shows "authenticate sha e token ks =
    (if ak_revoked k = None \<and> ak_secret_hash k = sha secret
     then Inr (ak_tenant k, touch_key (env_now e) (ak_id k) ks) else Inl ErrInvalidAPIKey)"
proof -
  let ?P = "\<lambda>x. active_key (ak_id k) x \<and> ak_secret_hash x = sha secret"
  have only: "x = k" if "x \<in> set ks" "?P x" for x
    using that assms(1,2) by (auto simp: keys_ok_def active_key_def distinct_map inj_on_def)
  have "List.find ?P ks = (if ?P k then Some k else None)"
  proof (cases "List.find ?P ks")
    case None
    then show ?thesis using assms(2) by (auto simp: find_None_iff_all)
  next
    case (Some x)
    from only find_Some_memb [OF Some] have "x = k" by blast
    with find_Some_memb [OF Some] Some show ?thesis by simp
  qed
  with assms(3) show ?thesis by (simp add: authenticate_def touch_key_def active_key_def)
qed

subsection \<open>The life of a key\<close>

inductive key_step :: "sha \<Rightarrow> api_key_row list \<Rightarrow> api_key_row list \<Rightarrow> bool" for sha where
  issue: "Issue sha e tenant name ks = Inr (i, key, ks') \<Longrightarrow> key_step sha ks ks'"
| revoke: "Revoke e i ks = Inr ks' \<Longrightarrow> key_step sha ks ks'"
| authenticate: "authenticate sha e token ks = Inr (tenant, ks') \<Longrightarrow> key_step sha ks ks'"

text \<open>A row keeps its identity, and a revocation is final; rows are only added.\<close>

definition key_kept :: "api_key_row \<Rightarrow> api_key_row \<Rightarrow> bool" where
  "key_kept k k' \<longleftrightarrow> ak_id k' = ak_id k \<and> ak_tenant k' = ak_tenant k \<and> ak_name k' = ak_name k \<and>
     ak_secret_hash k' = ak_secret_hash k \<and> (ak_revoked k \<noteq> None \<longrightarrow> ak_revoked k' = ak_revoked k)"

definition keys_evolve :: "api_key_row list \<Rightarrow> api_key_row list \<Rightarrow> bool" where
  "keys_evolve ks ks' \<longleftrightarrow> (\<forall>k\<in>set ks. \<exists>k'\<in>set ks'. key_kept k k') \<and> (keys_ok ks \<longrightarrow> keys_ok ks')"

lemma key_kept_refl: "key_kept k k"
  by (simp add: key_kept_def)

lemma key_kept_trans: "key_kept k k' \<Longrightarrow> key_kept k' k'' \<Longrightarrow> key_kept k k''"
  by (simp add: key_kept_def)

lemma keys_evolve_refl: "keys_evolve ks ks"
  by (auto simp: keys_evolve_def intro: key_kept_refl)

lemma keys_evolve_trans: "keys_evolve ks ks' \<Longrightarrow> keys_evolve ks' ks'' \<Longrightarrow> keys_evolve ks ks''"
  unfolding keys_evolve_def by (meson key_kept_trans)

lemma keys_evolve_update:
  assumes "\<And>k. P k \<Longrightarrow> key_kept k (f k)"
  shows "keys_evolve ks (update_where P f ks)"
proof -
  from assms have "map ak_id (update_where P f ks) = map ak_id ks" and
    "list_all (\<lambda>k. TrimSpace (ak_tenant k) \<noteq> '''') (update_where P f ks) = list_all (\<lambda>k. TrimSpace (ak_tenant k) \<noteq> '''') ks"
    by (auto simp: key_kept_def intro!: map_update_where list_all_update_where)
  moreover have "\<exists>k'\<in>set (update_where P f ks). key_kept k k'" if "k \<in> set ks" for k
    using that assms by (intro bexI [of _ "if P k then f k else k"]) (auto simp: set_update_where key_kept_refl)
  ultimately show ?thesis by (simp add: keys_evolve_def keys_ok_def)
qed

lemma Issue_Inr:
  "Issue sha e tenant name ks = Inr (i, key, ks') \<longleftrightarrow>
     TrimSpace tenant \<noteq> '''' \<and> TrimSpace name \<noteq> '''' \<and> \<not> has_key i ks \<and>
     (\<exists>h h'. env_rand e 0 = Some h \<and> env_rand e 1 = Some h' \<and> i = ''key_'' @ h \<and>
       key = ''srk_'' @ i @ ''_'' @ RawURLEncoding (hex_bytes h') \<and>
       ks' = ks @ [\<lparr>ak_id = i, ak_tenant = tenant, ak_name = name,
                    ak_secret_hash = sha (RawURLEncoding (hex_bytes h')), ak_created_at = env_now e,
                    ak_last_used = None, ak_revoked = None\<rparr>])"
  by (auto simp: Issue_def insert_api_key_def result_simps Let_def split: if_splits)

lemma key_step_evolve: "key_step sha ks ks' \<Longrightarrow> keys_evolve ks ks'"
proof (induction rule: key_step.induct)
  case (issue e tenant name ks i key ks')
  then show ?case
    by (auto simp: Issue_Inr keys_evolve_def keys_ok_def has_key_def intro: key_kept_refl)
next
  case (revoke e i ks ks')
  then show ?case
    by (auto simp: Revoke_def key_kept_def active_key_def split: if_splits intro!: keys_evolve_update)
next
  case (authenticate e token ks tenant ks')
  then show ?case
    by (auto elim!: authenticate_cases simp: touch_key_def key_kept_def intro!: keys_evolve_update)
qed

lemma key_steps_evolve: "(key_step sha)\<^sup>*\<^sup>* ks ks' \<Longrightarrow> keys_evolve ks ks'"
  by (induction rule: rtranclp_induct) (auto dest: key_step_evolve intro: keys_evolve_refl keys_evolve_trans)

lemma revoked_for_good:
  assumes "keys_ok ks" and "Revoke e i ks = Inr ks1" and "(key_step sha)\<^sup>*\<^sup>* ks1 ks2" and
    "split_token token = Some (i, secret)"
  shows "authenticate sha e' token ks2 = Inl ErrInvalidAPIKey"
proof -
  from assms(2) have one: "affected (active_key i) ks = 1" and
    ks1: "ks1 = update_where (active_key i) (\<lambda>k. k\<lparr>ak_revoked := Some (env_now e)\<rparr>) ks"
    by (auto simp: Revoke_def split: if_splits)
  from one have "\<not> (\<forall>k\<in>set ks. \<not> active_key i k)" using affected_zero_iff [of "active_key i" ks] by simp
  then obtain k where k: "k \<in> set ks" "active_key i k" by blast
  then have k1: "k\<lparr>ak_revoked := Some (env_now e)\<rparr> \<in> set ks1" by (auto simp: ks1 set_update_where)
  have "key_step sha ks ks1" using assms(2) by (rule key_step.revoke)
  then have "keys_evolve ks ks1" by (rule key_step_evolve)
  with key_steps_evolve [OF assms(3)] assms(1) have ok: "keys_ok ks2" by (simp add: keys_evolve_def)
  from key_steps_evolve [OF assms(3)] k1 obtain k2 where "k2 \<in> set ks2" and
    kept: "key_kept (k\<lparr>ak_revoked := Some (env_now e)\<rparr>) k2" unfolding keys_evolve_def by blast
  with authenticate_row [OF ok, of k2 token secret] assms(4) k(2) show ?thesis
    by (auto simp: key_kept_def active_key_def)
qed

subsection \<open>The gate in front of a handler\<close>

text \<open>
  The contract of a handler behind \<open>Middleware\<close>: what a request of a tenant may change of the handler's
  state, that the health endpoints change nothing, and that its responses are well formed. The lemmas say
  what the gate makes of it.
\<close>

lemma TrimSpace_Nil [simp]: "TrimSpace '''' = ''''"
  by (simp add: TrimSpace_def)

lemma authenticated_tenant:
  assumes "keys_ok ks" and "authenticate sha e token ks = Inr (tenant, ks')"
  shows "tenant \<noteq> ''''"
  using assms by (auto elim!: authenticate_cases simp: keys_ok_def list_all_iff)

locale tenant_service =
  fixes serve :: "string option \<Rightarrow> Request \<Rightarrow> 's \<Rightarrow> Response \<times> 's"
    and ok :: "'s \<Rightarrow> bool"
    and owns :: "string \<Rightarrow> 's \<Rightarrow> 's \<Rightarrow> bool"
  assumes kept: "tenant \<noteq> '''' \<Longrightarrow> ok s \<Longrightarrow> serve (Some tenant) r s = (reply, s') \<Longrightarrow> ok s'"
    and owned: "tenant \<noteq> '''' \<Longrightarrow> ok s \<Longrightarrow> serve (Some tenant) r s = (reply, s') \<Longrightarrow> owns tenant s s'"
    and public: "public_path r \<Longrightarrow> serve None r s = (reply, s') \<Longrightarrow> s' = s"
    and typed: "serve ctx r s = (reply, s') \<Longrightarrow> response_ok reply"
begin

text \<open>A request that shows no key of the table is refused and changes nothing.\<close>

lemma refused:
  assumes "\<not> public_path r" and "\<And>token tenant ks'. rq_authorization r = ''Bearer '' @ token \<Longrightarrow>
    authenticate sha e token ks \<noteq> Inr (tenant, ks')"
  shows "Middleware sha e serve r (s, ks) = (problem 401 ''valid tenant API key is required'', s, ks)"
proof (cases "CutPrefix (rq_authorization r) ''Bearer ''")
  case (Pair token ok)
  show ?thesis
  proof (cases ok)
    case True
    with Pair have "rq_authorization r = ''Bearer '' @ token"
      by (auto simp: CutPrefix_def prefix_def split: if_splits)
    with assms(2) have "\<nexists>x. authenticate sha e token ks = Inr x" by auto
    moreover have "authenticate sha e token ks = Inl err \<Longrightarrow> err = ErrInvalidAPIKey" for err
      by (auto simp: authenticate_def split: option.splits)
    ultimately have "authenticate sha e token ks = Inl ErrInvalidAPIKey" by (metis sum.exhaust)
    with assms(1) Pair True show ?thesis by (simp add: Middleware_def)
  qed (use assms(1) Pair in \<open>simp add: Middleware_def\<close>)
qed

text \<open>A request changes the state only in the name of the tenant whose key it shows.\<close>

lemma confined:
  assumes "Middleware sha e serve r (s, ks) = (reply, s', ks')" and "keys_ok ks" and "ok s"
  shows "s' = s \<and> ks' = ks \<or> (\<exists>token tenant. rq_authorization r = ''Bearer '' @ token \<and>
    authenticate sha e token ks = Inr (tenant, ks') \<and> serve (Some tenant) r s = (reply, s') \<and> owns tenant s s')"
proof (cases "public_path r")
  case True
  with assms(1) show ?thesis by (auto simp: Middleware_def split: prod.splits dest: public)
next
  case False
  show ?thesis
  proof (cases "\<exists>token tenant ks2. rq_authorization r = ''Bearer '' @ token \<and> authenticate sha e token ks = Inr (tenant, ks2)")
    case True
    then obtain token tenant ks2 where a: "rq_authorization r = ''Bearer '' @ token" "authenticate sha e token ks = Inr (tenant, ks2)"
      by blast
    have "CutPrefix (rq_authorization r) ''Bearer '' = (token, True)" by (simp only: a(1) CutPrefix_append)
    with assms False a(2) have "serve (Some tenant) r s = (reply, s')" "ks2 = ks'"
      by (auto simp: Middleware_def split: prod.splits)
    with a authenticated_tenant [OF assms(2) a(2)] assms(3) show ?thesis by (blast intro: owned)
  next
    case no: False
    then have "Middleware sha e serve r (s, ks) = (problem 401 ''valid tenant API key is required'', s, ks)"
      by (intro refused [OF False]) blast
    with assms(1) show ?thesis by simp
  qed
qed

lemma gate_ok:
  assumes "Middleware sha e serve r (s, ks) = (reply, s', ks')" and "keys_ok ks" and "ok s"
  shows "ok s'"
  using confined [OF assms] assms(2,3) by (blast intro: kept dest: authenticated_tenant)

lemma gate_typed:
  assumes "Middleware sha e serve r (s, ks) = (reply, s', ks')"
  shows "response_ok reply"
  using assms by (auto simp: Middleware_def split: prod.splits if_splits sum.splits dest: typed)

lemma gate_keys:
  assumes "Middleware sha e serve r (s, ks) = (reply, s', ks')"
  shows "ks' = ks \<or> key_step sha ks ks'"
  using assms by (auto simp: Middleware_def split: prod.splits if_splits sum.splits intro: key_step.authenticate)

end

subsection \<open>Properties\<close>

text \<open>C18: a key returned by \<open>Issue\<close> authenticates exactly its tenant in every later state of the table, until
  it is revoked. The draws of the random source have the lengths the code asks for.\<close>

theorem issued_key_authenticates:
  assumes "keys_ok ks" and "Issue sha e tenant name ks = Inr (i, token, ks1)" and "(key_step sha)\<^sup>*\<^sup>* ks1 ks2"
    and "env_rand e 0 = Some h" and "length h = 24" and "env_rand e 1 = Some h'" and "length h' = 64"
  shows "authenticate sha e' token ks2 =
    (if list_ex (active_key i) ks2 then Inr (tenant, touch_key (env_now e') i ks2) else Inl ErrInvalidAPIKey)"
proof -
  let ?secret = "RawURLEncoding (hex_bytes h')"
  let ?k = "\<lparr>ak_id = i, ak_tenant = tenant, ak_name = name, ak_secret_hash = sha ?secret, ak_created_at = env_now e,
    ak_last_used = None, ak_revoked = None\<rparr>"
  from assms(2,4,6) have i: "i = ''key_'' @ h" and token: "token = ''srk_'' @ i @ ''_'' @ ?secret" and "?k \<in> set ks1"
    by (auto simp: Issue_Inr)
  from assms(5) have split: "split_token token = Some (i, ?secret)"
    using assms(7) by (simp add: split_token_iff token i)
  have "keys_evolve ks ks2"
    using assms(2) by (blast intro: keys_evolve_trans key_steps_evolve [OF assms(3)] key_step_evolve key_step.issue)
  with assms(1) have ok: "keys_ok ks2" by (simp add: keys_evolve_def)
  from key_steps_evolve [OF assms(3)] \<open>?k \<in> set ks1\<close> obtain k where k: "k \<in> set ks2" and "key_kept ?k k"
    unfolding keys_evolve_def by blast
  then have row: "ak_id k = i" "ak_tenant k = tenant" "ak_secret_hash k = sha ?secret" by (simp_all add: key_kept_def)
  have "list_ex (active_key i) ks2 \<longleftrightarrow> ak_revoked k = None"
    using k ok row(1) by (auto simp: list_ex_iff active_key_def keys_ok_def distinct_map inj_on_def)
  then show ?thesis using authenticate_row [OF ok k] split row by simp
qed

definition sample_key_env :: env where
  "sample_key_env = \<lparr>env_now = 7, env_rand = (\<lambda>n. Some (replicate (if n = 0 then 24 else 64) CHR ''a''))\<rparr>"

text \<open>The secret of 32 bytes 0xaa, in base64.\<close>

definition sample_key :: string where
  "sample_key = ''srk_key_'' @ replicate 24 CHR ''a'' @ ''_'' @ replicate 42 CHR ''q'' @ ''o''"

definition sample_keys :: "api_key_row list" where
  "sample_keys = [\<lparr>ak_id = ''key_'' @ replicate 24 CHR ''a'', ak_tenant = ''tenant-1'', ak_name = ''ci'',
     ak_secret_hash = replicate 42 CHR ''q'' @ ''o'', ak_created_at = 7, ak_last_used = None,
     ak_revoked = None\<rparr>]"

lemma sample_issue: "Issue (\<lambda>x. x) sample_key_env ''tenant-1'' ''ci'' [] =
  Inr (''key_'' @ replicate 24 CHR ''a'', sample_key, sample_keys)"
  by code_simp

theorem issued_key_authenticates_witness:
  "authenticate (\<lambda>x. x) sample_key_env sample_key sample_keys =
    Inr (''tenant-1'', touch_key 7 (''key_'' @ replicate 24 CHR ''a'') sample_keys)"
proof -
  have "list_ex (active_key (''key_'' @ replicate 24 CHR ''a'')) sample_keys" by code_simp
  moreover have "authenticate (\<lambda>x. x) sample_key_env sample_key sample_keys =
    (if list_ex (active_key (''key_'' @ replicate 24 CHR ''a'')) sample_keys
     then Inr (''tenant-1'', touch_key (env_now sample_key_env) (''key_'' @ replicate 24 CHR ''a'') sample_keys)
     else Inl ErrInvalidAPIKey)"
    by (rule issued_key_authenticates [OF _ sample_issue rtranclp.rtrancl_refl,
          where h = "replicate 24 CHR ''a''" and h' = "replicate 64 CHR ''a''"])
      (simp_all add: keys_ok_def sample_key_env_def)
  ultimately show ?thesis by (simp add: sample_key_env_def)
qed

text \<open>C35: once \<open>Revoke\<close> has answered, no token with that key ID authenticates, whatever is issued, revoked or
  used afterwards.\<close>

theorem revoked_key_refused:
  assumes "keys_ok ks" and "Revoke e i ks = Inr ks1" and "(key_step sha)\<^sup>*\<^sup>* ks1 ks2" and
    "token = ''srk_'' @ i @ rest" and "length i = 28"
  shows "authenticate sha e' token ks2 = Inl ErrInvalidAPIKey"
proof (cases "split_token token")
  case None
  then show ?thesis by (simp add: authenticate_def)
next
  case (Some x)
  then obtain j secret where "split_token token = Some (j, secret)" by (cases x) auto
  with assms(4,5) have "split_token token = Some (i, secret)" by (auto simp: split_token_iff)
  with assms show ?thesis by (blast intro: revoked_for_good)
qed

theorem revoked_key_refused_witness:
  "authenticate (\<lambda>x. x) sample_key_env sample_key
    (update_where (active_key (''key_'' @ replicate 24 CHR ''a''))
       (\<lambda>k. k\<lparr>ak_revoked := Some (env_now sample_key_env)\<rparr>) sample_keys) = Inl ErrInvalidAPIKey"
  by (rule revoked_key_refused [where ks = sample_keys and e = sample_key_env and i = "''key_'' @ replicate 24 CHR ''a''" and
        rest = "''_'' @ replicate 42 CHR ''q'' @ ''o''", OF _ _ rtranclp.rtrancl_refl])
    (simp_all add: keys_ok_def sample_keys_def Revoke_def active_key_def TrimSpace_def is_space_def sample_key_def)

end
