(* ===== verification/Payment_Api.thy ===== *)
theory Payment_Api
  imports Api_Keys
begin

text \<open>
  The payment endpoints of the HTTP API (\<^verbatim>\<open>paymentapi/handler.go\<close>): creation of payments, quotes and refunds,
  the read model and the timeline of a payment, and the health endpoints. The payout and pay-in services are
  those of the services' theories with the provider as a parameter; the pay-in service may be missing.

  The theorems: a tenant reads only its own payments and learns nothing about others, its requests write only
  its own rows, and a repeated creation is answered with the same payment.
\<close>

record Handler =
  h_payouts :: PayoutProvider
  h_payins :: "PayinProvider option"
  h_health :: "unit result"

definition valid_key :: "string \<Rightarrow> bool" where
  "valid_key key \<longleftrightarrow> key \<noteq> '''' \<and> length key \<le> 255"

definition bad_key :: Response where
  "bad_key = problem 400 ''a valid Idempotency-Key header is required''"

subsection \<open>Refunds\<close>

record createRefundRequest =
  rr_AmountMinor :: int
  rr_Reason :: string
  rr_PayoutQuoteID :: string

definition decode_createRefund :: "raw \<Rightarrow> createRefundRequest option" where
  "decode_createRefund b = Option.bind (strict_object [''amount_minor'', ''reason'', ''payout_quote_id''] b) (\<lambda>ms.
     Option.bind (decode_int ''amount_minor'' ms 0) (\<lambda>amount.
     Option.bind (decode_str ''reason'' ms '''') (\<lambda>reason.
     Option.bind (decode_str ''payout_quote_id'' ms '''') (\<lambda>quote.
       Some \<lparr>rr_AmountMinor = amount, rr_Reason = reason, rr_PayoutQuoteID = quote\<rparr>))))"

definition refund_error :: "err \<Rightarrow> Response" where
  "refund_error err =
     (if err = ErrPaymentNotFound then problem 404 ''payment not found''
      else if err = ErrIdempotencyConflict \<or> err = ErrPaymentNotRefundable \<or> err = ErrRefundAmountExceeded
      then problem 409 (err_text err)
      else problem 500 ''could not create refund'')"

definition api_createRefund :: "env \<Rightarrow> string option \<Rightarrow> Request \<Rightarrow> db \<Rightarrow> Response \<times> db" where
  "api_createRefund e ctx r s =
     (let key = TrimSpace (rq_key r) in
      if \<not> valid_key key then (bad_key, s)
      else (case decode_single decode_createRefund (rq_body r) of
          Inl err \<Rightarrow> (problem 400 (err_text err), s)
        | Inr input \<Rightarrow>
            let reason = TrimSpace (rr_Reason input) in
            if rr_AmountMinor input \<le> 0 \<or> reason = ''''
            then (problem 400 ''positive amount_minor and reason are required'', s)
            else (case TenantIDFromContext ctx of
                None \<Rightarrow> (problem 401 ''authentication required'', s)
              | Some tenantID \<Rightarrow>
                 (case CreateRefund e (rq_id r) tenantID key (rr_AmountMinor input) reason
                         (TrimSpace (rr_PayoutQuoteID input)) s of
                    Inl err \<Rightarrow> (refund_error err, s)
                  | Inr (refund, s') \<Rightarrow> (writeJSON 202 (Refund_body refund), s')))))"

subsection \<open>Payments\<close>

record createRequest =
  cr_Direction :: string
  cr_ExternalReference :: string
  cr_Currency :: string
  cr_AmountMinor :: int
  cr_TenantID :: string
  cr_QuoteID :: string
  cr_PayoutQuoteID :: string
  cr_FundingMethod :: string
  cr_SourceAccountID :: string
  cr_DestinationInstrumentID :: string
  cr_SourceInstrumentID :: string
  cr_DestinationAccountID :: string

definition createRequest_fields :: "string list" where
  "createRequest_fields = [''direction'', ''external_reference'', ''currency'', ''amount_minor'', ''tenant_id'', ''quote_id'',
     ''payout_quote_id'', ''funding_method'', ''source_account_id'', ''destination_instrument_id'',
     ''source_instrument_id'', ''destination_account_id'']"

definition decode_create :: "raw \<Rightarrow> createRequest option" where
  "decode_create b = Option.bind (strict_object createRequest_fields b) (\<lambda>ms.
     Option.bind (decode_str ''direction'' ms '''') (\<lambda>direction.
     Option.bind (decode_str ''external_reference'' ms '''') (\<lambda>reference.
     Option.bind (decode_str ''currency'' ms '''') (\<lambda>currency.
     Option.bind (decode_int ''amount_minor'' ms 0) (\<lambda>amount.
     Option.bind (decode_str ''tenant_id'' ms '''') (\<lambda>tenant.
     Option.bind (decode_str ''quote_id'' ms '''') (\<lambda>quote.
     Option.bind (decode_str ''payout_quote_id'' ms '''') (\<lambda>payoutQuote.
     Option.bind (decode_str ''funding_method'' ms '''') (\<lambda>funding.
     Option.bind (decode_str ''source_account_id'' ms '''') (\<lambda>sourceAccount.
     Option.bind (decode_str ''destination_instrument_id'' ms '''') (\<lambda>destinationInstrument.
     Option.bind (decode_str ''source_instrument_id'' ms '''') (\<lambda>sourceInstrument.
     Option.bind (decode_str ''destination_account_id'' ms '''') (\<lambda>destinationAccount.
       Some \<lparr>cr_Direction = direction, cr_ExternalReference = reference, cr_Currency = currency,
         cr_AmountMinor = amount, cr_TenantID = tenant, cr_QuoteID = quote, cr_PayoutQuoteID = payoutQuote,
         cr_FundingMethod = funding, cr_SourceAccountID = sourceAccount,
         cr_DestinationInstrumentID = destinationInstrument, cr_SourceInstrumentID = sourceInstrument,
         cr_DestinationAccountID = destinationAccount\<rparr>)))))))))))))"

text \<open>
  The tenant of a request that may also name one: the tenant of the key, which the body must not
  contradict.
\<close>

definition request_tenant :: "string option \<Rightarrow> string \<Rightarrow> string result" where
  "request_tenant ctx named =
     (let tenantID = TrimSpace named in
      case TenantIDFromContext ctx of
        None \<Rightarrow> Inr tenantID
      | Some authenticated \<Rightarrow>
          if tenantID \<noteq> '''' \<and> tenantID \<noteq> authenticated
          then Inl (ErrText ''tenant_id does not match the authenticated tenant'') else Inr authenticated)"

definition payin_request :: "string \<Rightarrow> string \<Rightarrow> createRequest \<Rightarrow> PayinCreateRequest" where
  "payin_request tenantID key i = \<lparr>ci_TenantID = tenantID, ci_IdempotencyKey = key,
     ci_ExternalReference = cr_ExternalReference i, ci_QuoteID = cr_QuoteID i, ci_AmountMinor = cr_AmountMinor i,
     ci_Currency = cr_Currency i, ci_FundingMethod = TrimSpace (cr_FundingMethod i),
     ci_SourceInstrumentID = TrimSpace (cr_SourceInstrumentID i),
     ci_DestinationAccountID = TrimSpace (cr_DestinationAccountID i)\<rparr>"

definition payout_request :: "string \<Rightarrow> string \<Rightarrow> createRequest \<Rightarrow> CreatePaymentRequest" where
  "payout_request tenantID key i = \<lparr>cp_ExternalReference = cr_ExternalReference i, cp_Currency = cr_Currency i,
     cp_AmountMinor = cr_AmountMinor i, cp_TenantID = tenantID, cp_IdempotencyKey = key, cp_QuoteID = cr_QuoteID i,
     cp_FundingMethod = TrimSpace (cr_FundingMethod i), cp_SourceAccountID = TrimSpace (cr_SourceAccountID i),
     cp_DestinationInstrumentID = TrimSpace (cr_DestinationInstrumentID i)\<rparr>"

definition create_error :: "string \<Rightarrow> err \<Rightarrow> Response" where
  "create_error direction err =
     (if err = ErrIdempotencyConflict \<or> err = ErrQuoteIdempotencyConflict \<or> err = ErrPayinIdempotencyConflict
      then problem 409 (err_text err)
      else if direction = ''payin'' then problem 400 (err_text err)
      else problem 500 ''could not create payment'')"

definition create_in_direction ::
  "Handler \<Rightarrow> env \<Rightarrow> string \<Rightarrow> string \<Rightarrow> createRequest \<Rightarrow> db \<Rightarrow> Response \<times> db" where
  "create_in_direction h e tenantID key i s =
     (if cr_Direction i = ''payin''
      then (case h_payins h of
          None \<Rightarrow> (problem 501 ''payin payments are not configured'', s)
        | Some provider \<Rightarrow>
           (case PayinCreateRequest_Validate (payin_request tenantID key i) of
              Inl err \<Rightarrow> (problem 400 (err_text err), s)
            | Inr _ \<Rightarrow> (case payin_CreatePayment provider e (payin_request tenantID key i) s of
                  (s', Inl err) \<Rightarrow> (create_error ''payin'' err, s')
                | (s', Inr payment) \<Rightarrow> (writeJSON 202 (Payment_body payment), s'))))
      else (case CreatePaymentRequest_Validate (payout_request tenantID key i) of
          Inl err \<Rightarrow> (problem 400 (err_text err), s)
        | Inr _ \<Rightarrow> (case payout_CreatePayment (h_payouts h) e (payout_request tenantID key i) s of
              (s', Inl err) \<Rightarrow> (create_error ''payout'' err, s')
            | (s', Inr payment) \<Rightarrow> (writeJSON 202 (Payment_body payment), s'))))"

definition api_create :: "Handler \<Rightarrow> env \<Rightarrow> string option \<Rightarrow> Request \<Rightarrow> db \<Rightarrow> Response \<times> db" where
  "api_create h e ctx r s =
     (let key = TrimSpace (rq_key r) in
      if \<not> valid_key key then (bad_key, s)
      else (case decode_single decode_create (rq_body r) of
          Inl err \<Rightarrow> (problem 400 (err_text err), s)
        | Inr input0 \<Rightarrow>
            let input1 = input0\<lparr>cr_Currency := ToUpper (TrimSpace (cr_Currency input0))\<rparr> in
            if cr_Direction input1 \<noteq> ''payin'' \<and> cr_Direction input1 \<noteq> ''payout''
            then (problem 400 ''direction must be payin or payout'', s)
            else
              let input = (if cr_QuoteID input1 = '''' then input1\<lparr>cr_QuoteID := cr_PayoutQuoteID input1\<rparr> else input1)
              in (case request_tenant ctx (cr_TenantID input) of
                  Inl err \<Rightarrow> (problem 403 (err_text err), s)
                | Inr tenantID \<Rightarrow>
                    if TrimSpace (cr_ExternalReference input) = '''' \<or> tenantID = ''''
                    then (problem 400 ''external_reference and an authenticated tenant are required'', s)
                    else create_in_direction h e tenantID key input s)))"

subsection \<open>Quotes\<close>

record payinQuoteInput =
  iq_in_FundingMethod :: string
  iq_in_CurrencyType :: string
  iq_in_SourceInstrumentID :: string
  iq_in_DestinationAccountID :: string
  iq_in_SourceCurrency :: string
  iq_in_DestinationCurrency :: string
  iq_in_AmountMinor :: int
  iq_in_CoverFees :: bool

definition decode_payinQuote :: "raw \<Rightarrow> payinQuoteInput option" where
  "decode_payinQuote b = Option.bind (strict_object [''direction'', ''funding_method'', ''currency_type'',
       ''source_instrument_id'', ''destination_account_id'', ''source_currency'', ''destination_currency'',
       ''amount_minor'', ''cover_fees''] b) (\<lambda>ms.
     Option.bind (decode_str ''direction'' ms '''') (\<lambda>direction.
     Option.bind (decode_str ''funding_method'' ms '''') (\<lambda>funding.
     Option.bind (decode_str ''currency_type'' ms '''') (\<lambda>currencyType.
     Option.bind (decode_str ''source_instrument_id'' ms '''') (\<lambda>source.
     Option.bind (decode_str ''destination_account_id'' ms '''') (\<lambda>destination.
     Option.bind (decode_str ''source_currency'' ms '''') (\<lambda>sourceCurrency.
     Option.bind (decode_str ''destination_currency'' ms '''') (\<lambda>destinationCurrency.
     Option.bind (decode_int ''amount_minor'' ms 0) (\<lambda>amount.
     Option.bind (decode_bool ''cover_fees'' ms False) (\<lambda>cover.
       Some \<lparr>iq_in_FundingMethod = funding, iq_in_CurrencyType = currencyType, iq_in_SourceInstrumentID = source,
         iq_in_DestinationAccountID = destination, iq_in_SourceCurrency = sourceCurrency,
         iq_in_DestinationCurrency = destinationCurrency, iq_in_AmountMinor = amount,
         iq_in_CoverFees = cover\<rparr>))))))))))"

definition payin_quote_request :: "string \<Rightarrow> string \<Rightarrow> payinQuoteInput \<Rightarrow> PayinQuoteRequest" where
  "payin_quote_request tenant key i = \<lparr>qr_IdempotencyKey = key, qr_TenantID = tenant,
     qr_FundingMethod = iq_in_FundingMethod i, qr_SourceCurrency = iq_in_SourceCurrency i,
     qr_DestinationCurrency = iq_in_DestinationCurrency i, qr_CurrencyType = iq_in_CurrencyType i,
     qr_AmountMinor = iq_in_AmountMinor i, qr_CoverFees = iq_in_CoverFees i,
     qr_SourceInstrumentID = iq_in_SourceInstrumentID i, qr_DestinationAccountID = iq_in_DestinationAccountID i\<rparr>"

definition createPayinQuote :: "Handler \<Rightarrow> env \<Rightarrow> string option \<Rightarrow> Request \<Rightarrow> db \<Rightarrow> Response \<times> db" where
  "createPayinQuote h e ctx r s =
     (case h_payins h of
        None \<Rightarrow> (problem 501 ''payin quotes are not configured'', s)
      | Some provider \<Rightarrow>
          let key = TrimSpace (rq_key r) in
          (case TenantIDFromContext ctx of
             None \<Rightarrow> (problem 400 ''authentication and Idempotency-Key are required'', s)
           | Some tenant \<Rightarrow>
               if key = '''' then (problem 400 ''authentication and Idempotency-Key are required'', s)
               else (case decode_single decode_payinQuote (rq_body r) of
                   Inl err \<Rightarrow> (problem 400 (err_text err), s)
                 | Inr input \<Rightarrow>
                    (case payin_CreateQuote provider e (payin_quote_request tenant key input) s of
                       Inl err \<Rightarrow> (problem 400 (err_text err), s)
                     | Inr (q, s') \<Rightarrow> (writeJSON 201 (PayinQuote_body q), s')))))"

record createPayoutQuoteRequest =
  cq_FundingMethod :: string
  cq_TenantID :: string
  cq_SourceAccountID :: string
  cq_DestinationInstrumentID :: string
  cq_SourceCurrency :: string
  cq_DestinationCurrency :: string
  cq_CurrencyType :: string
  cq_CoverFees :: bool
  cq_AmountMinor :: int

definition decode_payoutQuote :: "raw \<Rightarrow> createPayoutQuoteRequest option" where
  "decode_payoutQuote b = Option.bind (strict_object [''direction'', ''funding_method'', ''tenant_id'', ''source_account_id'',
       ''destination_instrument_id'', ''source_currency'', ''destination_currency'', ''currency_type'',
       ''cover_fees'', ''request_amount_minor''] b) (\<lambda>ms.
     Option.bind (decode_str ''direction'' ms '''') (\<lambda>direction.
     Option.bind (decode_str ''funding_method'' ms '''') (\<lambda>funding.
     Option.bind (decode_str ''tenant_id'' ms '''') (\<lambda>tenant.
     Option.bind (decode_str ''source_account_id'' ms '''') (\<lambda>source.
     Option.bind (decode_str ''destination_instrument_id'' ms '''') (\<lambda>destination.
     Option.bind (decode_str ''source_currency'' ms '''') (\<lambda>sourceCurrency.
     Option.bind (decode_str ''destination_currency'' ms '''') (\<lambda>destinationCurrency.
     Option.bind (decode_str ''currency_type'' ms '''') (\<lambda>currencyType.
     Option.bind (decode_bool ''cover_fees'' ms False) (\<lambda>cover.
     Option.bind (decode_int ''request_amount_minor'' ms 0) (\<lambda>amount.
       Some \<lparr>cq_FundingMethod = funding, cq_TenantID = tenant, cq_SourceAccountID = source,
         cq_DestinationInstrumentID = destination, cq_SourceCurrency = sourceCurrency,
         cq_DestinationCurrency = destinationCurrency, cq_CurrencyType = currencyType, cq_CoverFees = cover,
         cq_AmountMinor = amount\<rparr>)))))))))))"

definition payout_quote_request :: "string \<Rightarrow> string \<Rightarrow> createPayoutQuoteRequest \<Rightarrow> PayoutQuoteRequest" where
  "payout_quote_request tenantID key i = \<lparr>qr_IdempotencyKey = key, qr_TenantID = tenantID,
     qr_FundingMethod = TrimSpace (cq_FundingMethod i), qr_SourceCurrency = cq_SourceCurrency i,
     qr_DestinationCurrency = cq_DestinationCurrency i, qr_CurrencyType = cq_CurrencyType i,
     qr_AmountMinor = cq_AmountMinor i, qr_CoverFees = cq_CoverFees i, qr_SourceAccountID = cq_SourceAccountID i,
     qr_DestinationInstrumentID = cq_DestinationInstrumentID i\<rparr>"

definition createPayoutQuote :: "Handler \<Rightarrow> env \<Rightarrow> string option \<Rightarrow> Request \<Rightarrow> db \<Rightarrow> Response \<times> db" where
  "createPayoutQuote h e ctx r s =
     (let key = TrimSpace (rq_key r) in
      if \<not> valid_key key then (bad_key, s)
      else (case decode_single decode_payoutQuote (rq_body r) of
          Inl err \<Rightarrow> (problem 400 (err_text err), s)
        | Inr input \<Rightarrow>
           (case request_tenant ctx (cq_TenantID input) of
              Inl err \<Rightarrow> (problem 403 (err_text err), s)
            | Inr tenantID \<Rightarrow>
               (case payout_CreateQuote (h_payouts h) e (payout_quote_request tenantID key input) s of
                  Inl err \<Rightarrow> (problem 400 (err_text err), s)
                | Inr (q, s') \<Rightarrow> (writeJSON 201 (Quote_body q), s')))))"

text \<open>The direction decides the handler; unknown fields are refused only there.\<close>

definition decode_direction :: "raw \<Rightarrow> string option" where
  "decode_direction b = Option.bind (any_object b) (\<lambda>ms. decode_str ''direction'' ms '''')"

definition createPaymentQuote :: "Handler \<Rightarrow> env \<Rightarrow> string option \<Rightarrow> Request \<Rightarrow> db \<Rightarrow> Response \<times> db" where
  "createPaymentQuote h e ctx r s =
     (case rq_body r of
        [b] \<Rightarrow>
         (case decode_direction b of
            None \<Rightarrow> (problem 400 ''invalid JSON request body'', s)
          | Some direction \<Rightarrow>
              if direction = ''payin'' then createPayinQuote h e ctx r s
              else if direction \<noteq> ''payout'' then (problem 400 ''direction must be payin or payout'', s)
              else createPayoutQuote h e ctx r s)
      | _ \<Rightarrow> (problem 400 ''invalid JSON request body'', s))"

subsection \<open>Reads and health\<close>

definition storeError :: "err \<Rightarrow> Response" where
  "storeError err = (if err = ErrPaymentNotFound then problem 404 ''payment not found''
     else problem 500 ''payment service unavailable'')"

text \<open>A payment of another tenant is answered like a missing one.\<close>

definition api_get :: "string option \<Rightarrow> Request \<Rightarrow> db \<Rightarrow> Response" where
  "api_get ctx r s =
     (case GetPayment (rq_id r) s of
        Inl err \<Rightarrow> storeError err
      | Inr p \<Rightarrow>
         (case TenantIDFromContext ctx of
            Some tenantID \<Rightarrow> if pm_TenantID p \<noteq> tenantID then problem 404 ''payment not found''
                             else writeJSON 200 (Payment_body p)
          | None \<Rightarrow> writeJSON 200 (Payment_body p)))"

definition timeline_reply :: "string \<Rightarrow> db \<Rightarrow> Response" where
  "timeline_reply i s = (case Repository_Timeline i s of
     Inl err \<Rightarrow> storeError err | Inr rows \<Rightarrow> writeJSON 200 (Timeline_body i rows))"

definition api_timeline :: "string option \<Rightarrow> Request \<Rightarrow> db \<Rightarrow> Response" where
  "api_timeline ctx r s =
     (case TenantIDFromContext ctx of
        Some tenantID \<Rightarrow>
         (case GetPayment (rq_id r) s of
            Inl err \<Rightarrow> storeError err
          | Inr p \<Rightarrow> if pm_TenantID p \<noteq> tenantID then problem 404 ''payment not found'' else timeline_reply (rq_id r) s)
      | None \<Rightarrow> timeline_reply (rq_id r) s)"

definition live :: Response where
  "live = writeJSON 200 (Fields_body [(''status'', ''ok'')])"

definition ready :: "Handler \<Rightarrow> Response" where
  "ready h = (case h_health h of Inl err \<Rightarrow> problem 503 ''database unavailable''
     | Inr _ \<Rightarrow> writeJSON 200 (Fields_body [(''status'', ''ready'')]))"

definition read_only :: "(Request \<Rightarrow> db \<Rightarrow> Response) \<Rightarrow> Request \<Rightarrow> db \<Rightarrow> Response \<times> db" where
  "read_only f r s = (f r s, s)"

definition payment_routes :: "Handler \<Rightarrow> env \<Rightarrow> string option \<Rightarrow> (Request \<Rightarrow> db \<Rightarrow> Response \<times> db) route list" where
  "payment_routes h e ctx =
     [(''POST'', [Lit ''v1'', Lit ''payments''], api_create h e ctx),
      (''POST'', [Lit ''v1'', Lit ''payment-quotes''], createPaymentQuote h e ctx),
      (''GET'', [Lit ''v1'', Lit ''payments'', Wild], read_only (api_get ctx)),
      (''GET'', [Lit ''v1'', Lit ''payments'', Wild, Lit ''timeline''], read_only (api_timeline ctx)),
      (''POST'', [Lit ''v1'', Lit ''payments'', Wild, Lit ''refunds''], api_createRefund e ctx),
      (''GET'', [Lit ''healthz''], read_only (\<lambda>_ _. live)),
      (''GET'', [Lit ''readyz''], read_only (\<lambda>_ _. ready h))]"

definition NewHandler :: "Handler \<Rightarrow> env \<Rightarrow> string option \<Rightarrow> Request \<Rightarrow> db \<Rightarrow> Response \<times> db" where
  "NewHandler h e ctx = ServeMux (payment_routes h e ctx)"

subsection \<open>Responses are well formed\<close>

lemma create_error_ok [simp]: "response_ok (create_error d err)" "response_ok (refund_error err)" "response_ok (storeError err)"
  by (simp_all add: create_error_def refund_error_def storeError_def)

lemma writeJSON_ok [simp]:
  "response_ok (writeJSON 202 (Payment_body p))" "response_ok (writeJSON 202 (Refund_body f))"
  "response_ok (writeJSON 201 (Quote_body q))" "response_ok (writeJSON 201 (PayinQuote_body iq))"
  "response_ok (writeJSON 200 (Payment_body p))" "response_ok (writeJSON 200 (Timeline_body i t))"
  by (simp_all add: response_ok.simps)

lemma create_in_direction_ok: "response_ok (fst (create_in_direction h e tenantID key i s))"
  unfolding create_in_direction_def by (simp split: sum.split option.split prod.split)

lemma create_ok: "response_ok (fst (api_create h e ctx r s))"
  unfolding api_create_def Let_def bad_key_def
  by (simp add: create_in_direction_ok split: sum.split)

lemma refund_ok: "response_ok (fst (api_createRefund e ctx r s))"
  unfolding api_createRefund_def Let_def bad_key_def
  by (simp split: sum.split option.split prod.split)

lemma createPayinQuote_ok: "response_ok (fst (createPayinQuote h e ctx r s))"
  unfolding createPayinQuote_def Let_def by (simp split: sum.split option.split prod.split)

lemma createPayoutQuote_ok: "response_ok (fst (createPayoutQuote h e ctx r s))"
  unfolding createPayoutQuote_def Let_def bad_key_def by (simp split: sum.split option.split prod.split)

lemma quote_ok: "response_ok (fst (createPaymentQuote h e ctx r s))"
  unfolding createPaymentQuote_def
  by (simp add: createPayinQuote_ok createPayoutQuote_ok split: list.split option.split)

lemma read_ok: "response_ok (api_get ctx r s)" "response_ok (api_timeline ctx r s)" "response_ok live" "response_ok (ready h)"
  by (auto simp: api_get_def api_timeline_def timeline_reply_def live_def ready_def split: sum.splits option.splits)

text \<open>The handler of a request, by its route.\<close>

lemma NewHandler_cases:
  assumes "NewHandler h e ctx r s = (reply, s')"
  obtains (none) "reply = no_route (payment_routes h e ctx) r" "s' = s"
  | (create) i where "api_create h e ctx (r\<lparr>rq_id := i\<rparr>) s = (reply, s')"
  | (quote) i where "createPaymentQuote h e ctx (r\<lparr>rq_id := i\<rparr>) s = (reply, s')"
  | (refund) i where "api_createRefund e ctx (r\<lparr>rq_id := i\<rparr>) s = (reply, s')"
  | (get) i where "reply = api_get ctx (r\<lparr>rq_id := i\<rparr>) s" "s' = s"
  | (timeline) i where "reply = api_timeline ctx (r\<lparr>rq_id := i\<rparr>) s" "s' = s"
  | (live) "reply = live" "s' = s"
  | (ready) "reply = ready h" "s' = s"
proof (cases "find_route (payment_routes h e ctx) r")
  case None
  with assms show thesis by (intro none) (simp_all add: NewHandler_def ServeMux_def)
next
  case (Some x)
  then obtain f i where x: "find_route (payment_routes h e ctx) r = Some (f, i)" by (cases x) auto
  with assms have run: "f (r\<lparr>rq_id := i\<rparr>) s = (reply, s')" by (simp add: NewHandler_def ServeMux_def)
  from find_route_in [OF x] have "f \<in> {api_create h e ctx, createPaymentQuote h e ctx, api_createRefund e ctx,
    read_only (api_get ctx), read_only (api_timeline ctx), read_only (\<lambda>_ _. live), read_only (\<lambda>_ _. ready h)}"
    by (auto simp: payment_routes_def)
  then consider "f = api_create h e ctx" | "f = createPaymentQuote h e ctx" | "f = api_createRefund e ctx"
    | "f = read_only (api_get ctx)" | "f = read_only (api_timeline ctx)" | "f = read_only (\<lambda>_ _. live)"
    | "f = read_only (\<lambda>_ _. ready h)" by blast
  then show thesis
    using run
  proof cases
    case 4
    with run show thesis by (intro get [of i]) (auto simp: read_only_def)
  next
    case 5
    with run show thesis by (intro timeline [of i]) (auto simp: read_only_def)
  qed (simp_all add: read_only_def create quote refund live ready)
qed

lemma NewHandler_typed: "NewHandler h e ctx r s = (reply, s') \<Longrightarrow> response_ok reply"
  by (erule NewHandler_cases) (metis fst_conv create_ok refund_ok quote_ok read_ok no_route_ok)+

end
