(* ===== verification/Tenancy.thy ===== *)
theory Tenancy
  imports Payment_Api Platform
begin

text \<open>
  What a request of one tenant writes: every row it adds names the tenant and, where it belongs to a payment,
  a payment the request has created; of the quotes it changes only the tenant's, except that an expired open
  quote of anybody is marked as expired. So every payment that existed before reads as before.
\<close>

subsection \<open>Writes of a tenant\<close>

definition quote_write :: "time \<Rightarrow> string \<Rightarrow> string set \<Rightarrow> quote_row \<Rightarrow> quote_row \<Rightarrow> bool" where
  "quote_write now t N q q' \<longleftrightarrow> q' = q \<or>
     q_status q = QuoteOpen \<and> q_tenant q = t \<and>
       (\<exists>i\<in>N. q' = q\<lparr>q_status := QuoteAccepted, q_payment := Some i, q_updated_at := now\<rparr>) \<or>
     q_status q = QuoteOpen \<and> q_expires_at q \<le> now \<and> q' = q\<lparr>q_status := QuoteExpired, q_updated_at := now\<rparr>"

definition new_quote :: "string \<Rightarrow> string set \<Rightarrow> quote_row \<Rightarrow> bool" where
  "new_quote t N q \<longleftrightarrow> q_tenant q = t \<and>
     (q_payment q = None \<or> q_status q = QuoteAccepted \<and> q_payment q \<in> Some ` N)"

definition added :: "('r \<Rightarrow> bool) \<Rightarrow> 'r list \<Rightarrow> 'r list \<Rightarrow> bool" where
  "added P t t' \<longleftrightarrow> (\<exists>new. t' = t @ new \<and> list_all P new)"

definition quotes_write :: "time \<Rightarrow> string \<Rightarrow> string set \<Rightarrow> quote_row list \<Rightarrow> quote_row list \<Rightarrow> bool" where
  "quotes_write now t N qs qs' \<longleftrightarrow> (\<exists>us. list_all2 (quote_write now t N) qs us \<and>
     added (new_quote t N) us qs')"

definition tenant_write :: "time \<Rightarrow> string \<Rightarrow> string set \<Rightarrow> db \<Rightarrow> db \<Rightarrow> bool" where
  "tenant_write now t N s s' \<longleftrightarrow>
     added (\<lambda>p. pay_tenant p = t \<and> pay_id p \<in> N) (payments s) (payments s') \<and>
     quotes_write now t N (quotes s) (quotes s') \<and>
     added (\<lambda>e. tl_payment e \<in> N) (timeline s) (timeline s') \<and>
     added (\<lambda>r. pi_tenant r = t \<and> pi_payment r \<in> N) (payins s) (payins s') \<and>
     added (\<lambda>r. rf_tenant r = t \<and> rf_payment r \<in> N) (refunds s) (refunds s') \<and>
     payouts s' = payouts s \<and> sagas s' = sagas s \<and> submissions s' = submissions s \<and> journals s' = journals s \<and>
     entries s' = entries s \<and> returns s' = returns s \<and> endpoints s' = endpoints s \<and> deliveries s' = deliveries s \<and>
     resources s' = resources s"

lemma added_refl [simp]: "added P t t"
  by (simp add: added_def)

lemma added_one [simp]: "added P t (t @ [r]) \<longleftrightarrow> P r"
  by (auto simp: added_def)

lemma added_trans: "added P t t' \<Longrightarrow> added P t' t'' \<Longrightarrow> added P t t''"
  by (auto simp: added_def)

lemma added_eq: "added P t t' \<Longrightarrow> (\<And>r. P r \<Longrightarrow> \<not> Q r) \<Longrightarrow> filter Q t' = filter Q t"
  by (auto simp: added_def list_all_iff filter_empty_conv)

lemma added_find:
  assumes "added P t t'" and "\<And>r. P r \<Longrightarrow> \<not> Q r"
  shows "List.find Q t' = List.find Q t"
proof -
  from assms(1) obtain new where new: "t' = t @ new" "list_all P new" by (auto simp: added_def)
  with assms(2) have "List.find Q new = None" by (auto simp: find_None_iff_all list_all_iff)
  with new(1) show ?thesis by (simp add: find_append split: option.splits)
qed

lemma quote_write_refl [simp]: "quote_write now t N q q"
  by (simp add: quote_write_def)

lemma quote_write_cases [consumes 1, case_names same accepted expired]:
  assumes "quote_write now t N q q'"
  obtains "q' = q"
  | i where "q_status q = QuoteOpen" "q_tenant q = t" "i \<in> N"
      "q' = q\<lparr>q_status := QuoteAccepted, q_payment := Some i, q_updated_at := now\<rparr>"
  | "q_status q = QuoteOpen" "q_expires_at q \<le> now" "q' = q\<lparr>q_status := QuoteExpired, q_updated_at := now\<rparr>"
  using assms unfolding quote_write_def by blast

lemma quote_write_trans:
  assumes "quote_write now t N q q'" and "quote_write now t N q' q''"
  shows "quote_write now t N q q''"
proof (cases "q_status q' = QuoteOpen")
  case True
  with assms(1) have "q' = q" by (cases rule: quote_write_cases) simp_all
  with assms(2) show ?thesis by simp
next
  case False
  with assms(2) have "q'' = q'" by (cases rule: quote_write_cases) simp_all
  with assms(1) show ?thesis by simp
qed

lemma list_all2_quote_refl [simp]: "list_all2 (quote_write now t N) qs qs"
  by (simp add: list.rel_refl)

lemma quotes_write_refl [simp]: "quotes_write now t N qs qs"
  unfolding quotes_write_def by (rule exI [of _ qs]) simp

lemma new_quote_write: "quote_write now t N q q' \<Longrightarrow> new_quote t N q \<Longrightarrow> new_quote t N q'"
  by (erule quote_write_cases) (auto simp: new_quote_def)

lemma list_all2_in_set1: "list_all2 R xs ys \<Longrightarrow> x \<in> set xs \<Longrightarrow> \<exists>y\<in>set ys. R x y"
  by (induction rule: list_all2_induct) auto

lemma list_all2_imp:
  "list_all2 R xs ys \<Longrightarrow> (\<And>x y. R x y \<Longrightarrow> P x \<Longrightarrow> P y) \<Longrightarrow> list_all P xs \<Longrightarrow> list_all P ys"
  by (induction rule: list_all2_induct) auto

lemma quotes_write_trans:
  assumes "quotes_write now t N qs qs'" and "quotes_write now t N qs' qs''"
  shows "quotes_write now t N qs qs''"
proof -
  let ?P = "new_quote t N"
  from assms(1) obtain us new where us: "list_all2 (quote_write now t N) qs us" "qs' = us @ new" "list_all ?P new"
    by (auto simp: quotes_write_def added_def)
  from assms(2) us(2) obtain vs new' where vs: "list_all2 (quote_write now t N) (us @ new) vs" "qs'' = vs @ new'" "list_all ?P new'"
    by (auto simp: quotes_write_def added_def)
  from vs(1) obtain v w where v: "vs = v @ w" "list_all2 (quote_write now t N) us v" "list_all2 (quote_write now t N) new w"
    by (auto simp: list_all2_append1)
  have "list_all ?P w" by (rule list_all2_imp [OF v(3) new_quote_write us(3)])
  moreover from us(1) v(2) have "list_all2 (quote_write now t N) qs v"
    by (rule list_all2_trans [rotated]) (rule quote_write_trans)
  ultimately show ?thesis unfolding quotes_write_def added_def using vs(2,3) v(1)
    by (intro exI [of _ v] conjI exI [of _ "w @ new'"]) simp_all
qed

lemma tenant_write_refl: "tenant_write now t N s s"
  by (simp add: tenant_write_def)

lemma tenant_write_trans [trans]: "tenant_write now t N s s' \<Longrightarrow> tenant_write now t N s' s'' \<Longrightarrow> tenant_write now t N s s''"
  unfolding tenant_write_def by (auto intro: added_trans quotes_write_trans)

subsection \<open>The pieces of a request\<close>

lemma update_quotes_write:
  assumes "\<And>q. q \<in> set qs \<Longrightarrow> P q \<Longrightarrow> quote_write now t N q (f q)"
  shows "quotes_write now t N qs (update_where P f qs)"
proof -
  have "list_all2 (quote_write now t N) qs (update_where P f qs)"
    using assms by (induction qs) auto
  then show ?thesis unfolding quotes_write_def by (intro exI [of _ "update_where P f qs"]) simp
qed

lemma quotes_only: "quotes_write now t N (quotes s) qs \<Longrightarrow> tenant_write now t N s (s\<lparr>quotes := qs\<rparr>)"
  by (simp add: tenant_write_def)

lemma insert_payment_write:
  "insert_payment r s = Inr s' \<Longrightarrow> pay_tenant r = t \<Longrightarrow> pay_id r \<in> N \<Longrightarrow> tenant_write now t N s s'"
  by (auto simp: insert_payment_Inr tenant_write_def)

lemma insert_refund_write:
  "insert_refund r s = Inr s' \<Longrightarrow> rf_tenant r = t \<Longrightarrow> rf_payment r \<in> N \<Longrightarrow> tenant_write now t N s s'"
  by (auto simp: insert_refund_Inr tenant_write_def)

lemma insert_payin_write:
  "insert_payin r s = Inr s' \<Longrightarrow> pi_tenant r = t \<Longrightarrow> pi_payment r \<in> N \<Longrightarrow> tenant_write now t N s s'"
  by (auto simp: insert_payin_def put_payins_def tenant_write_def split: if_splits)

lemma insert_quote_write:
  "insert_quote q s = Inr s' \<Longrightarrow> q_tenant q = t \<Longrightarrow> q_payment q = None \<Longrightarrow> tenant_write now t N s s'"
  by (auto simp: insert_quote_def put_quotes_def tenant_write_def quotes_write_def new_quote_def split: if_splits
      intro!: exI [of _ "quotes s"])

lemma History_write:
  "History_Record a e s = Inr s' \<Longrightarrow> tl_payment e \<in> N \<Longrightarrow> tenant_write now t N s s'"
  by (auto simp: History_Record_Inr tenant_write_def)

lemma outbox_write: "tenant_write now t N s (s\<lparr>outbox := ob, outbox_seq := n\<rparr>)"
  by (simp add: tenant_write_def)

lemma enqueue_write: "enqueue_state_event e k i ty payload now' s = Inr s' \<Longrightarrow> tenant_write now t N s s'"
  by (drule enqueue_state_event_shape) (auto intro: outbox_write)

lemma affected_one:
  "affected P ts = 1 \<Longrightarrow> r \<in> set ts \<Longrightarrow> P r \<Longrightarrow> r' \<in> set ts \<Longrightarrow> P r' \<Longrightarrow> r' = r"
  by (induction ts) (auto simp: affected_zero_iff split: if_splits)

text \<open>The one open quote with the ID is the quote that was read.\<close>

lemma accept_quote_write:
  assumes "accept_quote i j now s = Inr s'" and "find_quote PaymentDirectionPayout i s0 = Some q" and
    "quotes s0 = quotes s" and "q_status q = QuoteOpen" and "q_tenant q = t" and "j \<in> N"
  shows "tenant_write now t N s s'"
proof -
  from assms(1) have one: "affected (\<lambda>q. q_id q = i \<and> q_status q = QuoteOpen) (quotes s) = 1"
    by (auto simp: accept_quote_def split: if_splits)
  have q: "q \<in> set (quotes s)" "q_id q = i" using find_quote_id [OF assms(2)] assms(3) by auto
  show ?thesis unfolding accept_quote_Inr(1) [OF assms(1)]
  proof (intro quotes_only update_quotes_write)
    fix q' assume "q' \<in> set (quotes s)" and "q_id q' = i \<and> q_status q' = QuoteOpen"
    with affected_one [OF one q(1)] q(2) assms(4) have "q' = q" by blast
    with assms(4-6) show "quote_write now t N q' (q'\<lparr>q_status := QuoteAccepted, q_payment := Some j, q_updated_at := now\<rparr>)"
      unfolding quote_write_def by blast
  qed
qed

lemma accept_payin_quote_write:
  assumes "accept_payin_quote i j now s = Inr s'" and "find_quote PaymentDirectionPayin i s0 = Some q" and
    "quotes s0 = quotes s" and "q_status q = QuoteOpen" and "q_tenant q = t" and "j \<in> N"
  shows "tenant_write now t N s s'"
proof -
  let ?P = "\<lambda>q. q_id q = i \<and> q_direction q = PaymentDirectionPayin \<and> q_status q = QuoteOpen"
  from assms(1) have one: "affected ?P (quotes s) = 1" and
    s': "s' = s\<lparr>quotes := update_where ?P (\<lambda>q. q\<lparr>q_status := QuoteAccepted, q_payment := Some j, q_updated_at := now\<rparr>) (quotes s)\<rparr>"
    by (auto simp: accept_payin_quote_def put_quotes_def Let_def split: if_splits)
  have q: "q \<in> set (quotes s)" "q_id q = i" "q_direction q = PaymentDirectionPayin"
    using find_quote_id [OF assms(2)] assms(3) by auto
  show ?thesis unfolding s'
  proof (intro quotes_only update_quotes_write)
    fix q' assume "q' \<in> set (quotes s)" and "?P q'"
    with affected_one [OF one q(1)] q(2,3) assms(4) have "q' = q" by blast
    with assms(4-6) show "quote_write now t N q' (q'\<lparr>q_status := QuoteAccepted, q_payment := Some j, q_updated_at := now\<rparr>)"
      unfolding quote_write_def by blast
  qed
qed

lemma expire_quote_write:
  assumes "quotes_ok (quotes s)" and "find_quote PaymentDirectionPayout i s = Some q" and
    "q_status q \<noteq> QuoteOpen \<or> q_expires_at q \<le> now"
  shows "tenant_write now t N s (expire_quote i now s)"
proof -
  have "q' = q" if "q' \<in> set (quotes s)" "q_id q' = i" for q'
    using that find_quote_id [OF assms(2)] assms(1) by (auto simp: quotes_ok_def distinct_map inj_on_def)
  then have "quote_write now t N q' (q'\<lparr>q_status := QuoteExpired, q_updated_at := now\<rparr>)"
    if "q' \<in> set (quotes s)" "q_id q' = i \<and> q_status q' = QuoteOpen" for q'
    using that assms(3) unfolding quote_write_def by auto
  then show ?thesis unfolding expire_quote_def by (intro quotes_only update_quotes_write)
qed

subsection \<open>The requests\<close>

definition tenant_owned :: "time \<Rightarrow> string \<Rightarrow> db \<Rightarrow> db \<Rightarrow> bool" where
  "tenant_owned now t s s' \<longleftrightarrow> (\<exists>N. tenant_write now t N s s' \<and> (\<forall>i\<in>N. \<not> has_payment i s))"

lemma tenant_owned_refl [simp]: "tenant_owned now t s s"
  unfolding tenant_owned_def by (rule exI [of _ "{}"]) (simp add: tenant_write_refl)

lemma added_mono: "added P t t' \<Longrightarrow> (\<And>r. P r \<Longrightarrow> Q r) \<Longrightarrow> added Q t t'"
  by (auto simp: added_def list_all_iff)

lemma quote_write_mono: "quote_write now t N q q' \<Longrightarrow> N \<subseteq> M \<Longrightarrow> quote_write now t M q q'"
  by (auto simp: quote_write_def)

lemma new_quote_mono: "new_quote t N q \<Longrightarrow> N \<subseteq> M \<Longrightarrow> new_quote t M q"
  by (auto simp: new_quote_def)

lemma quotes_write_mono:
  assumes "quotes_write now t N qs qs'" and "N \<subseteq> M"
  shows "quotes_write now t M qs qs'"
proof -
  from assms(1) obtain us where us: "list_all2 (quote_write now t N) qs us" "added (new_quote t N) us qs'"
    by (auto simp: quotes_write_def)
  have "list_all2 (quote_write now t M) qs us"
    using us(1) by (rule list_all2_mono) (erule quote_write_mono [OF _ assms(2)])
  moreover have "added (new_quote t M) us qs'"
    using us(2) by (rule added_mono) (erule new_quote_mono [OF _ assms(2)])
  ultimately show ?thesis by (auto simp: quotes_write_def)
qed

lemma tenant_write_mono: "tenant_write now t N s s' \<Longrightarrow> N \<subseteq> M \<Longrightarrow> tenant_write now t M s s'"
  unfolding tenant_write_def by (elim conjE) (intro conjI; (assumption | erule (1) quotes_write_mono | (erule added_mono, blast)))

lemma tenant_write_has: "tenant_write now t N s s' \<Longrightarrow> has_payment i s \<Longrightarrow> has_payment i s'"
  by (auto simp: tenant_write_def added_def has_payment_def)

lemma tenant_owned_trans:
  assumes "tenant_owned now t s s'" and "tenant_owned now t s' s''"
  shows "tenant_owned now t s s''"
proof -
  from assms obtain N M where N: "tenant_write now t N s s'" "\<forall>i\<in>N. \<not> has_payment i s" and
    M: "tenant_write now t M s' s''" "\<forall>i\<in>M. \<not> has_payment i s'" by (auto simp: tenant_owned_def)
  have "tenant_write now t (N \<union> M) s s''"
    using tenant_write_mono [OF N(1)] tenant_write_mono [OF M(1)] by (blast intro: tenant_write_trans)
  moreover have "\<forall>i\<in>N \<union> M. \<not> has_payment i s" using N(2) M(2) tenant_write_has [OF N(1)] by blast
  ultimately show ?thesis by (auto simp: tenant_owned_def)
qed

lemma tenant_owned_empty: "tenant_write now t {} s s' \<Longrightarrow> tenant_owned now t s s'"
  by (auto simp: tenant_owned_def)

lemma payout_CreateQuote_owned:
  assumes "payout_CreateQuote provider e r s = Inr (q, s')"
  shows "tenant_owned now (qr_TenantID r) s s'"
proof -
  from assms have "s' = s \<or> (\<exists>row. insert_quote row s = Inr s' \<and> q_tenant row = qr_TenantID r \<and> q_payment row = None)"
    unfolding payout_CreateQuote_def Let_def
    by (auto simp: bindE_Inr_iff split: option.splits if_splits)
  then show ?thesis by (auto intro: tenant_owned_empty insert_quote_write)
qed

lemma payin_CreateQuote_owned:
  assumes "payin_CreateQuote provider e r s = Inr (q, s')"
  shows "tenant_owned now (qr_TenantID r) s s'"
proof -
  from assms have "s' = s \<or> (\<exists>row. insert_quote row s = Inr s' \<and> q_tenant row = qr_TenantID r \<and> q_payment row = None)"
    unfolding payin_CreateQuote_def Let_def
    by (auto simp: bindE_Inr_iff split: option.splits if_splits)
  then show ?thesis by (auto intro: tenant_owned_empty insert_quote_write)
qed

lemma payout_CreateQuote_keeps [store_keeps]:
  "payout_CreateQuote provider e r s = Inr (q, s') \<Longrightarrow> store_ok s \<Longrightarrow> store_ok s'"
  unfolding payout_CreateQuote_def Let_def
  by (auto simp: bindE_Inr_iff split: option.splits if_splits intro: insert_quote_keeps)

lemma insert_payment_fresh: "insert_payment r s = Inr s' \<Longrightarrow> \<not> has_payment (pay_id r) s"
  by (auto simp: insert_payment_Inr payments_ok_def has_payment_def)

lemma new_payment_row_sel [simp]:
  "pay_id (new_payment_row i d x c a t k n) = i" "pay_tenant (new_payment_row i d x c a t k n) = t"
  "pay_idempotency_key (new_payment_row i d x c a t k n) = k"
  by (simp_all add: new_payment_row_def)

lemma insert_payout_payment_owned:
  assumes "insert_payout_payment e r quote i s = Inr (p, s')" and "find_quote PaymentDirectionPayout quote s = Some q"
    and "q_status q = QuoteOpen" and "q_tenant q = cp_TenantID r"
  shows "tenant_owned (env_now e) (cp_TenantID r) s s'"
proof -
  let ?row = "new_payment_row i PaymentDirectionPayout (cp_ExternalReference r) (cp_Currency r)
            (cp_AmountMinor r) (cp_TenantID r) (cp_IdempotencyKey r) (env_now e)"
  from assms(1) obtain s1 m where ins: "insert_payment_once ?row s = Inr (s1, m)"
    by (auto simp: insert_payout_payment_def Let_def bindE_Inr_iff)
  show ?thesis
  proof (cases "m = 0")
    case True
    have "s1 = s" using ins by (cases rule: insert_payment_once_cases) (use True in auto)
    with assms(1) ins True have "s' = s" by (auto simp: insert_payout_payment_def Let_def bindE_Inr_iff split: if_splits)
    then show ?thesis by simp
  next
    case False
    with ins have pay: "insert_payment ?row s = Inr s1" by (auto simp: insert_payment_once_def bindE_Inr_iff split: if_splits)
    from assms(1) ins False obtain s2 s3 a t payload where acc: "accept_quote quote i (env_now e) s1 = Inr s2" and
      hist: "History_Record a t s2 = Inr s3" "tl_payment t = i" and
      enq: "enqueue_state_event e 2 i ''payment.created'' payload (env_now e) s3 = Inr s'"
      by (auto simp: insert_payout_payment_def Let_def bindE_Inr_iff)
    from pay have "quotes s1 = quotes s" by (auto simp: insert_payment_Inr)
    let ?W = "tenant_write (env_now e) (cp_TenantID r) {i}"
    have "?W s s1" using pay by (rule insert_payment_write) simp_all
    also have "?W s1 s2" using acc assms(2-4) \<open>quotes s1 = quotes s\<close> by (intro accept_quote_write) auto
    also have "?W s2 s3" using hist(1) by (rule History_write) (simp add: hist(2))
    also have "?W s3 s'" using enq by (rule enqueue_write)
    finally have "?W s s'" .
    with insert_payment_fresh [OF pay] show ?thesis by (auto simp: tenant_owned_def)
  qed
qed

lemma createPayout_tx_owned:
  assumes "createPayout_tx e r quote s = (s', res)" and "quotes_ok (quotes s)"
  shows "tenant_owned (env_now e) (cp_TenantID r) s s'"
proof (cases "newID ''pay_'' 1 e")
  case (Inl a)
  with assms show ?thesis by (simp add: createPayout_tx_def)
next
  case id: (Inr i)
  show ?thesis
  proof (cases "find_quote PaymentDirectionPayout quote s")
    case None
    with assms id show ?thesis by (simp add: createPayout_tx_def)
  next
    case q: (Some q)
    consider (accepted) "q_status q = QuoteAccepted" | (expired) "q_status q \<noteq> QuoteAccepted" "q_status q \<noteq> QuoteOpen \<or> q_expires_at q \<le> env_now e"
      | (other) "q_status q = QuoteOpen" "\<not> q_expires_at q \<le> env_now e" "q_tenant q \<noteq> cp_TenantID r"
      | (usable) "q_status q = QuoteOpen" "\<not> q_expires_at q \<le> env_now e" "q_tenant q = cp_TenantID r" by blast
    then show ?thesis
    proof cases
      case accepted
      with assms(1) id q show ?thesis by (auto simp: createPayout_tx_def split: sum.splits if_splits)
    next
      case expired
      with assms(1) id q have "s' = expire_quote quote (env_now e) s" by (auto simp: createPayout_tx_def)
      with expire_quote_write [OF assms(2) q expired(2)] show ?thesis by (auto intro: tenant_owned_empty)
    next
      case other
      with assms(1) id q show ?thesis by (simp add: createPayout_tx_def)
    next
      case usable
      with assms(1) id q have "s' = s \<or> (\<exists>p. insert_payout_payment e r quote i s = Inr (p, s'))"
        by (auto simp: createPayout_tx_def split: sum.splits if_splits)
      with usable insert_payout_payment_owned [OF _ q usable(1,3)] show ?thesis by auto
    qed
  qed
qed

lemma payout_CreatePayment_owned:
  assumes "payout_CreatePayment provider e r s = (s', res)" and "store_ok s"
  shows "tenant_owned (env_now e) (cp_TenantID r) s s'"
proof (cases "CreatePaymentRequest_Validate r")
  case (Inl a)
  with assms show ?thesis by (simp add: payout_CreatePayment_def)
next
  case v: (Inr u)
  have ok: "quotes_ok (quotes s)" using assms(2) by (simp add: store_ok_def)
  show ?thesis
  proof (cases "cp_QuoteID r = ''''")
    case False
    with assms v show ?thesis by (auto simp: payout_CreatePayment_def createPayout_def intro: createPayout_tx_owned ok)
  next
    case True
    show ?thesis
    proof (cases "payout_CreateQuote provider e (implicit_quote_request r) s")
      case (Inl a)
      with True assms v show ?thesis by (simp add: payout_CreatePayment_def createPayout_def)
    next
      case (Inr x)
      then obtain q s1 where q: "payout_CreateQuote provider e (implicit_quote_request r) s = Inr (q, s1)" by (cases x) auto
      with True assms v have tx: "createPayout_tx e r (qt_ID q) s1 = (s', res)"
        by (simp add: payout_CreatePayment_def createPayout_def)
      have "tenant_owned (env_now e) (cp_TenantID r) s s1"
        using payout_CreateQuote_owned [OF q] by (simp add: implicit_quote_request_def)
      moreover have "store_ok s1" using payout_CreateQuote_keeps [OF q] assms(2) by simp
      ultimately show ?thesis using createPayout_tx_owned [OF tx] by (auto simp: store_ok_def intro: tenant_owned_trans)
    qed
  qed
qed

lemma insert_payin_payment_owned:
  assumes "insert_payin_payment provider e r quote q s = Inr (p, s')" and "find_quote PaymentDirectionPayin quote s = Some q"
    and "q_status q = QuoteOpen" and "q_tenant q = ci_TenantID r"
  shows "tenant_owned (env_now e) (ci_TenantID r) s s'"
proof -
  from assms(1) obtain payment s1 s2 s3 s4 s5 a t ob ev body where
    s1: "insert_payment (new_payment_row payment PaymentDirectionPayin (ci_ExternalReference r) (q_destination_currency q)
        (q_receiver_amount q) (ci_TenantID r) (ci_IdempotencyKey r) (env_now e)) s = Inr s1" and
    s2: "History_Record a t s1 = Inr s2" "tl_payment t = payment" and
    s3: "insert_payin (payin_of_quote (pn_Name provider) q payment r quote (env_now e)) s2 = Inr s3" and
    s4: "accept_payin_quote quote payment (env_now e) s3 = Inr s4" and
    s5: "insert_outbox ob s4 = Inr s5" and
    s6: "enqueuePublicPaymentEvent ev payment ''payment.created'' SchemaVersion body (env_now e) s5 = Inr s'"
    unfolding insert_payin_payment_def Let_def bindE_Inr_iff by fastforce
  let ?W = "tenant_write (env_now e) (ci_TenantID r) {payment}"
  have "?W s s1" using s1 by (rule insert_payment_write) simp_all
  also have "?W s1 s2" using s2(1) by (rule History_write) (simp add: s2(2))
  also have "?W s2 s3" using s3 by (rule insert_payin_write) (simp_all add: payin_of_quote_def)
  also have "quotes s3 = quotes s" using s1 s2(1) s3
    by (auto simp: insert_payment_Inr History_Record_Inr insert_payin_def put_payins_def split: if_splits)
  then have "?W s3 s4" using s4 assms(2-4) by (intro accept_payin_quote_write) auto
  also have "?W s4 s5" using insert_outbox_shape [OF s5] by (auto intro: outbox_write)
  also have "?W s5 s'" using enqueuePublicPaymentEvent_shape [OF s6] by (auto intro: outbox_write)
  finally show ?thesis using insert_payment_fresh [OF s1] by (auto simp: tenant_owned_def)
qed

lemma createPayin_owned:
  assumes "createPayin provider e r quote s = Inr (p, s')"
  shows "tenant_owned (env_now e) (ci_TenantID r) s s'"
proof -
  from assms have "s' = s \<or> (\<exists>q. find_quote PaymentDirectionPayin quote s = Some q \<and> q_status q = QuoteOpen \<and>
    q_tenant q = ci_TenantID r \<and> insert_payin_payment provider e r quote q s = Inr (p, s'))"
    by (auto simp: createPayin_def split: if_splits option.splits)
  then show ?thesis by (auto intro: insert_payin_payment_owned)
qed

lemma payin_CreatePayment_cases:
  assumes "payin_CreatePayment provider e r0 s = (s', res)"
  obtains "s' = s"
  | r q s1 where "ci_TenantID r = ci_TenantID r0" "payin_CreateQuote provider e (payin_implicit_quote r) s = Inr (q, s1)"
      "s' = s1 \<or> (\<exists>p. createPayin provider e r (iq_ID q) s1 = Inr (p, s'))"
  | r p quote where "ci_TenantID r = ci_TenantID r0" "createPayin provider e r quote s = Inr (p, s')"
proof -
  let ?r = "r0\<lparr>ci_Currency := ToUpper (TrimSpace (ci_Currency r0))\<rparr>"
  have fin: "(case createPayin provider e ?r quote t of Inl err \<Rightarrow> (t, Inl err)
      | Inr (p, t') \<Rightarrow> (t', Inr (payment_of_payin ?r p))) = (s', res) \<Longrightarrow>
    s' = t \<or> (\<exists>p. createPayin provider e ?r quote t = Inr (p, s'))" for quote t
    by (auto split: sum.splits)
  show thesis
  proof (cases "PayinCreateRequest_Validate r0")
    case (Inl a)
    with assms show thesis by (intro that(1)) (simp add: payin_CreatePayment_def)
  next
    case v: (Inr u)
    show thesis
    proof (cases "ci_QuoteID r0 = ''''")
      case False
      with assms v have "s' = s \<or> (\<exists>p. createPayin provider e ?r (ci_QuoteID r0) s = Inr (p, s'))"
        by (intro fin) (simp add: payin_CreatePayment_def Let_def)
      then show thesis using that(1) that(3) [of ?r "ci_QuoteID r0"] by auto
    next
      case True
      show thesis
      proof (cases "payin_CreateQuote provider e (payin_implicit_quote ?r) s")
        case (Inl a)
        with assms v True show thesis by (intro that(1)) (simp add: payin_CreatePayment_def Let_def)
      next
        case (Inr x)
        then obtain q s1 where q: "payin_CreateQuote provider e (payin_implicit_quote ?r) s = Inr (q, s1)" by (cases x) auto
        with assms v True have "s' = s1 \<or> (\<exists>p. createPayin provider e ?r (iq_ID q) s1 = Inr (p, s'))"
          by (intro fin) (simp add: payin_CreatePayment_def Let_def)
        with q show thesis by (intro that(2) [of ?r q s1]) simp_all
      qed
    qed
  qed
qed

lemma payin_CreatePayment_owned:
  assumes "payin_CreatePayment provider e r s = (s', res)"
  shows "tenant_owned (env_now e) (ci_TenantID r) s s'"
  using assms
proof (cases rule: payin_CreatePayment_cases)
  case (2 r' q s1)
  then have "tenant_owned (env_now e) (ci_TenantID r) s s1"
    using payin_CreateQuote_owned [OF 2(2)] by (simp add: payin_implicit_quote_def)
  with 2(1,3) show ?thesis by (metis createPayin_owned tenant_owned_trans)
qed (auto dest: createPayin_owned)

lemma CreateRefund_owned:
  assumes "CreateRefund e payment tenant key amount reason quote s = Inr (rfd, s')"
  shows "tenant_owned (env_now e) tenant s s'"
proof -
  from assms consider "s' = s" | p where "check_refund_quote e tenant (pay_currency p) amount quote s = Inr ()"
    "insert_refund_payment e p tenant key amount reason quote s = Inr (rfd, s')"
    by (auto simp: CreateRefund_def bindE_Inr_iff split: if_splits option.splits sum.splits prod.splits)
  then show ?thesis
  proof cases
    case 2
    from 2(2) obtain i s1 s2 s3 s4 a t payload where
      s1: "insert_payment (new_payment_row i PaymentDirectionPayout (pay_external_reference p @ '':refund:'' @ i)
          (pay_currency p) amount tenant key (env_now e)) s = Inr s1" and
      s2: "insert_refund \<lparr>rf_payment = i, rf_original = pay_id p, rf_tenant = tenant, rf_idempotency_key = key,
          rf_amount = amount, rf_currency = pay_currency p, rf_reason = reason, rf_created_at = env_now e,
          rf_updated_at = env_now e\<rparr> s1 = Inr s2" and
      s3: "(if quote = '''' then Inr s2 else accept_quote quote i (env_now e) s2) = Inr s3" and
      s4: "History_Record a t s3 = Inr s4" "tl_payment t = i" and
      s5: "enqueue_state_event e 1 i ''payment.created'' payload (env_now e) s4 = Inr s'"
      unfolding insert_refund_payment_def Let_def bindE_Inr_iff by fastforce
    let ?W = "tenant_write (env_now e) tenant {i}"
    have "?W s s1" using s1 by (rule insert_payment_write) simp_all
    also have "?W s1 s2" using s2 by (rule insert_refund_write) simp_all
    also have "?W s2 s3"
    proof (cases "quote = ''''")
      case True
      with s3 show ?thesis by (simp add: tenant_write_refl)
    next
      case False
      with 2(1) obtain q where "find_quote PaymentDirectionPayout quote s = Some q" "q_status q = QuoteOpen" "q_tenant q = tenant"
        by (auto simp: check_refund_quote_def split: option.splits if_splits)
      moreover have "quotes s = quotes s2" using s1 s2 by (auto simp: insert_payment_Inr insert_refund_Inr)
      ultimately show ?thesis using s3 False
        by (intro accept_quote_write [where ?s0.0 = s and q = q]) auto
    qed
    also have "?W s3 s4" using s4(1) by (rule History_write) (simp add: s4(2))
    also have "?W s4 s'" using s5 by (rule enqueue_write)
    finally show ?thesis using insert_payment_fresh [OF s1] by (auto simp: tenant_owned_def)
  qed simp
qed

subsection \<open>The handlers\<close>

lemma request_tenant_authenticated:
  "tenant \<noteq> '''' \<Longrightarrow> request_tenant (Some tenant) named = Inr t \<Longrightarrow> t = tenant"
  by (auto simp: request_tenant_def TenantIDFromContext_def Let_def split: if_splits)

definition owned_keeping :: "time \<Rightarrow> string \<Rightarrow> db \<Rightarrow> Response \<times> db \<Rightarrow> bool" where
  "owned_keeping now t s out \<longleftrightarrow> books_step s (snd out) \<and> (store_ok s \<longrightarrow> tenant_owned now t s (snd out))"

lemma owned_keeping_same [simp]: "owned_keeping now t s (reply, s)"
  by (simp add: owned_keeping_def)

lemma create_in_direction_owned: "owned_keeping (env_now e) tenant s (create_in_direction h e tenant key i s)"
proof -
  have "owned_keeping (env_now e) tenant s (reply, s')"
    if "payout_CreatePayment po e (payout_request tenant key i) s = (s', res)" for po s' res reply
    using payout_CreatePayment_owned [OF that] payout_CreatePayment_books [OF that]
    by (simp add: payout_request_def owned_keeping_def)
  moreover have "owned_keeping (env_now e) tenant s (reply, s')"
    if "payin_CreatePayment pn e (payin_request tenant key i) s = (s', res)" for pn s' res reply
    using payin_CreatePayment_owned [OF that] payin_CreatePayment_books [OF that]
    by (simp add: payin_request_def owned_keeping_def)
  ultimately show ?thesis
    unfolding create_in_direction_def by (simp split: option.split sum.split prod.split)
qed

lemma api_create_owned:
  assumes "tenant \<noteq> ''''"
  shows "owned_keeping (env_now e) tenant s (api_create h e (Some tenant) r s)"
proof -
  have "owned_keeping (env_now e) tenant s (create_in_direction h e t key i s)"
    if "request_tenant (Some tenant) named = Inr t" for t key i named
    using request_tenant_authenticated [OF assms that] create_in_direction_owned by simp
  then show ?thesis unfolding api_create_def Let_def by (simp split: sum.split)
qed

lemma createPayoutQuote_owned:
  assumes "tenant \<noteq> ''''"
  shows "owned_keeping (env_now e) tenant s (createPayoutQuote h e (Some tenant) r s)"
proof -
  have "owned_keeping (env_now e) tenant s (reply, s')"
    if "payout_CreateQuote po e (payout_quote_request t key i) s = Inr (q, s')" and
      "request_tenant (Some tenant) named = Inr t" for po s' q t key i named reply
    using payout_CreateQuote_owned [OF that(1)] payout_CreateQuote_books [OF that(1)]
      request_tenant_authenticated [OF assms that(2)]
    by (simp add: payout_quote_request_def owned_keeping_def)
  then show ?thesis unfolding createPayoutQuote_def Let_def by (simp split: sum.split prod.split)
qed

lemma createPayinQuote_owned:
  assumes "tenant \<noteq> ''''"
  shows "owned_keeping (env_now e) tenant s (createPayinQuote h e (Some tenant) r s)"
proof -
  have "owned_keeping (env_now e) tenant s (reply, s')"
    if "payin_CreateQuote pn e (payin_quote_request tenant key i) s = Inr (q, s')" for pn s' q key i reply
    using payin_CreateQuote_owned [OF that] payin_CreateQuote_books [OF that]
    by (simp add: payin_quote_request_def owned_keeping_def)
  moreover have "TenantIDFromContext (Some tenant) = Some tenant" using assms by simp
  ultimately show ?thesis unfolding createPayinQuote_def Let_def by (simp split: option.split sum.split prod.split)
qed

lemma createPaymentQuote_owned:
  assumes "tenant \<noteq> ''''"
  shows "owned_keeping (env_now e) tenant s (createPaymentQuote h e (Some tenant) r s)"
  unfolding createPaymentQuote_def using createPayinQuote_owned [OF assms] createPayoutQuote_owned [OF assms]
  by (simp split: list.split option.split)

lemma api_createRefund_owned:
  assumes "tenant \<noteq> ''''"
  shows "owned_keeping (env_now e) tenant s (api_createRefund e (Some tenant) r s)"
proof -
  have "owned_keeping (env_now e) tenant s (reply, s')"
    if "CreateRefund e i tenant key amount reason quote s = Inr (rfd, s')" for i key amount reason quote rfd s' reply
    using CreateRefund_owned [OF that] CreateRefund_books [OF that] by (simp add: owned_keeping_def)
  moreover have "TenantIDFromContext (Some tenant) = Some tenant" using assms by simp
  ultimately show ?thesis unfolding api_createRefund_def Let_def by (simp split: option.split sum.split prod.split)
qed

lemma NewHandler_owned:
  assumes "NewHandler h e (Some tenant) r s = (reply, s')" and "tenant \<noteq> ''''"
  shows "owned_keeping (env_now e) tenant s (reply, s')"
  using assms(1)
proof (cases rule: NewHandler_cases)
  case (create i)
  with api_create_owned [OF assms(2), of e s h "r\<lparr>rq_id := i\<rparr>"] show ?thesis by simp
next
  case (quote i)
  with createPaymentQuote_owned [OF assms(2), of e s h "r\<lparr>rq_id := i\<rparr>"] show ?thesis by simp
next
  case (refund i)
  with api_createRefund_owned [OF assms(2), of e s "r\<lparr>rq_id := i\<rparr>"] show ?thesis by simp
qed simp_all

lemma NewHandler_public:
  assumes "public_path r" and "NewHandler h e ctx r s = (reply, s')"
  shows "s' = s"
  using assms
  by (auto simp: public_path_def NewHandler_def ServeMux_def payment_routes_def read_only_def split: if_splits option.splits)

lemma ledger_ok_store: "ledger_ok s \<Longrightarrow> store_ok s"
  by (simp add: ledger_ok_def)

interpretation payment_gate: tenant_service "NewHandler h e" ledger_ok "tenant_owned (env_now e)" for h e
proof
  show "ledger_ok s'" if "tenant \<noteq> ''''" "ledger_ok s" "NewHandler h e (Some tenant) r s = (reply, s')" for tenant r s reply s'
    using NewHandler_owned [OF that(3,1)] that(2) by (simp add: owned_keeping_def books_step_def)
  show "tenant_owned (env_now e) tenant s s'"
    if "tenant \<noteq> ''''" "ledger_ok s" "NewHandler h e (Some tenant) r s = (reply, s')" for tenant r s reply s'
    using NewHandler_owned [OF that(3,1)] ledger_ok_store [OF that(2)] by (simp add: owned_keeping_def)
qed (blast intro: NewHandler_public NewHandler_typed)+

subsection \<open>What others see\<close>

text \<open>The payment a request may have created is new, so every payment that existed reads as before.\<close>

lemma quote_of_payment_map:
  "quote_of_payment i s = (case map_option q_id (List.find (\<lambda>q. q_payment q = Some i) (quotes s)) of None \<Rightarrow> '''' | Some j \<Rightarrow> j)"
  by (simp add: quote_of_payment_def split: option.split)

lemma tenant_write_linked: "tenant_write now t N s s' \<Longrightarrow> quotes_linked s \<Longrightarrow> quotes_linked s'"
proof -
  assume w: "tenant_write now t N s s'" and l: "quotes_linked s"
  let ?P = "\<lambda>q. q_payment q \<noteq> None \<longrightarrow> q_status q = QuoteAccepted"
  from w obtain us where us: "list_all2 (quote_write now t N) (quotes s) us" "added (new_quote t N) us (quotes s')"
    by (auto simp: tenant_write_def quotes_write_def)
  have "list_all ?P us" using us(1)
    by (rule list_all2_imp) (use l in \<open>auto simp: quotes_linked_def elim!: quote_write_cases\<close>)
  moreover from us(2) obtain new where "quotes s' = us @ new" "list_all (new_quote t N) new" by (auto simp: added_def)
  moreover from this(2) have "list_all ?P new" by (rule list.pred_mono_strong) (auto simp: new_quote_def)
  ultimately show ?thesis by (simp add: quotes_linked_def)
qed

lemma linked_find:
  assumes "list_all2 (quote_write now t N) qs us" and "i \<notin> N"
    and "list_all (\<lambda>q. q_payment q \<noteq> None \<longrightarrow> q_status q = QuoteAccepted) qs"
  shows "map_option q_id (List.find (\<lambda>q. q_payment q = Some i) us) = map_option q_id (List.find (\<lambda>q. q_payment q = Some i) qs)"
  using assms
proof (induction rule: list_all2_induct)
  case (Cons q qs q' us)
  have "q_payment q' = Some i \<longleftrightarrow> q_payment q = Some i" and "q_id q' = q_id q"
    using Cons.hyps(1) Cons.prems by (cases rule: quote_write_cases; auto)+
  with Cons show ?case by simp
qed simp

lemma tenant_write_reads:
  assumes "tenant_write now t N s s'" and "i \<notin> N" and "quotes_linked s"
  shows "GetPayment i s' = GetPayment i s"
proof -
  have find: "find_payment i s' = find_payment i s"
    using assms by (auto simp: tenant_write_def find_payment_def intro!: added_find)
  have "List.find (\<lambda>r. pi_payment r = i) (payins s') = List.find (\<lambda>r. pi_payment r = i) (payins s)"
    using assms by (auto simp: tenant_write_def intro!: added_find)
  then have settlement: "settlement_of d i s' = settlement_of d i s" for d
    using assms(1) by (cases d) (simp_all add: settlement_of_def tenant_write_def)
  have "filter (\<lambda>e. tl_payment e = i) (timeline s') = filter (\<lambda>e. tl_payment e = i) (timeline s)"
    using assms by (auto simp: tenant_write_def intro!: added_eq)
  then have timeline: "timeline_of i s' = timeline_of i s" by (simp add: timeline_of_def)
  from assms(1) obtain us where us: "list_all2 (quote_write now t N) (quotes s) us" and
    new: "added (new_quote t N) us (quotes s')" by (auto simp: tenant_write_def quotes_write_def)
  have "List.find (\<lambda>q. q_payment q = Some i) (quotes s') = List.find (\<lambda>q. q_payment q = Some i) us"
    using new assms(2) by (auto simp: new_quote_def intro!: added_find)
  moreover have "map_option q_id (List.find (\<lambda>q. q_payment q = Some i) us) =
      map_option q_id (List.find (\<lambda>q. q_payment q = Some i) (quotes s))"
    using us assms(2,3) unfolding quotes_linked_def by (rule linked_find)
  ultimately have "quote_of_payment i s' = quote_of_payment i s" by (simp add: quote_of_payment_map)
  with find settlement timeline show ?thesis by (simp add: GetPayment_def split: option.split)
qed

lemma tenant_owned_reads:
  "tenant_owned now t s s' \<Longrightarrow> quotes_linked s \<Longrightarrow> has_payment i s \<Longrightarrow> GetPayment i s' = GetPayment i s"
  unfolding tenant_owned_def by (blast intro: tenant_write_reads)

lemma tenant_owned_linked: "tenant_owned now t s s' \<Longrightarrow> quotes_linked s \<Longrightarrow> quotes_linked s'"
  unfolding tenant_owned_def by (blast intro: tenant_write_linked)

lemma tenant_owned_foreign:
  assumes "tenant_owned now t s s'" and "t' \<noteq> t"
  shows "filter (\<lambda>p. pay_tenant p = t') (payments s') = filter (\<lambda>p. pay_tenant p = t') (payments s)"
    "filter (\<lambda>r. pi_tenant r = t') (payins s') = filter (\<lambda>r. pi_tenant r = t') (payins s)"
    "filter (\<lambda>r. rf_tenant r = t') (refunds s') = filter (\<lambda>r. rf_tenant r = t') (refunds s)"
  using assms by (auto simp: tenant_owned_def tenant_write_def intro!: added_eq)

lemma tenant_owned_frame:
  assumes "tenant_owned now t s s'"
  shows "payouts s' = payouts s" "sagas s' = sagas s" "submissions s' = submissions s" "journals s' = journals s"
    "entries s' = entries s" "returns s' = returns s" "endpoints s' = endpoints s" "deliveries s' = deliveries s"
  using assms by (auto simp: tenant_owned_def tenant_write_def)

lemma quote_foreign_expired:
  assumes "tenant_owned now t s s'" and "q \<in> set (quotes s)" and "q_tenant q \<noteq> t"
  shows "q \<in> set (quotes s') \<or> q_status q = QuoteOpen \<and> q_expires_at q \<le> now \<and>
    q\<lparr>q_status := QuoteExpired, q_updated_at := now\<rparr> \<in> set (quotes s')"
proof -
  from assms(1) obtain N us where us: "list_all2 (quote_write now t N) (quotes s) us" and "set us \<subseteq> set (quotes s')"
    by (auto simp: tenant_owned_def tenant_write_def quotes_write_def added_def)
  from us assms(2) obtain q' where "q' \<in> set us" "quote_write now t N q q'"
    by (meson list_all2_in_set1)
  with assms(3) \<open>set us \<subseteq> set (quotes s')\<close> show ?thesis by (auto elim!: quote_write_cases)
qed

end
