(* ===== verification/Webhook_Url.thy ===== *)
theory Webhook_Url
  imports Http "HOL-Library.Word"
begin

text \<open>
  The check of a tenant's webhook URL (\<^verbatim>\<open>paymentapi/webhook_endpoints.go\<close>, \<open>validateWebhookURL\<close>) and the
  parts of package \<^verbatim>\<open>net\<close> it rests on: the text forms of IP addresses and their classification. The parser
  \<^verbatim>\<open>url.Parse\<close> is a parameter, a function from text to the parts of a URL.

  The theorem gives the accepted addresses as numeric ranges; two lemmas exhibit addresses that pass
  although they are not public.
\<close>

unbundle bit_operations_syntax

subsection \<open>Addresses\<close>

text \<open>An address is the list of its 16 bytes; an IPv4 address has the prefix \<open>::ffff\<close>.\<close>

type_synonym ip = "nat list"

fun split_on :: "char \<Rightarrow> string \<Rightarrow> string \<Rightarrow> string list" where
  "split_on d cur [] = [rev cur]"
| "split_on d cur (c # cs) = (if c = d then rev cur # split_on d [] cs else split_on d (c # cur) cs)"

definition octet :: "string \<Rightarrow> nat option" where
  "octet ds = (case parse_digits 0 ds of
     Some v \<Rightarrow> if ds = '''' \<or> (length ds > 1 \<and> hd ds = CHR ''0'') \<or> 255 < v then None else Some (nat v)
   | None \<Rightarrow> None)"

definition parse_ipv4 :: "string \<Rightarrow> nat list option" where
  "parse_ipv4 s = (case map octet (split_on CHR ''.'' [] s) of
     [Some a, Some b, Some c, Some d] \<Rightarrow> Some [a, b, c, d] | _ \<Rightarrow> None)"

definition hex_digit :: "char \<Rightarrow> int option" where
  "hex_digit c = (let n = (of_char c :: int) in
     if 48 \<le> n \<and> n \<le> 57 then Some (n - 48) else if 97 \<le> n \<and> n \<le> 102 then Some (n - 87)
     else if 65 \<le> n \<and> n \<le> 70 then Some (n - 55) else None)"

definition hex_number :: "string \<Rightarrow> int" where
  "hex_number ds = foldl (\<lambda>acc c. 16 * acc + (case hex_digit c of Some v \<Rightarrow> v | None \<Rightarrow> 0)) 0 ds"

text \<open>The loop over the groups of an IPv6 address: the bytes so far and the place of the ellipsis.\<close>

function ipv6_groups :: "string \<Rightarrow> nat list \<Rightarrow> nat option \<Rightarrow> (nat list \<times> nat option) option" where
  "ipv6_groups s bs ell =
     (if 16 \<le> length bs then (if s = '''' then Some (bs, ell) else None) else
      let ds = takeWhile (\<lambda>c. hex_digit c \<noteq> None) s; rest = drop (length ds) s;
          bs' = bs @ [nat (hex_number ds div 256), nat (hex_number ds mod 256)]
      in if ds = '''' \<or> 4 < length ds then None
         else (case rest of
             [] \<Rightarrow> Some (bs', ell)
           | c # cs \<Rightarrow>
               if c = CHR ''.'' then
                 (if ell = None \<and> length bs \<noteq> 12 \<or> 16 < length bs + 4 then None
                  else map_option (\<lambda>q. (bs @ q, ell)) (parse_ipv4 s))
               else if c \<noteq> CHR '':'' \<or> cs = '''' then None
               else if hd cs = CHR '':'' then
                 (if ell \<noteq> None then None
                  else if tl cs = '''' then Some (bs', Some (length bs'))
                  else ipv6_groups (tl cs) bs' (Some (length bs')))
               else ipv6_groups cs bs' ell))"
  by pat_completeness auto
termination
proof (relation "measure (\<lambda>(s, bs, ell). length s)", goal_cases)
  case 1
  then show ?case by simp
next
  case (2 s bs ell ds rest bs' c cs)
  then have "length (c # cs) = length s - length ds" by (metis length_drop)
  with 2 show ?case by auto
next
  case (3 s bs ell ds rest bs' c cs)
  then have "length (c # cs) = length s - length ds" by (metis length_drop)
  with 3 show ?case by auto
qed

declare ipv6_groups.simps [simp del]

definition parse_ipv6 :: "string \<Rightarrow> ip option" where
  "parse_ipv6 s =
     (let (s', ell) = (if prefix ''::'' s then (drop 2 s, Some 0) else (s, None)) in
      if ell \<noteq> None \<and> s' = '''' then Some (replicate 16 0)
      else (case ipv6_groups s' [] ell of
          None \<Rightarrow> None
        | Some (bs, ell') \<Rightarrow>
           (case ell' of
              None \<Rightarrow> if length bs < 16 then None else Some bs
            | Some k \<Rightarrow> if length bs < 16 then Some (take k bs @ replicate (16 - length bs) 0 @ drop k bs) else None)))"

text \<open>\<^verbatim>\<open>net.ParseIP\<close>: an address with a zone is no address.\<close>

fun ParseIP_kind :: "string \<Rightarrow> char option" where
  "ParseIP_kind [] = None"
| "ParseIP_kind (c # cs) = (if c \<in> {CHR ''.'', CHR '':'', CHR ''%''} then Some c else ParseIP_kind cs)"

definition ParseIP :: "string \<Rightarrow> ip option" where
  "ParseIP s =
     (if ParseIP_kind s = Some CHR ''.'' then map_option (append (replicate 10 0 @ [255, 255])) (parse_ipv4 s)
      else if ParseIP_kind s = Some CHR '':'' \<and> CHR ''%'' \<notin> set s then parse_ipv6 s else None)"

definition To4 :: "ip \<Rightarrow> nat list option" where
  "To4 a = (if take 12 a = replicate 10 0 @ [255, 255] then Some (drop 12 a) else None)"

definition IsUnspecified :: "ip \<Rightarrow> bool" where
  "IsUnspecified a \<longleftrightarrow> To4 a = Some [0, 0, 0, 0] \<or> a = replicate 16 0"

definition IsLoopback :: "ip \<Rightarrow> bool" where
  "IsLoopback a \<longleftrightarrow> (case To4 a of Some q \<Rightarrow> q ! 0 = 127 | None \<Rightarrow> a = replicate 15 0 @ [1])"

definition IsPrivate :: "ip \<Rightarrow> bool" where
  "IsPrivate a \<longleftrightarrow> (case To4 a of
     Some q \<Rightarrow> q ! 0 = 10 \<or> q ! 0 = 172 \<and> q ! 1 AND 0xf0 = 16 \<or> q ! 0 = 192 \<and> q ! 1 = 168
   | None \<Rightarrow> a ! 0 AND 0xfe = 0xfc)"

definition IsMulticast :: "ip \<Rightarrow> bool" where
  "IsMulticast a \<longleftrightarrow> (case To4 a of Some q \<Rightarrow> q ! 0 AND 0xf0 = 0xe0 | None \<Rightarrow> a ! 0 = 0xff)"

definition IsLinkLocalMulticast :: "ip \<Rightarrow> bool" where
  "IsLinkLocalMulticast a \<longleftrightarrow> (case To4 a of
     Some q \<Rightarrow> q ! 0 = 224 \<and> q ! 1 = 0 \<and> q ! 2 = 0 | None \<Rightarrow> a ! 0 = 0xff \<and> a ! 1 AND 0x0f = 2)"

definition IsLinkLocalUnicast :: "ip \<Rightarrow> bool" where
  "IsLinkLocalUnicast a \<longleftrightarrow> (case To4 a of
     Some q \<Rightarrow> q ! 0 = 169 \<and> q ! 1 = 254 | None \<Rightarrow> a ! 0 = 0xfe \<and> a ! 1 AND 0xc0 = 0x80)"

definition IsGlobalUnicast :: "ip \<Rightarrow> bool" where
  "IsGlobalUnicast a \<longleftrightarrow> To4 a \<noteq> Some [255, 255, 255, 255] \<and> \<not> IsUnspecified a \<and> \<not> IsLoopback a \<and>
     \<not> IsMulticast a \<and> \<not> IsLinkLocalUnicast a"

subsection \<open>URLs\<close>

record url =
  ur_Scheme :: string
  ur_Host :: string
  ur_User :: bool
  ur_Fragment :: string
  ur_String :: string

text \<open>\<^verbatim>\<open>URL.Hostname\<close>: the host without a port of digits and without the brackets of an IPv6 address.\<close>

definition Hostname :: "url \<Rightarrow> string" where
  "Hostname u =
     (let host = ur_Host u;
          h = (case Cut CHR '':'' (rev host) of
                 None \<Rightarrow> host
               | Some (port, a) \<Rightarrow> if list_all (\<lambda>c. digit_value c \<noteq> None) port then rev a else host)
      in if prefix ''['' h \<and> suffix '']'' h then butlast (tl h) else h)"

definition TrimSuffix :: "string \<Rightarrow> string \<Rightarrow> string" where
  "TrimSuffix s x = (if suffix x s then take (length s - length x) s else s)"

definition validateWebhookURL :: "(string \<Rightarrow> url option) \<Rightarrow> string \<Rightarrow> bool \<Rightarrow> string result" where
  "validateWebhookURL url_Parse raw_url allowPrivate =
     (case url_Parse (TrimSpace raw_url) of
        None \<Rightarrow> Inl ErrInvalidWebhookURL
      | Some p \<Rightarrow>
          if \<not> (ur_Scheme p = ''https'' \<or> allowPrivate \<and> ur_Scheme p = ''http'') \<or> ur_Host p = '''' \<or>
             ur_User p \<or> ur_Fragment p \<noteq> '''' then Inl ErrInvalidWebhookURL
          else if allowPrivate then Inr (ur_String p)
          else let host = TrimSuffix (ToLower (Hostname p)) ''.'' in
            if host = ''localhost'' \<or> suffix ''.localhost'' host \<or> suffix ''.local'' host then Inl ErrInvalidWebhookURL
            else (case ParseIP host of
                Some a \<Rightarrow> if \<not> IsGlobalUnicast a \<or> IsPrivate a \<or> IsLoopback a \<or> IsLinkLocalUnicast a \<or>
                            IsLinkLocalMulticast a \<or> IsUnspecified a
                          then Inl ErrInvalidWebhookURL else Inr (ur_String p)
              | None \<Rightarrow> Inr (ur_String p)))"

subsection \<open>The accepted addresses\<close>

lemma octet_range: "octet ds = Some v \<Longrightarrow> v < 256"
  by (auto simp: octet_def split: option.splits if_splits)

lemma parse_ipv4_range: "parse_ipv4 s = Some q \<Longrightarrow> length q = 4 \<and> list_all (\<lambda>v. v < 256) q"
  by (auto simp: parse_ipv4_def map_eq_Cons_conv split: list.splits option.splits dest!: octet_range)

lemma list_all_takeWhile: "list_all P (takeWhile P s)"
  by (induction s) auto

lemma hex_digit_range: "hex_digit c = Some v \<Longrightarrow> 0 \<le> v \<and> v < 16"
  by (auto simp: hex_digit_def Let_def split: if_splits)

lemma hex_number_range: "list_all (\<lambda>c. hex_digit c \<noteq> None) ds \<Longrightarrow> 0 \<le> hex_number ds \<and> hex_number ds < 16 ^ length ds"
proof (induction ds rule: rev_induct)
  case (snoc c ds)
  then obtain v where "hex_digit c = Some v" and "0 \<le> hex_number ds" "hex_number ds < 16 ^ length ds" by auto
  with hex_digit_range [of c v] show ?case by (simp add: hex_number_def)
qed (simp add: hex_number_def)

definition bytes :: "nat list \<Rightarrow> bool" where
  "bytes bs \<longleftrightarrow> list_all (\<lambda>v. v < 256) bs \<and> length bs \<le> 16"

lemma hex_group_bytes:
  assumes "length ds \<le> 4" and "list_all (\<lambda>c. hex_digit c \<noteq> None) ds"
  shows "nat (hex_number ds div 256) < 256" "nat (hex_number ds mod 256) < 256"
proof -
  have "hex_number ds < 16 ^ 4"
    using hex_number_range [OF assms(2)] power_increasing [OF assms(1), of "16 :: int"] by simp
  then show "nat (hex_number ds div 256) < 256" by simp
  have "hex_number ds mod 256 < 256" by simp
  then show "nat (hex_number ds mod 256) < 256" by linarith
qed

fun ell_ok :: "nat option \<Rightarrow> nat \<Rightarrow> bool" where
  "ell_ok None n = True"
| "ell_ok (Some k) n = (k \<le> n)"

lemma ell_ok_mono: "ell_ok ell n \<Longrightarrow> n \<le> n' \<Longrightarrow> ell_ok ell n'"
  by (cases ell) auto

lemma ipv6_groups_bytes:
  "ipv6_groups s bs ell = Some (bs', ell') \<Longrightarrow> bytes bs \<Longrightarrow> even (length bs) \<Longrightarrow>
     ell_ok ell (length bs) \<Longrightarrow> bytes bs' \<and> ell_ok ell' (length bs')"
proof (induction s bs ell rule: ipv6_groups.induct)
  case (1 s bs ell)
  let ?ds = "takeWhile (\<lambda>c. hex_digit c \<noteq> None) s"
  let ?bs = "bs @ [nat (hex_number ?ds div 256), nat (hex_number ?ds mod 256)]"
  show ?case
  proof (cases "16 \<le> length bs")
    case True
    with 1(3) have "bs' = bs" "ell' = ell" by (simp_all add: ipv6_groups.simps [of s] split: if_splits)
    with 1(4,6) show ?thesis by simp
  next
    case False
    from 1(5) obtain k where "length bs = 2 * k" by (rule evenE)
    with False have len: "length bs \<le> 14" by simp
    have all: "list_all (\<lambda>c. hex_digit c \<noteq> None) ?ds" by (rule list_all_takeWhile)
    from 1(3) False have ok: "?ds \<noteq> ''''" "length ?ds \<le> 4"
      by (auto simp: ipv6_groups.simps [of s] Let_def split: if_splits)
    have bs: "bytes ?bs" "even (length ?bs)"
      using 1(4,5) len hex_group_bytes [OF ok(2) all] by (auto simp: bytes_def)
    have k: "ell_ok ell (length ?bs)" using 1(6) by (rule ell_ok_mono) simp
    show ?thesis
    proof (cases "drop (length ?ds) s")
      case Nil
      with 1(3) False ok bs k show ?thesis by (auto simp: ipv6_groups.simps [of s] Let_def)
    next
      case (Cons c cs)
      note step = 1(3) [unfolded ipv6_groups.simps [of s] Let_def Cons]
      show ?thesis
      proof (cases "c = CHR ''.''")
        case True
        with step False ok obtain q where "parse_ipv4 s = Some q" and "bs' = bs @ q" and "ell' = ell" and
          "length bs + 4 \<le> 16" by (auto split: if_splits)
        with parse_ipv4_range [of s q] 1(4) ell_ok_mono [OF 1(6), of "length bs'"] show ?thesis by (auto simp: bytes_def)
      next
        case dot: False
        show ?thesis
        proof (cases "hd cs = CHR '':''")
          case True
          show ?thesis
          proof (cases "tl cs = ''''")
            case True
            with step \<open>hd cs = CHR '':''\<close> False ok dot bs show ?thesis by (auto split: if_splits)
          next
            case tl: False
            with step True False ok dot have "ipv6_groups (tl cs) ?bs (Some (length ?bs)) = Some (bs', ell')" and
              "c = CHR '':''" "cs \<noteq> ''''" "ell = None"
              by (auto split: if_splits)
            with 1(1) [OF False refl refl refl _ Cons] ok dot True tl bs show ?thesis by simp
          qed
        next
          case colon: False
          with step False ok dot have "ipv6_groups cs ?bs ell = Some (bs', ell')" and "c = CHR '':''" "cs \<noteq> ''''"
            by (auto split: if_splits)
          with 1(2) [OF False refl refl refl _ Cons] ok dot colon bs k show ?thesis by simp
        qed
      qed
    qed
  qed
qed

lemma parse_ipv6_bytes: "parse_ipv6 s = Some a \<Longrightarrow> length a = 16 \<and> list_all (\<lambda>v. v < 256) a"
proof -
  assume a: "parse_ipv6 s = Some a"
  show ?thesis
  proof (cases "prefix ''::'' s \<and> drop 2 s = ''''")
    case True
    with a show ?thesis by (auto simp: parse_ipv6_def list_all_iff)
  next
    case False
    with a obtain s' ell bs ell' where "ell \<in> {None, Some 0}" "ipv6_groups s' [] ell = Some (bs, ell')" and
      r: "a = (case ell' of None \<Rightarrow> bs | Some k \<Rightarrow> take k bs @ replicate (16 - length bs) 0 @ drop k bs)"
      "ell' = None \<longrightarrow> 16 \<le> length bs"
    proof (cases "prefix ''::'' s")
      case True
      with False a obtain bs ell' where "ipv6_groups (drop 2 s) [] (Some 0) = Some (bs, ell')"
        by (auto simp: parse_ipv6_def split: option.splits)
      with True False a show ?thesis by (intro that [of "Some 0" "drop 2 s" bs ell'])
          (auto simp: parse_ipv6_def split: option.splits if_splits)
    next
      case no: False
      with a obtain bs ell' where "ipv6_groups s [] None = Some (bs, ell')"
        by (auto simp: parse_ipv6_def split: option.splits)
      with no a show ?thesis by (intro that [of None s bs ell']) (auto simp: parse_ipv6_def split: option.splits if_splits)
    qed
    then have "bytes bs \<and> ell_ok ell' (length bs)"
      by (intro ipv6_groups_bytes) (auto simp: bytes_def)
    with r show ?thesis
      by (auto simp: bytes_def list_all_iff split: option.splits dest: in_set_takeD in_set_dropD)
  qed
qed

lemma ParseIP_bytes: "ParseIP s = Some a \<Longrightarrow> length a = 16 \<and> list_all (\<lambda>v. v < 256) a"
  by (auto simp: ParseIP_def list_all_iff split: if_splits dest!: parse_ipv4_range parse_ipv6_bytes)

text \<open>The classification as ranges of byte values.\<close>

fun public_ipv4 :: "nat list \<Rightarrow> bool" where
  "public_ipv4 [a, b, c, d] \<longleftrightarrow> a \<notin> {10, 127} \<and> [a, b, c, d] \<noteq> [0, 0, 0, 0] \<and> \<not> (a = 172 \<and> b \<in> {16..31}) \<and>
     \<not> (a = 192 \<and> b = 168) \<and> \<not> (a = 169 \<and> b = 254) \<and> a \<notin> {224..239} \<and> [a, b, c, d] \<noteq> [255, 255, 255, 255]"
| "public_ipv4 q \<longleftrightarrow> False"

definition public_ip :: "ip \<Rightarrow> bool" where
  "public_ip a \<longleftrightarrow> (case To4 a of
     Some q \<Rightarrow> public_ipv4 q
   | None \<Rightarrow> a \<noteq> replicate 16 0 \<and> a \<noteq> replicate 15 0 @ [1] \<and> a ! 0 \<notin> {252, 253} \<and>
       \<not> (a ! 0 = 254 \<and> a ! 1 \<in> {128..191}) \<and> a ! 0 \<noteq> 255)"

lemma and_high_mask: "(v :: nat) AND push_bit n (mask m) = 2 ^ n * (v div 2 ^ n mod 2 ^ m)"
proof -
  have "v AND push_bit n (mask m) = push_bit n (take_bit m (drop_bit n v))"
    by (rule bit_eqI) (auto simp: bit_simps)
  then show ?thesis by (simp add: push_bit_eq_mult take_bit_eq_mod drop_bit_eq_div mult.commute)
qed

lemma byte_masks:
  fixes v :: nat
  assumes "v < 256"
  shows "v AND 0xf0 = 16 \<longleftrightarrow> v \<in> {16..31}" "v AND 0xf0 = 0xe0 \<longleftrightarrow> v \<in> {224..239}"
    "v AND 0xfe = 0xfc \<longleftrightarrow> v \<in> {252, 253}" "v AND 0xc0 = 0x80 \<longleftrightarrow> v \<in> {128..191}"
proof -
  have "push_bit 4 (mask 4) = (0xf0 :: nat)" "push_bit 1 (mask 7) = (0xfe :: nat)" "push_bit 6 (mask 2) = (0xc0 :: nat)"
    by (simp_all add: push_bit_eq_mult mask_eq_exp_minus_1)
  with and_high_mask [of v 4 4] and_high_mask [of v 1 7] and_high_mask [of v 6 2]
  have "v AND 0xf0 = 16 * (v div 16 mod 16)" "v AND 0xfe = 2 * (v div 2 mod 128)" "v AND 0xc0 = 64 * (v div 64 mod 4)"
    by simp_all
  with assms show "v AND 0xf0 = 16 \<longleftrightarrow> v \<in> {16..31}" "v AND 0xf0 = 0xe0 \<longleftrightarrow> v \<in> {224..239}"
    "v AND 0xfe = 0xfc \<longleftrightarrow> v \<in> {252, 253}" "v AND 0xc0 = 0x80 \<longleftrightarrow> v \<in> {128..191}"
    by auto
qed

lemma To4_shape: "To4 a = Some q \<Longrightarrow> length a = 16 \<Longrightarrow> list_all (\<lambda>v. v < 256) a \<Longrightarrow>
  (\<exists>b0 b1 b2 b3. q = [b0, b1, b2, b3] \<and> b0 < 256 \<and> b1 < 256) \<and> a \<noteq> replicate 16 0"
proof -
  assume a: "To4 a = Some q" "length a = 16" "list_all (\<lambda>v. v < 256) a"
  then have q: "q = drop 12 a" "length q = 4" "take 12 a = replicate 10 0 @ [255, 255]"
    by (auto simp: To4_def split: if_splits)
  from q(2) obtain b0 b1 b2 b3 where bs: "q = [b0, b1, b2, b3]"
    by (auto simp: numeral_eq_Suc length_Suc_conv)
  moreover have "set q \<subseteq> set a" using q(1) by (simp add: set_drop_subset)
  ultimately have "b0 < 256" "b1 < 256" using a(3) by (auto simp: list_all_iff)
  moreover have "a \<noteq> replicate 16 0" using q(3) by (auto simp: numeral_eq_Suc)
  ultimately show ?thesis using bs by blast
qed

lemma public_ip_iff:
  assumes "ParseIP host = Some a"
  shows "public_ip a \<longleftrightarrow> IsGlobalUnicast a \<and> \<not> IsPrivate a \<and> \<not> IsLoopback a \<and> \<not> IsLinkLocalUnicast a \<and>
    \<not> IsLinkLocalMulticast a \<and> \<not> IsUnspecified a"
proof -
  from ParseIP_bytes [OF assms] have len: "length a = 16" and b: "list_all (\<lambda>v. v < 256) a" by simp_all
  then have "a ! 0 < 256" "a ! 1 < 256" by (auto simp: list_all_length)
  note masks = byte_masks
  show ?thesis
  proof (cases "To4 a")
    case None
    then show ?thesis
      unfolding public_ip_def IsGlobalUnicast_def IsPrivate_def IsLoopback_def IsLinkLocalUnicast_def
        IsLinkLocalMulticast_def IsUnspecified_def IsMulticast_def
        option.case masks [OF \<open>a ! 0 < 256\<close>] masks [OF \<open>a ! 1 < 256\<close>] by auto
  next
    case (Some q)
    with To4_shape [OF _ len b] obtain b0 b1 b2 b3 where q: "q = [b0, b1, b2, b3]" "b0 < 256" "b1 < 256" and
      z: "a \<noteq> replicate 16 0" by blast
    have "IsUnspecified a \<longleftrightarrow> b0 = 0 \<and> b1 = 0 \<and> b2 = 0 \<and> b3 = 0" "IsLoopback a \<longleftrightarrow> b0 = 127"
      "IsPrivate a \<longleftrightarrow> b0 = 10 \<or> b0 = 172 \<and> b1 \<in> {16..31} \<or> b0 = 192 \<and> b1 = 168"
      "IsMulticast a \<longleftrightarrow> b0 \<in> {224..239}" "IsLinkLocalUnicast a \<longleftrightarrow> b0 = 169 \<and> b1 = 254"
      "IsLinkLocalMulticast a \<longleftrightarrow> b0 = 224 \<and> b1 = 0 \<and> b2 = 0"
      unfolding IsPrivate_def IsLoopback_def IsLinkLocalUnicast_def IsLinkLocalMulticast_def IsUnspecified_def
        IsMulticast_def Some q(1) using masks [OF q(2)] masks [OF q(3)] z by simp_all
    note eqs = this
    show ?thesis
      unfolding public_ip_def IsGlobalUnicast_def Some option.case q(1) public_ipv4.simps eqs
      by (simp only: list.inject option.inject insert_iff empty_iff atLeastAtMost_iff simp_thms) presburger
  qed
qed

text \<open>C19: exactly the HTTPS URLs without user and fragment are registered whose host is no local name and,
  where it is the text of an address, a public one; the result is the URL as it was parsed.\<close>

theorem webhook_url_accepted_exactly:
  "validateWebhookURL url_Parse text False = Inr u \<longleftrightarrow>
    (\<exists>p host. url_Parse (TrimSpace text) = Some p \<and> u = ur_String p \<and> ur_Scheme p = ''https'' \<and> ur_Host p \<noteq> '''' \<and>
      \<not> ur_User p \<and> ur_Fragment p = '''' \<and> host = TrimSuffix (ToLower (Hostname p)) ''.'' \<and>
      host \<noteq> ''localhost'' \<and> \<not> suffix ''.localhost'' host \<and> \<not> suffix ''.local'' host \<and>
      (case ParseIP host of Some a \<Rightarrow> public_ip a | None \<Rightarrow> True))"
proof (cases "url_Parse (TrimSpace text)")
  case None
  then show ?thesis by (simp add: validateWebhookURL_def)
next
  case (Some p)
  then show ?thesis
    by (cases "ParseIP (TrimSuffix (ToLower (Hostname p)) ''.'')")
      (auto simp: validateWebhookURL_def Let_def public_ip_iff)
qed

text \<open>
  An IPv6 address with a zone is no address for \<open>ParseIP\<close>, so the loopback address with a zone is taken
  for a host name and accepted; so is the shared address space 100.64.0.0/10.
\<close>

definition sample_url :: "string \<Rightarrow> url" where
  "sample_url host = \<lparr>ur_Scheme = ''https'', ur_Host = host, ur_User = False, ur_Fragment = '''',
     ur_String = ''https://'' @ host @ ''/hook''\<rparr>"

lemma zoned_loopback_accepted:
  "validateWebhookURL (\<lambda>_. Some (sample_url ''[::1%25lo]'')) ''https://[::1%25lo]/hook'' False =
    Inr ''https://[::1%25lo]/hook''"
  by code_simp

lemma sample_addresses:
  "validateWebhookURL (\<lambda>_. Some (sample_url ''100.64.0.1'')) ''x'' False = Inr ''https://100.64.0.1/hook''"
  "validateWebhookURL (\<lambda>_. Some (sample_url ''[::1]:8443'')) ''x'' False = Inl ErrInvalidWebhookURL"
  "validateWebhookURL (\<lambda>_. Some (sample_url ''[::ffff:10.1.2.3]'')) ''x'' False = Inl ErrInvalidWebhookURL"
  "validateWebhookURL (\<lambda>_. Some (sample_url ''192.168.0.1:80'')) ''x'' False = Inl ErrInvalidWebhookURL"
  "validateWebhookURL (\<lambda>_. Some (sample_url ''[2001:db8::7]'')) ''x'' False = Inr ''https://[2001:db8::7]/hook''"
  "validateWebhookURL (\<lambda>_. Some (sample_url ''hooks.LocalHost.'')) ''x'' False = Inl ErrInvalidWebhookURL"
  by code_simp+

end
