(* ===== verification/Api_Endpoints.thy ===== *)
theory Api_Endpoints
  imports Api_Keys Webhook_Url "HOL-Library.List_Lexorder" "HOL-Library.Char_ord"
begin

text \<open>
  Registration, listing and disabling of a tenant's webhook endpoints (\<^verbatim>\<open>paymentapi/webhook_endpoints.go\<close>)
  with their HTTP handler. Registrations of one tenant are serialised by the advisory lock, so a
  registration is one step on the database.

  The theorems: a tenant never has more than five active endpoints nor two with one URL, and a tenant's
  requests touch no other tenant's endpoints.
\<close>

definition maxActiveWebhookEndpoints :: nat where
  "maxActiveWebhookEndpoints = 5"

definition tenant_active :: "string \<Rightarrow> endpoint_row \<Rightarrow> bool" where
  "tenant_active tenant w \<longleftrightarrow> we_tenant w = tenant \<and> we_active w"

definition insert_endpoint :: "endpoint_row \<Rightarrow> db \<Rightarrow> db result" where
  "insert_endpoint w s =
     (if we_id w \<in> set (map we_id (endpoints s)) then Inl (ErrConstraint ''webhook_endpoints'')
      else Inr (s\<lparr>endpoints := endpoints s @ [w]\<rparr>))"

record WebhookEndpointService =
  ws_url_Parse :: "string \<Rightarrow> url option"
  ws_allowPrivateURLs :: bool

definition AllowPrivateURLs :: "WebhookEndpointService \<Rightarrow> WebhookEndpointService" where
  "AllowPrivateURLs v = v\<lparr>ws_allowPrivateURLs := True\<rparr>"

definition Endpoint_Register ::
  "WebhookEndpointService \<Rightarrow> env \<Rightarrow> string \<Rightarrow> string \<Rightarrow> db \<Rightarrow> (WebhookEndpoint \<times> string \<times> db) result" where
  "Endpoint_Register v e tenantID rawURL s =
     (if TrimSpace tenantID = '''' then Inl (ErrText ''tenant ID is required'') else
      bindE (validateWebhookURL (ws_url_Parse v) rawURL (ws_allowPrivateURLs v)) (\<lambda>endpointURL.
      bindE (newID ''whe_'' 0 e) (\<lambda>i.
      bindE (newID '''' 1 e) (\<lambda>secretBytes.
        let secret = ''whsec_'' @ RawURLEncoding (hex_bytes secretBytes);
            mine = filter (tenant_active tenantID) (endpoints s)
        in if list_ex (\<lambda>w. we_url w = endpointURL) mine then Inl ErrWebhookEndpointDuplicate
           else if maxActiveWebhookEndpoints \<le> length mine then Inl ErrWebhookEndpointLimit
           else bindE (insert_endpoint \<lparr>we_id = i, we_tenant = tenantID, we_url = endpointURL, we_secret = secret,
                         we_active = True, we_created_at = env_now e\<rparr> s) (\<lambda>s'.
                  Inr (\<lparr>ep_ID = i, ep_URL = endpointURL, ep_Active = True, ep_CreatedAt = env_now e\<rparr>, secret, s'))))))"

definition endpoint_of :: "endpoint_row \<Rightarrow> WebhookEndpoint" where
  "endpoint_of w = \<lparr>ep_ID = we_id w, ep_URL = we_url w, ep_Active = we_active w, ep_CreatedAt = we_created_at w\<rparr>"

text \<open>\<open>ORDER BY created_at, id\<close>\<close>

definition Endpoint_List :: "string \<Rightarrow> db \<Rightarrow> WebhookEndpoint list" where
  "Endpoint_List tenantID s =
     map endpoint_of (sort_key we_created_at (sort_key we_id (filter (\<lambda>w. we_tenant w = tenantID) (endpoints s))))"

definition Endpoint_Disable :: "string \<Rightarrow> string \<Rightarrow> db \<Rightarrow> db result" where
  "Endpoint_Disable tenantID i s =
     (let P = (\<lambda>w. we_id w = i \<and> tenant_active tenantID w) in
      if affected P (endpoints s) \<noteq> 1 then Inl ErrWebhookEndpointNotFound
      else Inr (s\<lparr>endpoints := update_where P (\<lambda>w. w\<lparr>we_active := False\<rparr>) (endpoints s)\<rparr>))"

subsection \<open>The handler\<close>

definition no_tenant_key :: Response where
  "no_tenant_key = problem 401 ''valid tenant API key is required''"

definition decode_url :: "raw \<Rightarrow> string option" where
  "decode_url b = Option.bind (strict_object [''url''] b) (\<lambda>ms. decode_str ''url'' ms '''')"

definition register_endpoint ::
  "WebhookEndpointService \<Rightarrow> env \<Rightarrow> string option \<Rightarrow> Request \<Rightarrow> db \<Rightarrow> Response \<times> db" where
  "register_endpoint v e ctx r s =
     (case decode_single decode_url (rq_body r) of
        Inl err \<Rightarrow> (problem 400 (err_text err), s)
      | Inr url \<Rightarrow>
         (case TenantIDFromContext ctx of
            None \<Rightarrow> (no_tenant_key, s)
          | Some tenantID \<Rightarrow>
             (case Endpoint_Register v e tenantID url s of
                Inr (endpoint, secret, s') \<Rightarrow> (writeJSON 201 (Registered_body endpoint secret), s')
              | Inl err \<Rightarrow>
                  (if err = ErrWebhookEndpointDuplicate \<or> err = ErrWebhookEndpointLimit then problem 409 (err_text err)
                   else if err = ErrInvalidWebhookURL then problem 400 (err_text err)
                   else problem 500 ''could not register webhook endpoint'', s))))"

definition list_endpoints :: "string option \<Rightarrow> Request \<Rightarrow> db \<Rightarrow> Response \<times> db" where
  "list_endpoints ctx r s =
     (case TenantIDFromContext ctx of
        None \<Rightarrow> (no_tenant_key, s)
      | Some tenantID \<Rightarrow> (writeJSON 200 (Endpoints_body (Endpoint_List tenantID s)), s))"

definition disable_endpoint :: "string option \<Rightarrow> Request \<Rightarrow> db \<Rightarrow> Response \<times> db" where
  "disable_endpoint ctx r s =
     (case TenantIDFromContext ctx of
        None \<Rightarrow> (no_tenant_key, s)
      | Some tenantID \<Rightarrow>
         (case Endpoint_Disable tenantID (rq_id r) s of
            Inl err \<Rightarrow> (if err = ErrWebhookEndpointNotFound then problem 404 ''active webhook endpoint not found''
                        else problem 500 ''could not disable webhook endpoint'', s)
          | Inr s' \<Rightarrow> (writeJSON 204 NoBody, s')))"

definition endpoint_routes ::
  "WebhookEndpointService \<Rightarrow> env \<Rightarrow> string option \<Rightarrow> (Request \<Rightarrow> db \<Rightarrow> Response \<times> db) route list" where
  "endpoint_routes v e ctx =
     [(''POST'', [Lit ''v1'', Lit ''webhook-endpoints''], register_endpoint v e ctx),
      (''GET'', [Lit ''v1'', Lit ''webhook-endpoints''], list_endpoints ctx),
      (''DELETE'', [Lit ''v1'', Lit ''webhook-endpoints'', Wild], disable_endpoint ctx)]"

definition NewWebhookEndpointHandler ::
  "WebhookEndpointService \<Rightarrow> env \<Rightarrow> string option \<Rightarrow> Request \<Rightarrow> db \<Rightarrow> Response \<times> db" where
  "NewWebhookEndpointHandler v e ctx = ServeMux (endpoint_routes v e ctx)"

subsection \<open>The limits\<close>

definition tenant_endpoints_ok :: "string \<Rightarrow> db \<Rightarrow> bool" where
  "tenant_endpoints_ok tenant s \<longleftrightarrow>
     length (filter (tenant_active tenant) (endpoints s)) \<le> maxActiveWebhookEndpoints \<and>
     distinct (map we_url (filter (tenant_active tenant) (endpoints s)))"

definition endpoints_ok :: "db \<Rightarrow> bool" where
  "endpoints_ok s \<longleftrightarrow> distinct (map we_id (endpoints s)) \<and> (\<forall>tenant. tenant_endpoints_ok tenant s)"

text \<open>What a tenant's request may change: nothing but the endpoints, and of those only its own.\<close>

definition endpoint_frame :: "string \<Rightarrow> db \<Rightarrow> db \<Rightarrow> bool" where
  "endpoint_frame tenant s s' \<longleftrightarrow> (\<exists>t. s' = s\<lparr>endpoints := t\<rparr> \<and>
     filter (\<lambda>w. we_tenant w \<noteq> tenant) t = filter (\<lambda>w. we_tenant w \<noteq> tenant) (endpoints s))"

lemma endpoint_frame_refl [simp]: "endpoint_frame tenant s s"
  by (auto simp: endpoint_frame_def intro: exI [of _ "endpoints s"])

lemma Endpoint_Register_Inr:
  assumes "Endpoint_Register v e tenant u s = Inr (endpoint, secret, s')"
  obtains w where "s' = s\<lparr>endpoints := endpoints s @ [w]\<rparr>" and "we_tenant w = tenant" and "we_active w" and
    "validateWebhookURL (ws_url_Parse v) u (ws_allowPrivateURLs v) = Inr (we_url w)" and
    "we_id w \<notin> set (map we_id (endpoints s))" and
    "list_all (\<lambda>x. we_url x \<noteq> we_url w) (filter (tenant_active tenant) (endpoints s))" and
    "length (filter (tenant_active tenant) (endpoints s)) < maxActiveWebhookEndpoints" and
    "endpoint = endpoint_of w" and "secret = we_secret w"
proof -
  from assms obtain x h h' where
    "validateWebhookURL (ws_url_Parse v) u (ws_allowPrivateURLs v) = Inr x" and
    "\<not> list_ex (\<lambda>w. we_url w = x) (filter (tenant_active tenant) (endpoints s))" and
    "length (filter (tenant_active tenant) (endpoints s)) < maxActiveWebhookEndpoints" and
    "''whe_'' @ h \<notin> set (map we_id (endpoints s))" and
    "endpoint = \<lparr>ep_ID = ''whe_'' @ h, ep_URL = x, ep_Active = True, ep_CreatedAt = env_now e\<rparr>" and
    "secret = ''whsec_'' @ RawURLEncoding (hex_bytes h')" and
    "s' = s\<lparr>endpoints := endpoints s @ [\<lparr>we_id = ''whe_'' @ h, we_tenant = tenant, we_url = x,
        we_secret = ''whsec_'' @ RawURLEncoding (hex_bytes h'), we_active = True, we_created_at = env_now e\<rparr>]\<rparr>"
    unfolding Endpoint_Register_def insert_endpoint_def Let_def by (auto simp: result_simps not_le split: if_splits)
  then show thesis
    by (intro that [of "\<lparr>we_id = ''whe_'' @ h, we_tenant = tenant, we_url = x,
        we_secret = ''whsec_'' @ RawURLEncoding (hex_bytes h'), we_active = True, we_created_at = env_now e\<rparr>"])
      (simp_all add: endpoint_of_def list_all_iff list_ex_iff)
qed

lemma Endpoint_Disable_Inr:
  assumes "Endpoint_Disable tenant i s = Inr s'"
  shows "s' = s\<lparr>endpoints := update_where (\<lambda>w. we_id w = i \<and> tenant_active tenant w) (\<lambda>w. w\<lparr>we_active := False\<rparr>) (endpoints s)\<rparr>"
  using assms by (auto simp: Endpoint_Disable_def Let_def split: if_splits)

lemma Endpoint_Register_frame: "Endpoint_Register v e tenant u s = Inr (endpoint, secret, s') \<Longrightarrow> endpoint_frame tenant s s'"
  by (erule Endpoint_Register_Inr) (auto simp: endpoint_frame_def)

lemma filter_update_where:
  "(\<And>r. P r \<Longrightarrow> \<not> Q r \<and> \<not> Q (f r)) \<Longrightarrow> filter Q (update_where P f t) = filter Q t"
  by (induction t) auto

lemma Endpoint_Disable_frame: "Endpoint_Disable tenant i s = Inr s' \<Longrightarrow> endpoint_frame tenant s s'"
  by (drule Endpoint_Disable_Inr)
    (auto simp: endpoint_frame_def tenant_active_def intro!: filter_update_where)

lemma Endpoint_Register_keeps:
  assumes "Endpoint_Register v e tenant u s = Inr (endpoint, secret, s')" and "endpoints_ok s"
  shows "endpoints_ok s'"
proof -
  from assms(1) obtain w where s': "s' = s\<lparr>endpoints := endpoints s @ [w]\<rparr>" and w: "we_tenant w = tenant" "we_active w" and
    new: "we_id w \<notin> set (map we_id (endpoints s))"
    "list_all (\<lambda>x. we_url x \<noteq> we_url w) (filter (tenant_active tenant) (endpoints s))"
    "length (filter (tenant_active tenant) (endpoints s)) < maxActiveWebhookEndpoints" by (rule Endpoint_Register_Inr)
  have "tenant_endpoints_ok t s'" for t
    using assms(2) new w by (auto simp: endpoints_ok_def tenant_endpoints_ok_def s' tenant_active_def list_all_iff)
  with assms(2) new(1) show ?thesis by (simp add: endpoints_ok_def s')
qed

lemma filter_deactivated:
  "filter (tenant_active t) (update_where P (\<lambda>w. w\<lparr>we_active := False\<rparr>) ws) =
     filter (\<lambda>w. tenant_active t w \<and> \<not> P w) ws"
  by (induction ws) (auto simp: tenant_active_def)

lemma Endpoint_Disable_keeps:
  assumes "Endpoint_Disable tenant i s = Inr s'" and "endpoints_ok s"
  shows "endpoints_ok s'"
proof -
  let ?P = "\<lambda>w. we_id w = i \<and> tenant_active tenant w"
  note s' = Endpoint_Disable_Inr [OF assms(1)]
  have f: "filter (tenant_active t) (endpoints s') = filter (\<lambda>w. \<not> ?P w) (filter (tenant_active t) (endpoints s))" for t
    by (simp add: s' filter_deactivated conj_commute)
  have "tenant_endpoints_ok t s'" for t
  proof -
    have "tenant_endpoints_ok t s" using assms(2) by (simp add: endpoints_ok_def)
    then show ?thesis unfolding tenant_endpoints_ok_def f
      by (blast intro: distinct_map_filter order_trans [OF length_filter_le])
  qed
  moreover have "distinct (map we_id (endpoints s'))"
    using assms(2) by (simp add: s' endpoints_ok_def map_update_where)
  ultimately show ?thesis by (simp add: endpoints_ok_def)
qed

subsection \<open>Requests\<close>

lemma register_endpoint_effect:
  assumes "register_endpoint v e ctx r s = (reply, s')"
  shows "response_ok reply"
    and "s' \<noteq> s \<Longrightarrow> \<exists>tenant endpoint secret u. ctx = Some tenant \<and> Endpoint_Register v e tenant u s = Inr (endpoint, secret, s')"
  using assms by (auto simp: register_endpoint_def no_tenant_key_def response_ok.simps
      split: sum.splits option.splits if_splits)

lemma list_endpoints_effect:
  assumes "list_endpoints ctx r s = (reply, s')"
  shows "response_ok reply" "s' = s"
  using assms by (auto simp: list_endpoints_def no_tenant_key_def response_ok.simps split: option.splits)

lemma disable_endpoint_effect:
  assumes "disable_endpoint ctx r s = (reply, s')"
  shows "response_ok reply"
    and "s' \<noteq> s \<Longrightarrow> \<exists>tenant. ctx = Some tenant \<and> Endpoint_Disable tenant (rq_id r) s = Inr s'"
  using assms by (auto simp: disable_endpoint_def no_tenant_key_def response_ok.simps
      split: sum.splits option.splits if_splits)

lemmas endpoint_effects = register_endpoint_effect list_endpoints_effect disable_endpoint_effect

lemma endpoint_handler_cases:
  assumes "NewWebhookEndpointHandler v e ctx r s = (reply, s')"
  shows "response_ok reply" and "s' = s \<or> (\<exists>tenant. ctx = Some tenant \<and>
    ((\<exists>u endpoint secret. Endpoint_Register v e tenant u s = Inr (endpoint, secret, s')) \<or>
     (\<exists>i. Endpoint_Disable tenant i s = Inr s')))"
proof -
  show "response_ok reply"
    using assms unfolding NewWebhookEndpointHandler_def endpoint_routes_def
    by (rule ServeMux_induct) (auto dest: endpoint_effects(1,3,5))
  show "s' = s \<or> (\<exists>tenant. ctx = Some tenant \<and>
    ((\<exists>u endpoint secret. Endpoint_Register v e tenant u s = Inr (endpoint, secret, s')) \<or>
     (\<exists>i. Endpoint_Disable tenant i s = Inr s')))"
    using assms unfolding NewWebhookEndpointHandler_def endpoint_routes_def
  proof (rule ServeMux_induct)
    fix m p h i
    assume "(m, p, h) \<in> set [(''POST'', [Lit ''v1'', Lit ''webhook-endpoints''], register_endpoint v e ctx),
        (''GET'', [Lit ''v1'', Lit ''webhook-endpoints''], list_endpoints ctx),
        (''DELETE'', [Lit ''v1'', Lit ''webhook-endpoints'', Wild], disable_endpoint ctx)]" and
      run: "h (r\<lparr>rq_id := i\<rparr>) s = (reply, s')"
    then consider "h = register_endpoint v e ctx" | "h = list_endpoints ctx" | "h = disable_endpoint ctx" by auto
    then show "s' = s \<or> (\<exists>tenant. ctx = Some tenant \<and>
      ((\<exists>u endpoint secret. Endpoint_Register v e tenant u s = Inr (endpoint, secret, s')) \<or>
       (\<exists>i. Endpoint_Disable tenant i s = Inr s')))"
      using run by cases (blast dest: endpoint_effects)+
  qed simp
qed

lemma endpoint_handler_keeps:
  "NewWebhookEndpointHandler v e ctx r s = (reply, s') \<Longrightarrow> endpoints_ok s \<Longrightarrow> endpoints_ok s'"
  by (drule endpoint_handler_cases(2)) (blast intro: Endpoint_Register_keeps Endpoint_Disable_keeps)

lemma endpoint_handler_frame:
  "NewWebhookEndpointHandler v e (Some tenant) r s = (reply, s') \<Longrightarrow> endpoint_frame tenant s s'"
  by (drule endpoint_handler_cases(2)) (auto intro: Endpoint_Register_frame Endpoint_Disable_frame)

interpretation endpoint_gate: tenant_service "NewWebhookEndpointHandler v e" endpoints_ok endpoint_frame for v e
  by unfold_locales (auto dest: endpoint_handler_frame endpoint_handler_cases intro: endpoint_handler_keeps)

end
