(* ===== verification/Operator_Api.thy ===== *)
theory Operator_Api
  imports Api_Keys Payout_Saga
begin

text \<open>
  The operator endpoints that act on payments: the resolution of a manual review (\<^verbatim>\<open>paymentapi/operator.go\<close>)
  and, with the mock provider, the emission of a settlement outcome (\<^verbatim>\<open>paymentapi/local_settlement.go\<close>).
\<close>

subsection \<open>Manual review\<close>

record review_input =
  ri_Action :: string
  ri_Operator :: string
  ri_Note :: string

definition decode_review :: "raw \<Rightarrow> review_input option" where
  "decode_review b = Option.bind (strict_object [''action'', ''operator'', ''note''] b) (\<lambda>ms.
     Option.bind (decode_str ''action'' ms '''') (\<lambda>action.
     Option.bind (decode_str ''operator'' ms '''') (\<lambda>operator.
     Option.bind (decode_str ''note'' ms '''') (\<lambda>note.
       Some \<lparr>ri_Action = TrimSpace action, ri_Operator = TrimSpace operator, ri_Note = TrimSpace note\<rparr>))))"

definition review_error :: "err \<Rightarrow> Response" where
  "review_error err = (if err = ErrSagaNotFound then problem 404 (err_text err)
     else if err = ErrNotInManualReview then problem 409 (err_text err)
     else problem 500 ''could not resolve manual review'')"

definition NewOperatorHandler ::
  "sha \<Rightarrow> SagaCoordinator \<Rightarrow> env \<Rightarrow> string \<Rightarrow> Request \<Rightarrow> db \<Rightarrow> Response \<times> db" where
  "NewOperatorHandler sha c e token r s =
     (if \<not> validOperatorToken sha r token then (unauthorized, s)
      else (case decode_single decode_review (rq_body r) of
          Inl err \<Rightarrow> (problem 400 (err_text err), s)
        | Inr input \<Rightarrow>
            if ri_Operator input = '''' \<or> ri_Note input = '''' \<or>
               ri_Action input \<notin> {''retry'', ''complete'', ''fail'', ''return''}
            then (problem 400 ''action must be retry, complete, fail, or return; operator and note are required'', s)
            else (case ResolveManualReview c e (rq_id r) (ri_Action input) (ri_Operator input) (ri_Note input) s of
                Inl err \<Rightarrow> (review_error err, s)
              | Inr s' \<Rightarrow> (writeJSON 202 (Fields_body [(''payment_id'', rq_id r), (''action'', ri_Action input),
                            (''status'', ''accepted'')]), s'))))"

subsection \<open>Local settlement outcomes\<close>

definition local_event_type :: "string \<Rightarrow> string" where
  "local_event_type status =
     (if status = ''completed'' then ''payout.provider_completed'' else if status = ''failed'' then ''payout.provider_failed''
      else if status = ''refunded'' then ''payout.provider_returned'' else '''')"

definition Millisecond :: duration where
  "Millisecond = 1000000"

definition Emit :: "env \<Rightarrow> string \<Rightarrow> string \<Rightarrow> string \<Rightarrow> duration \<Rightarrow> db \<Rightarrow> db result" where
  "Emit e payment status reason delay s =
     (let ty = local_event_type status; now = env_now e in
      if ty = '''' then Inl (ErrText ''status must be completed, failed, or refunded'')
      else if \<not> has_saga payment s then Inl ErrNoRows
      else bindE (newID ''evt_'' 0 e) (\<lambda>i.
        insert_outbox ((new_outbox i PayoutEventsTopic ty 1 payment ''payout''
            (Raw (JObj [(''reason'', JStr reason)])) now)\<lparr>ob_next_attempt := now + delay\<rparr>) s))"

record settlement_input =
  si_Status :: string
  si_Reason :: string
  si_DelayMilliseconds :: int

definition decode_settlement :: "raw \<Rightarrow> settlement_input option" where
  "decode_settlement b = Option.bind (any_object b) (\<lambda>ms.
     Option.bind (decode_str ''status'' ms '''') (\<lambda>status.
     Option.bind (decode_str ''reason'' ms '''') (\<lambda>reason.
     Option.bind (decode_int ''delay_milliseconds'' ms 0) (\<lambda>delay.
       Some \<lparr>si_Status = status, si_Reason = reason, si_DelayMilliseconds = delay\<rparr>))))"

definition emit_error :: "string \<Rightarrow> err \<Rightarrow> Response" where
  "emit_error status err =
     (if err = ErrNoRows then problem 404 ''payment saga not found''
      else if status \<notin> {''completed'', ''failed'', ''refunded''} then problem 400 (err_text err)
      else problem 500 ''could not emit local settlement outcome'')"

text \<open>Only the first JSON text of the body is read, and unknown fields are ignored.\<close>

definition NewLocalSettlementHandler :: "sha \<Rightarrow> env \<Rightarrow> string \<Rightarrow> Request \<Rightarrow> db \<Rightarrow> Response \<times> db" where
  "NewLocalSettlementHandler sha e token r s =
     (if \<not> validOperatorToken sha r token then (unauthorized, s)
      else (case (case rq_body r of [] \<Rightarrow> None | b # _ \<Rightarrow> decode_settlement b) of
          None \<Rightarrow> (problem 400 ''invalid JSON request body'', s)
        | Some input \<Rightarrow>
            if si_DelayMilliseconds input < 0 \<or> 10000 < si_DelayMilliseconds input
            then (problem 400 ''delay_milliseconds must be between 0 and 10000'', s)
            else (case Emit e (rq_id r) (si_Status input) (si_Reason input) (si_DelayMilliseconds input * Millisecond) s of
                Inl err \<Rightarrow> (emit_error (si_Status input) err, s)
              | Inr s' \<Rightarrow> (writeJSON 202 (Fields_body [(''payment_id'', rq_id r), (''status'', si_Status input)]), s'))))"

subsection \<open>Effects\<close>

lemma Emit_shape: "Emit e payment status reason delay s = Inr s' \<Longrightarrow> \<exists>ob n. s' = s\<lparr>outbox := ob, outbox_seq := n\<rparr>"
  by (auto simp: Emit_def Let_def bindE_Inr_iff split: if_splits dest: insert_outbox_shape)

lemma Emit_keeps: "Emit e payment status reason delay s = Inr s' \<Longrightarrow> store_ok s \<Longrightarrow> store_ok s'"
  by (auto simp: Emit_def Let_def bindE_Inr_iff split: if_splits intro: insert_outbox_keeps)

lemma unauthorized_ok [simp]: "response_ok unauthorized"
  by (simp add: unauthorized_def)

lemma NewOperatorHandler_cases:
  assumes "NewOperatorHandler sha c e token r s = (reply, s')"
  shows "response_ok reply" and "s' = s \<or> validOperatorToken sha r token \<and>
    (\<exists>action operator note. ResolveManualReview c e (rq_id r) action operator note s = Inr s')"
  using assms by (auto simp: NewOperatorHandler_def review_error_def split: if_splits sum.splits)

lemma NewLocalSettlementHandler_cases:
  assumes "NewLocalSettlementHandler sha e token r s = (reply, s')"
  shows "response_ok reply" and "s' = s \<or> validOperatorToken sha r token \<and>
    (\<exists>status reason delay. Emit e (rq_id r) status reason delay s = Inr s' \<and> 0 \<le> delay \<and> delay \<le> 10 * Second)"
proof -
  show "response_ok reply"
    using assms by (auto simp: NewLocalSettlementHandler_def emit_error_def split: if_splits sum.splits option.splits)
  show "s' = s \<or> validOperatorToken sha r token \<and>
    (\<exists>status reason delay. Emit e (rq_id r) status reason delay s = Inr s' \<and> 0 \<le> delay \<and> delay \<le> 10 * Second)"
  proof (cases "s' = s")
    case False
    with assms obtain st rn d where "Emit e (rq_id r) st rn (d * Millisecond) s = Inr s'" "0 \<le> d" "d \<le> 10000" "validOperatorToken sha r token"
      by (auto simp: NewLocalSettlementHandler_def not_less split: if_splits sum.splits option.splits)
    moreover from this have "0 \<le> d * Millisecond \<and> d * Millisecond \<le> 10 * Second"
      by (simp add: Millisecond_def Second_def)
    ultimately show ?thesis by blast
  qed simp
qed

end
