(* ===== verification/Observability.thy ===== *)
theory Observability
  imports Http
begin

text \<open>
  The telemetry around a handler (\<^verbatim>\<open>observability/http.go\<close>): the response writer that remembers the first
  status, the middleware that counts requests, errors and time in 64-bit counters, and the endpoint that
  prints them. The request identifier and the log line are not modelled.
\<close>

record statusWriter =
  sw_status :: int
  sw_wrote :: bool
  sw_sent :: "int list"

definition WriteHeader :: "int \<Rightarrow> statusWriter \<Rightarrow> statusWriter" where
  "WriteHeader st w = (if sw_wrote w then w
     else w\<lparr>sw_wrote := True, sw_status := st, sw_sent := sw_sent w @ [st]\<rparr>)"

definition Write :: "statusWriter \<Rightarrow> statusWriter" where
  "Write w = (if sw_wrote w then w else WriteHeader 200 w)"

definition new_writer :: statusWriter where
  "new_writer = \<lparr>sw_status = 200, sw_wrote = False, sw_sent = []\<rparr>"

text \<open>A handler writes its header once and then its body, if it has one.\<close>

definition respond :: "Response \<Rightarrow> statusWriter \<Rightarrow> statusWriter" where
  "respond reply w = (let w' = WriteHeader (hr_status reply) w in if hr_body reply = NoBody then w' else Write w')"

definition count_request :: "duration \<Rightarrow> statusWriter \<Rightarrow> Metrics \<Rightarrow> Metrics" where
  "count_request elapsed w m =
     m\<lparr>mt_requests := mt_requests m + 1, mt_durationNanos := mt_durationNanos m + word_of_int elapsed,
       mt_errors := mt_errors m + (if 500 \<le> sw_status w then 1 else 0)\<rparr>"

definition Metrics_Middleware ::
  "duration \<Rightarrow> (Request \<Rightarrow> 's \<Rightarrow> Response \<times> 's) \<Rightarrow> Request \<Rightarrow> 's \<times> Metrics \<Rightarrow> Response \<times> 's \<times> Metrics" where
  "Metrics_Middleware elapsed next r sm =
     (case sm of (s, m) \<Rightarrow> case next r s of (reply, s') \<Rightarrow>
        (reply, s', count_request elapsed (respond reply new_writer) m))"

definition Metrics_Handler :: "Metrics \<Rightarrow> Response" where
  "Metrics_Handler m = writeJSON 200 (Metrics_body m)"

text \<open>The status that is counted is the one that was sent.\<close>

lemma respond_status: "sw_status (respond reply new_writer) = hr_status reply \<and> sw_sent (respond reply new_writer) = [hr_status reply]"
  by (simp add: respond_def Let_def WriteHeader_def Write_def new_writer_def)

lemma Metrics_Handler_ok [simp]: "response_ok (Metrics_Handler m)"
  by (simp add: Metrics_Handler_def response_ok.simps)

text \<open>Fewer errors than requests are counted, until a counter wraps.\<close>

lemma count_request_errors:
  assumes "unat (mt_errors m) \<le> unat (mt_requests m)" and "mt_requests m \<noteq> -1"
  shows "unat (mt_errors (count_request elapsed w m)) \<le> unat (mt_requests (count_request elapsed w m))"
proof -
  have r: "unat (mt_requests m + 1) = Suc (unat (mt_requests m))"
    using assms(2) unatSuc [of "mt_requests m"] by (metis add.commute add_eq_0_iff)
  have "mt_errors m \<noteq> -1 \<or> mt_requests m = -1" using assms(1) by (metis word_le_nat_alt word_order.extremum_unique)
  then have "unat (mt_errors m + 1) = Suc (unat (mt_errors m))"
    using assms(2) unatSuc by (metis add.commute add_eq_0_iff)
  with r assms(1) show ?thesis by (simp add: count_request_def)
qed

end
