(* ===== verification/Server.thy ===== *)
theory Server
  imports Tenancy Api_Endpoints Operator_Api Observability
begin

text \<open>
  The HTTP server of the process: the root multiplexer of \<^verbatim>\<open>cmd/stablerail/main.go\<close> over the handlers of the
  API, with what each handler works on: the database, the table of API keys and the counters.

  The theorems: every answer is well formed; no sequence of requests breaks the invariants of the gateway; a
  request without a key of the table, or without the operator's token, changes nothing; a tenant's request
  writes only what is the tenant's, and the answer to a read depends only on what is the tenant's.
\<close>

subsection \<open>The root multiplexer\<close>

record Server =
  sv_handler :: Handler
  sv_endpoints :: WebhookEndpointService
  sv_coordinator :: SagaCoordinator
  sv_operator_token :: string
  sv_mock :: bool
  sv_blindpay :: "WebhookVerifier option"

text \<open>The standard library: SHA-256, HMAC-SHA256 and the JSON parser.\<close>

record stdlib =
  lib_sha :: sha
  lib_hmac :: mac
  lib_json :: "string \<Rightarrow> raw"

type_synonym gateway = "(db \<times> api_key_row list) \<times> Metrics"

definition on_db :: "(Request \<Rightarrow> db \<Rightarrow> Response \<times> db) \<Rightarrow> Request \<Rightarrow> gateway \<Rightarrow> Response \<times> gateway" where
  "on_db f r g = (case g of ((s, ks), m) \<Rightarrow> case f r s of (reply, s') \<Rightarrow> (reply, ((s', ks), m)))"

definition on_keys ::
  "(Request \<Rightarrow> api_key_row list \<Rightarrow> Response \<times> api_key_row list) \<Rightarrow> Request \<Rightarrow> gateway \<Rightarrow> Response \<times> gateway" where
  "on_keys f r g = (case g of ((s, ks), m) \<Rightarrow> case f r ks of (reply, ks') \<Rightarrow> (reply, ((s, ks'), m)))"

definition on_gate ::
  "(Request \<Rightarrow> db \<times> api_key_row list \<Rightarrow> Response \<times> db \<times> api_key_row list) \<Rightarrow> Request \<Rightarrow> gateway \<Rightarrow> Response \<times> gateway" where
  "on_gate f r g = (case g of (sk, m) \<Rightarrow> case f r sk of (reply, sk') \<Rightarrow> (reply, (sk', m)))"

definition metrics_route :: "Request \<Rightarrow> gateway \<Rightarrow> Response \<times> gateway" where
  "metrics_route r g = (Metrics_Handler (snd g), g)"

text \<open>The status of the BlindPay handler with the text of \<^verbatim>\<open>http.Error\<close>.\<close>

definition webhook_reply :: "int \<Rightarrow> Response" where
  "webhook_reply code = writeJSON code (if code = 204 then NoBody
     else Text (if code = 400 then ''invalid webhook body'' else if code = 401 then ''invalid webhook signature''
                else ''could not process webhook''))"

definition blindpay_route ::
  "stdlib \<Rightarrow> WebhookVerifier \<Rightarrow> env \<Rightarrow> bp_request \<Rightarrow> Request \<Rightarrow> db \<Rightarrow> Response \<times> db" where
  "blindpay_route lib v e w r s =
     (case NewWebhookHandler (lib_hmac lib) (lib_json lib) v e w s of (code, s') \<Rightarrow> (webhook_reply code, s'))"

definition operator_routes :: "Server \<Rightarrow> stdlib \<Rightarrow> env \<Rightarrow> (Request \<Rightarrow> gateway \<Rightarrow> Response \<times> gateway) route list" where
  "operator_routes sv lib e =
     (let sha = lib_sha lib; token = sv_operator_token sv in
      if token = '''' then []
      else [(''POST'', [Lit ''v1'', Lit ''operator'', Lit ''payments'', Wild, Lit ''manual-review''],
               on_db (NewOperatorHandler sha (sv_coordinator sv) e token)),
            (''POST'', [Lit ''v1'', Lit ''operator'', Lit ''tenants'', Wild, Lit ''api-keys''],
               on_keys (NewAPIKeyOperatorHandler sha e token)),
            (''DELETE'', [Lit ''v1'', Lit ''operator'', Lit ''api-keys'', Wild],
               on_keys (NewAPIKeyRevokeOperatorHandler sha e token))] @
           (if sv_mock sv
            then [(''POST'', [Lit ''v1'', Lit ''operator'', Lit ''mock-settlements'', Wild],
                     on_db (NewLocalSettlementHandler sha e token))]
            else []))"

definition endpoint_gate_route :: "Server \<Rightarrow> stdlib \<Rightarrow> env \<Rightarrow> Request \<Rightarrow> gateway \<Rightarrow> Response \<times> gateway" where
  "endpoint_gate_route sv lib e = on_gate (Middleware (lib_sha lib) e (NewWebhookEndpointHandler (sv_endpoints sv) e))"

text \<open>\<open>w\<close> is the request as the BlindPay handler reads it: its bytes and the signature headers.\<close>

definition root_routes ::
  "Server \<Rightarrow> stdlib \<Rightarrow> env \<Rightarrow> bp_request \<Rightarrow> (Request \<Rightarrow> gateway \<Rightarrow> Response \<times> gateway) route list" where
  "root_routes sv lib e w =
     ('''', [Lit ''metrics''], metrics_route) # operator_routes sv lib e @
     (case sv_blindpay sv of None \<Rightarrow> []
      | Some v \<Rightarrow> [(''POST'', [Lit ''v1'', Lit ''providers'', Lit ''blindpay'', Lit ''webhooks''],
                    on_db (blindpay_route lib v e w))]) @
     [(''POST'', [Lit ''v1'', Lit ''webhook-endpoints''], endpoint_gate_route sv lib e),
      (''GET'', [Lit ''v1'', Lit ''webhook-endpoints''], endpoint_gate_route sv lib e),
      (''DELETE'', [Lit ''v1'', Lit ''webhook-endpoints'', Wild], endpoint_gate_route sv lib e)]"

text \<open>Every other path is the payment handler's, behind the keys and the counters.\<close>

definition serve ::
  "Server \<Rightarrow> stdlib \<Rightarrow> env \<Rightarrow> duration \<Rightarrow> bp_request \<Rightarrow> Request \<Rightarrow> gateway \<Rightarrow> Response \<times> gateway" where
  "serve sv lib e elapsed w r g =
     (case find_route (root_routes sv lib e w) r of
        Some (h, i) \<Rightarrow> h (r\<lparr>rq_id := i\<rparr>) g
      | None \<Rightarrow> Metrics_Middleware elapsed (Middleware (lib_sha lib) e (NewHandler (sv_handler sv) e)) r g)"

subsection \<open>The handler of a request\<close>

definition operator_path :: "Request \<Rightarrow> bool" where
  "operator_path r \<longleftrightarrow> take 2 (rq_path r) = [''v1'', ''operator'']"

definition provider_path :: "Request \<Rightarrow> bool" where
  "provider_path r \<longleftrightarrow> take 2 (rq_path r) = [''v1'', ''providers'']"

lemma on_route_iff:
  "on_db f r ((s, ks), m) = (reply, g') \<longleftrightarrow> (\<exists>s'. f r s = (reply, s') \<and> g' = ((s', ks), m))"
  "on_keys f' r ((s, ks), m) = (reply, g') \<longleftrightarrow> (\<exists>ks'. f' r ks = (reply, ks') \<and> g' = ((s, ks'), m))"
  "on_gate f'' r (sk, m) = (reply, g') \<longleftrightarrow> (\<exists>sk'. f'' r sk = (reply, sk') \<and> g' = (sk', m))"
  by (auto simp: on_db_def on_keys_def on_gate_def split: prod.splits)

lemma serve_cases [consumes 1, case_names metrics review issue revoke settlement webhook endpoints payments]:
  assumes "serve sv lib e elapsed w r ((s, ks), m) = (reply, ((s', ks'), m'))"
  obtains "rq_path r = [''metrics'']" "reply = Metrics_Handler m" "s' = s" "ks' = ks"
  | i where "operator_path r" "ks' = ks"
      "NewOperatorHandler (lib_sha lib) (sv_coordinator sv) e (sv_operator_token sv) (r\<lparr>rq_id := i\<rparr>) s = (reply, s')"
  | i where "operator_path r" "s' = s"
      "NewAPIKeyOperatorHandler (lib_sha lib) e (sv_operator_token sv) (r\<lparr>rq_id := i\<rparr>) ks = (reply, ks')"
  | i where "operator_path r" "s' = s"
      "NewAPIKeyRevokeOperatorHandler (lib_sha lib) e (sv_operator_token sv) (r\<lparr>rq_id := i\<rparr>) ks = (reply, ks')"
  | i where "operator_path r" "ks' = ks"
      "NewLocalSettlementHandler (lib_sha lib) e (sv_operator_token sv) (r\<lparr>rq_id := i\<rparr>) s = (reply, s')"
  | v code where "provider_path r" "ks' = ks" "sv_blindpay sv = Some v" "reply = webhook_reply code"
      "NewWebhookHandler (lib_hmac lib) (lib_json lib) v e w s = (code, s')"
  | i where "take 2 (rq_path r) = [''v1'', ''webhook-endpoints'']"
      "Middleware (lib_sha lib) e (NewWebhookEndpointHandler (sv_endpoints sv) e) (r\<lparr>rq_id := i\<rparr>) (s, ks) = (reply, s', ks')"
  | "rq_path r \<noteq> [''metrics'']" "Middleware (lib_sha lib) e (NewHandler (sv_handler sv) e) r (s, ks) = (reply, s', ks')"
proof (cases "find_route (root_routes sv lib e w) r")
  case None
  then have "rq_path r \<noteq> [''metrics'']" by (auto simp: root_routes_def method_ok_def)
  with None assms show thesis by (intro that(8)) (auto simp: serve_def Metrics_Middleware_def split: prod.splits)
next
  case (Some x)
  then obtain h i where x: "find_route (root_routes sv lib e w) r = Some (h, i)" by (cases x) auto
  with assms have run: "h (r\<lparr>rq_id := i\<rparr>) ((s, ks), m) = (reply, ((s', ks'), m'))" by (simp add: serve_def)
  from find_route_match [OF x] obtain mt p where "(mt, p, h) \<in> set (root_routes sv lib e w)" and
    path: "match_path p (rq_path r) '''' = Some i" by blast
  then consider "p = [Lit ''metrics'']" "h = metrics_route"
    | ps where "p = Lit ''v1'' # Lit ''operator'' # ps" "h = on_db (NewOperatorHandler (lib_sha lib) (sv_coordinator sv) e (sv_operator_token sv))"
    | ps where "p = Lit ''v1'' # Lit ''operator'' # ps" "h = on_keys (NewAPIKeyOperatorHandler (lib_sha lib) e (sv_operator_token sv))"
    | ps where "p = Lit ''v1'' # Lit ''operator'' # ps" "h = on_keys (NewAPIKeyRevokeOperatorHandler (lib_sha lib) e (sv_operator_token sv))"
    | ps where "p = Lit ''v1'' # Lit ''operator'' # ps" "h = on_db (NewLocalSettlementHandler (lib_sha lib) e (sv_operator_token sv))"
    | v ps where "p = Lit ''v1'' # Lit ''providers'' # ps" "sv_blindpay sv = Some v" "h = on_db (blindpay_route lib v e w)"
    | ps where "p = Lit ''v1'' # Lit ''webhook-endpoints'' # ps" "h = endpoint_gate_route sv lib e"
    by (cases "sv_blindpay sv") (auto simp: root_routes_def operator_routes_def Let_def split: if_splits)
  then show thesis
  proof cases
    case 1
    from path 1 have "rq_path r = [''metrics'']" using match_path_one by simp
    with 1 run show thesis by (intro that(1)) (auto simp: metrics_route_def)
  next
    case 2
    with path run match_path_two show thesis by (intro that(2) [of i]) (auto simp: operator_path_def on_route_iff)
  next
    case 3
    with path run match_path_two show thesis by (intro that(3) [of i]) (auto simp: operator_path_def on_route_iff)
  next
    case 4
    with path run match_path_two show thesis by (intro that(4) [of i]) (auto simp: operator_path_def on_route_iff)
  next
    case 5
    with path run match_path_two show thesis by (intro that(5) [of i]) (auto simp: operator_path_def on_route_iff)
  next
    case (6 v)
    obtain code t where c: "NewWebhookHandler (lib_hmac lib) (lib_json lib) v e w s = (code, t)" by fastforce
    with 6 run have "t = s' \<and> reply = webhook_reply code \<and> ks' = ks" by (auto simp: on_route_iff blindpay_route_def)
    with c 6 path match_path_two show thesis by (intro that(6) [of v code]) (auto simp: provider_path_def)
  next
    case 7
    with path run match_path_two show thesis by (intro that(7) [of i]) (auto simp: endpoint_gate_route_def on_route_iff)
  qed
qed

subsection \<open>The invariants of the gateway\<close>

definition gateway_ok :: "gateway \<Rightarrow> bool" where
  "gateway_ok g \<longleftrightarrow> (case g of ((s, ks), m) \<Rightarrow> ledger_ok s \<and> quotes_linked s \<and> endpoints_ok s \<and> keys_ok ks)"

text \<open>Operators and the provider touch neither quotes nor endpoints.\<close>

lemma endpoints_ok_frame: "endpoints s' = endpoints s \<Longrightarrow> endpoints_ok s' = endpoints_ok s"
  by (simp add: endpoints_ok_def tenant_endpoints_ok_def)

lemma quotes_linked_frame: "quotes s' = quotes s \<Longrightarrow> quotes_linked s' = quotes_linked s"
  by (simp add: quotes_linked_def)

definition side_effect :: "db \<Rightarrow> db \<Rightarrow> bool" where
  "side_effect s s' \<longleftrightarrow> books_step s s' \<and> quotes s' = quotes s \<and> endpoints s' = endpoints s"

lemma side_effect_refl [simp]: "side_effect s s"
  by (simp add: side_effect_def)

lemma tx_side_effect: "tx_effect s s' \<Longrightarrow> side_effect s s'"
  using tx_effect_books by (simp add: side_effect_def tx_effect_def)

lemma ResolveManualReview_side_effect:
  assumes "ResolveManualReview c e i action operator note s = Inr s'"
  shows "side_effect s s'"
proof -
  from assms obtain st' command timeout r where
    "updateAndCommand e 0 i ''manual_review'' st' command timeout note (s\<lparr>reviews := reviews s @ [r]\<rparr>) = Inr s'"
    by (rule ResolveManualReview_cases)
  from updateAndCommand_Inr [OF this] have "quotes s' = quotes s \<and> endpoints s' = endpoints s"
    by (auto simp: set_saga_def)
  with ResolveManualReview_books [OF assms] show ?thesis by (simp add: side_effect_def)
qed

lemma Emit_side_effect: "Emit e payment status reason delay s = Inr s' \<Longrightarrow> side_effect s s'"
  using Emit_shape [of e payment status reason delay s s'] Emit_keeps [of e payment status reason delay s s']
  by (auto intro!: tx_side_effect tx_effectI)

lemma NewWebhookHandler_side_effect: "NewWebhookHandler hmac parse v e req s = (code, s') \<Longrightarrow> side_effect s s'"
  by (auto simp: NewWebhookHandler_def bp_effect_def split: if_splits sum.splits dest!: bp_Process_effect intro: tx_side_effect)

lemma side_effect_ok:
  assumes "side_effect s s'" and "gateway_ok ((s, ks), m)"
  shows "gateway_ok ((s', ks), m')"
  using assms endpoints_ok_frame [of s' s] quotes_linked_frame [of s' s]
  by (simp add: gateway_ok_def side_effect_def books_step_def)

lemma key_handlers_step:
  "NewAPIKeyOperatorHandler sha e token r ks = (reply, ks') \<Longrightarrow> response_ok reply \<and> (ks' = ks \<or> key_step sha ks ks' \<and> validOperatorToken sha r token)"
  "NewAPIKeyRevokeOperatorHandler sha e token r ks = (reply, ks') \<Longrightarrow> response_ok reply \<and> (ks' = ks \<or> key_step sha ks ks' \<and> validOperatorToken sha r token)"
  by (auto simp: NewAPIKeyOperatorHandler_def NewAPIKeyRevokeOperatorHandler_def
      split: if_splits option.splits list.splits sum.splits prod.splits intro: key_step.intros)

lemma key_step_keys_ok: "key_step sha ks ks' \<Longrightarrow> keys_ok ks \<Longrightarrow> keys_ok ks'"
  using key_step_evolve by (auto simp: keys_evolve_def)

lemma webhook_reply_ok: "NewWebhookHandler hmac parse v e req s = (code, s') \<Longrightarrow> response_ok (webhook_reply code)"
  by (auto simp: NewWebhookHandler_def webhook_reply_def response_ok.simps split: if_splits sum.splits)

lemma endpoint_frame_gateway:
  assumes "endpoint_frame tenant s s'" and "ledger_ok s" and "quotes_linked s"
  shows "ledger_ok s' \<and> quotes_linked s'"
proof -
  from assms(1) obtain t where s': "s' = s\<lparr>endpoints := t\<rparr>" by (auto simp: endpoint_frame_def)
  from s' assms(2) have "ledger_ok s'"
    using ledger_balanced_frame [of s' s] by (simp add: ledger_ok_def store_ok_def has_defs)
  with s' assms(3) show ?thesis by (simp add: quotes_linked_def)
qed

lemma serve_typed:
  assumes "serve sv lib e elapsed w r ((s, ks), m) = (reply, ((s', ks'), m'))"
  shows "response_ok reply"
  using assms
proof (cases rule: serve_cases)
  case (review i)
  from review(3) show ?thesis by (rule NewOperatorHandler_cases(1))
next
  case (settlement i)
  from settlement(3) show ?thesis by (rule NewLocalSettlementHandler_cases(1))
qed (auto dest: key_handlers_step webhook_reply_ok endpoint_gate.gate_typed payment_gate.gate_typed)

lemma serve_ok:
  assumes run: "serve sv lib e elapsed w r ((s, ks), m) = (reply, ((s', ks'), m'))" and ok: "gateway_ok ((s, ks), m)"
  shows "gateway_ok ((s', ks'), m')" and "keys_evolve ks ks'"
proof -
  have keys: "gateway_ok ((s, ks'), m') \<and> keys_evolve ks ks'" if "ks' = ks \<or> key_step (lib_sha lib) ks ks'"
    using that ok key_step_keys_ok key_step_evolve by (auto simp: gateway_ok_def keys_evolve_refl)
  have side: "gateway_ok ((s', ks'), m') \<and> keys_evolve ks ks'" if "side_effect s s'" "ks' = ks"
    using that ok by (auto simp: keys_evolve_refl intro: side_effect_ok)
  from run have "gateway_ok ((s', ks'), m') \<and> keys_evolve ks ks'"
  proof (cases rule: serve_cases)
    case (review i)
    from NewOperatorHandler_cases(2) [OF review(3)] have "side_effect s s'"
      by (auto dest: ResolveManualReview_side_effect)
    with side review(2) show ?thesis by blast
  next
    case (issue i)
    with keys key_handlers_step(1) [OF issue(3)] show ?thesis by blast
  next
    case (revoke i)
    with keys key_handlers_step(2) [OF revoke(3)] show ?thesis by blast
  next
    case (settlement i)
    from NewLocalSettlementHandler_cases(2) [OF settlement(3)] have "side_effect s s'" by (auto dest: Emit_side_effect)
    with side settlement(2) show ?thesis by blast
  next
    case (webhook v code)
    with side NewWebhookHandler_side_effect show ?thesis by blast
  next
    case (endpoints i)
    from ok have ok': "keys_ok ks" "endpoints_ok s" "ledger_ok s" "quotes_linked s" by (simp_all add: gateway_ok_def)
    have "s' = s \<or> (\<exists>tenant. endpoint_frame tenant s s')"
      using endpoint_gate.confined [OF endpoints(2) ok'(1,2)] by auto
    then have "ledger_ok s' \<and> quotes_linked s'" using ok'(3,4) endpoint_frame_gateway by blast
    moreover have "endpoints_ok s'" using endpoint_gate.gate_ok [OF endpoints(2) ok'(1,2)] .
    ultimately show ?thesis using keys [OF endpoint_gate.gate_keys [OF endpoints(2)]] by (simp add: gateway_ok_def)
  next
    case payments
    from ok have ok': "keys_ok ks" "endpoints_ok s" "ledger_ok s" "quotes_linked s" by (simp_all add: gateway_ok_def)
    from payment_gate.confined [OF payments(2) ok'(1,3)]
    have "s' = s \<or> (\<exists>tenant. tenant_owned (env_now e) tenant s s')" by auto
    then have "quotes_linked s' \<and> endpoints_ok s'"
      using ok'(2,4) tenant_owned_linked tenant_owned_frame(7) endpoints_ok_frame by blast
    moreover have "ledger_ok s'" using payment_gate.gate_ok [OF payments(2) ok'(1,3)] .
    ultimately show ?thesis using keys [OF payment_gate.gate_keys [OF payments(2)]] by (simp add: gateway_ok_def)
  qed (use ok in \<open>auto simp: gateway_ok_def keys_evolve_refl\<close>)
  then show "gateway_ok ((s', ks'), m')" and "keys_evolve ks ks'" by blast+
qed

inductive gateway_step :: "Server \<Rightarrow> stdlib \<Rightarrow> gateway \<Rightarrow> gateway \<Rightarrow> bool" for sv lib where
  request: "serve sv lib e elapsed w r g = (reply, g') \<Longrightarrow> gateway_step sv lib g g'"

lemma gateway_step_ok: "gateway_step sv lib g g' \<Longrightarrow> gateway_ok g \<Longrightarrow> gateway_ok g'"
  by (erule gateway_step.cases) (cases g; cases g'; auto dest: serve_ok(1))

lemma gateway_run_ok: "(gateway_step sv lib)\<^sup>*\<^sup>* g g' \<Longrightarrow> gateway_ok g \<Longrightarrow> gateway_ok g'"
  by (induction rule: rtranclp_induct) (auto dest: gateway_step_ok)

subsection \<open>Tenants\<close>

definition tenant_request :: "Request \<Rightarrow> bool" where
  "tenant_request r \<longleftrightarrow> \<not> operator_path r \<and> \<not> provider_path r \<and> rq_path r \<noteq> [''metrics'']"

text \<open>The rows of a tenant.\<close>

definition tenant_rows ::
  "string \<Rightarrow> db \<Rightarrow> payment_row list \<times> payin_row list \<times> refund_row list \<times> endpoint_row list" where
  "tenant_rows t s = (filter (\<lambda>p. pay_tenant p = t) (payments s), filter (\<lambda>r. pi_tenant r = t) (payins s),
     filter (\<lambda>r. rf_tenant r = t) (refunds s), filter (\<lambda>w. we_tenant w = t) (endpoints s))"

text \<open>What a request of one tenant leaves of everybody's data.\<close>

definition foreign_kept :: "time \<Rightarrow> string \<Rightarrow> db \<Rightarrow> db \<Rightarrow> bool" where
  "foreign_kept now tenant s s' \<longleftrightarrow>
     (\<forall>i. has_payment i s \<longrightarrow> GetPayment i s' = GetPayment i s) \<and>
     (\<forall>t. t \<noteq> tenant \<longrightarrow> tenant_rows t s' = tenant_rows t s) \<and>
     (\<forall>q\<in>set (quotes s). q_tenant q \<noteq> tenant \<longrightarrow> q \<in> set (quotes s') \<or>
        q_status q = QuoteOpen \<and> q_expires_at q \<le> now \<and> q\<lparr>q_status := QuoteExpired, q_updated_at := now\<rparr> \<in> set (quotes s'))"

lemma filter_other:
  assumes "filter (\<lambda>w. f w \<noteq> tenant) xs = filter (\<lambda>w. f w \<noteq> tenant) ys" and "t \<noteq> tenant"
  shows "filter (\<lambda>w. f w = t) xs = filter (\<lambda>w. f w = t) ys"
proof -
  have "filter (\<lambda>w. f w = t) zs = filter (\<lambda>w. f w = t) (filter (\<lambda>w. f w \<noteq> tenant) zs)" for zs
    using assms(2) by (auto intro!: filter_cong)
  with assms(1) show ?thesis by metis
qed

lemma GetPayment_endpoints [simp]: "GetPayment i (s\<lparr>endpoints := t\<rparr>) = GetPayment i s"
proof -
  have set: "settlement_of d i (s\<lparr>endpoints := t\<rparr>) = settlement_of d i s" for d
    by (cases d) (simp_all add: settlement_of_def)
  have quote: "quote_of_payment i (s\<lparr>endpoints := t\<rparr>) = quote_of_payment i s" by (simp add: quote_of_payment_def)
  have line: "timeline_of i (s\<lparr>endpoints := t\<rparr>) = timeline_of i s" by (simp add: timeline_of_def)
  show ?thesis unfolding GetPayment_def set quote line by (simp add: find_payment_def)
qed

lemma endpoint_frame_foreign:
  assumes "endpoint_frame tenant s s'"
  shows "foreign_kept now tenant s s'"
proof -
  from assms obtain t where s': "s' = s\<lparr>endpoints := t\<rparr>" and
    t: "filter (\<lambda>w. we_tenant w \<noteq> tenant) t = filter (\<lambda>w. we_tenant w \<noteq> tenant) (endpoints s)"
    by (auto simp: endpoint_frame_def)
  have "tenant_rows t' s' = tenant_rows t' s" if "t' \<noteq> tenant" for t'
    using filter_other [OF t that] by (simp add: tenant_rows_def s')
  then show ?thesis by (simp add: foreign_kept_def s')
qed

lemma tenant_owned_foreign_kept:
  assumes "tenant_owned now tenant s s'" and "quotes_linked s"
  shows "foreign_kept now tenant s s'"
  using tenant_owned_reads [OF assms] tenant_owned_foreign [OF assms(1)] tenant_owned_frame(7) [OF assms(1)]
    quote_foreign_expired [OF assms(1)]
  by (simp add: foreign_kept_def tenant_rows_def)

lemma serve_tenant_cases:
  assumes "serve sv lib e elapsed w r ((s, ks), m) = (reply, ((s', ks'), m'))" and "tenant_request r"
  obtains (endpoints) i where "take 2 (rq_path r) = [''v1'', ''webhook-endpoints'']"
      "Middleware (lib_sha lib) e (NewWebhookEndpointHandler (sv_endpoints sv) e) (r\<lparr>rq_id := i\<rparr>) (s, ks) = (reply, s', ks')"
  | (payments) "Middleware (lib_sha lib) e (NewHandler (sv_handler sv) e) r (s, ks) = (reply, s', ks')"
  using assms by (cases rule: serve_cases) (auto simp: tenant_request_def)

subsection \<open>Reads\<close>

text \<open>What a tenant may see: its payments, with their timelines, and its endpoints.\<close>

definition visible_payment :: "string \<Rightarrow> string \<Rightarrow> db \<Rightarrow> Payment option" where
  "visible_payment t i s = (case GetPayment i s of Inr p \<Rightarrow> if pm_TenantID p = t then Some p else None | Inl _ \<Rightarrow> None)"

definition tenant_sees :: "string \<Rightarrow> db \<Rightarrow> db \<Rightarrow> bool" where
  "tenant_sees t s1 s2 \<longleftrightarrow> (\<forall>i. visible_payment t i s1 = visible_payment t i s2) \<and>
     filter (\<lambda>w. we_tenant w = t) (endpoints s1) = filter (\<lambda>w. we_tenant w = t) (endpoints s2)"

lemma TenantIDFromContext_known [simp]: "t \<noteq> '''' \<Longrightarrow> TenantIDFromContext (Some t) = Some t"
  by (simp add: TenantIDFromContext_def)

lemma GetPayment_Inl: "GetPayment i s = Inl err \<Longrightarrow> err = ErrPaymentNotFound"
  by (auto simp: GetPayment_def split: option.splits)

lemma api_get_visible:
  assumes "t \<noteq> ''''"
  shows "api_get (Some t) r s = (case visible_payment t (rq_id r) s of
    None \<Rightarrow> problem 404 ''payment not found'' | Some p \<Rightarrow> writeJSON 200 (Payment_body p))"
proof (cases "GetPayment (rq_id r) s")
  case (Inl err)
  with GetPayment_Inl [OF Inl] show ?thesis by (simp add: api_get_def visible_payment_def storeError_def)
next
  case (Inr p)
  with assms show ?thesis by (simp add: api_get_def visible_payment_def)
qed

lemma api_timeline_visible:
  assumes "t \<noteq> ''''"
  shows "api_timeline (Some t) r s = (case visible_payment t (rq_id r) s of
    None \<Rightarrow> problem 404 ''payment not found'' | Some p \<Rightarrow> writeJSON 200 (Timeline_body (rq_id r) (pm_Timeline p)))"
proof (cases "GetPayment (rq_id r) s")
  case (Inl err)
  with assms GetPayment_Inl [OF Inl] show ?thesis by (simp add: api_timeline_def visible_payment_def storeError_def)
next
  case (Inr p)
  with assms show ?thesis
    by (simp add: api_timeline_def visible_payment_def timeline_reply_def Repository_Timeline_def)
qed

definition reading :: "Request \<Rightarrow> bool" where
  "reading r \<longleftrightarrow> rq_method r = ''GET'' \<or> rq_method r = ''HEAD''"

lemma NewHandler_reads:
  assumes "tenant_sees t s1 s2" and "reading r" and "t \<noteq> ''''"
  shows "fst (NewHandler h e (Some t) r s1) = fst (NewHandler h e (Some t) r s2)"
proof (cases "find_route (payment_routes h e (Some t)) r")
  case None
  then show ?thesis by (simp add: NewHandler_def ServeMux_def)
next
  case (Some x)
  then obtain f i where x: "find_route (payment_routes h e (Some t)) r = Some (f, i)" by (cases x) auto
  from find_route_match [OF x] assms(2) have "f \<in> {read_only (api_get (Some t)), read_only (api_timeline (Some t)),
      read_only (\<lambda>_ _. live), read_only (\<lambda>_ _. ready h)}"
    by (auto simp: payment_routes_def reading_def method_ok_def)
  moreover have "api_get (Some t) r' s1 = api_get (Some t) r' s2" "api_timeline (Some t) r' s1 = api_timeline (Some t) r' s2" for r'
    using assms by (simp_all add: api_get_visible api_timeline_visible tenant_sees_def)
  ultimately have "fst (f r' s1) = fst (f r' s2)" for r' by (auto simp: read_only_def)
  then show ?thesis by (simp add: NewHandler_def ServeMux_def x)
qed

lemma NewHandler_public_reads:
  assumes "public_path r"
  shows "fst (NewHandler h e ctx r s1) = fst (NewHandler h e ctx r s2)"
  using assms by (auto simp: public_path_def NewHandler_def ServeMux_def payment_routes_def read_only_def)

lemma Endpoint_List_visible: "tenant_sees t s1 s2 \<Longrightarrow> Endpoint_List t s1 = Endpoint_List t s2"
  by (simp add: Endpoint_List_def tenant_sees_def)

lemma NewWebhookEndpointHandler_reads:
  assumes "tenant_sees t s1 s2" and "reading r"
  shows "fst (NewWebhookEndpointHandler v e (Some t) r s1) = fst (NewWebhookEndpointHandler v e (Some t) r s2)"
proof (cases "find_route (endpoint_routes v e (Some t)) r")
  case None
  then show ?thesis by (simp add: NewWebhookEndpointHandler_def ServeMux_def)
next
  case (Some x)
  then obtain f i where x: "find_route (endpoint_routes v e (Some t)) r = Some (f, i)" by (cases x) auto
  from find_route_match [OF x] assms(2) have "f = list_endpoints (Some t)"
    by (auto simp: endpoint_routes_def reading_def method_ok_def)
  then show ?thesis
    using Endpoint_List_visible [OF assms(1)]
    by (simp add: NewWebhookEndpointHandler_def ServeMux_def x list_endpoints_def split: option.split)
qed

lemma Middleware_reads:
  assumes "rq_authorization r = ''Bearer '' @ token" and "authenticate sha e token ks = Inr (t, ks')"
    and "public_path r \<Longrightarrow> fst (next None r s1) = fst (next None r s2)"
    and "fst (next (Some t) r s1) = fst (next (Some t) r s2)"
  shows "fst (Middleware sha e next r (s1, ks)) = fst (Middleware sha e next r (s2, ks))"
proof -
  have "CutPrefix (rq_authorization r) ''Bearer '' = (token, True)" by (simp only: assms(1) CutPrefix_append)
  then have gate: "Middleware sha e next r (s, ks) = (if public_path r then (case next None r s of (reply, s') \<Rightarrow> (reply, s', ks))
      else (case next (Some t) r s of (reply, s') \<Rightarrow> (reply, s', ks')))" for s
    by (simp add: Middleware_def assms(2))
  show ?thesis
  proof (cases "public_path r")
    case True
    with assms(3) show ?thesis unfolding gate by (simp split: prod.split) (metis fst_conv)
  next
    case False
    with assms(4) show ?thesis unfolding gate by (simp split: prod.split) (metis fst_conv)
  qed
qed

subsection \<open>Properties\<close>


definition sample_server :: Server where
  "sample_server = \<lparr>sv_handler = \<lparr>h_payouts = sample_provider, h_payins = None, h_health = Inr ()\<rparr>,
     sv_endpoints = \<lparr>ws_url_Parse = (\<lambda>_. None), ws_allowPrivateURLs = False\<rparr>, sv_coordinator = sample_coordinator,
     sv_operator_token = ''op'', sv_mock = True, sv_blindpay = None\<rparr>"

definition sample_lib :: stdlib where
  "sample_lib = \<lparr>lib_sha = (\<lambda>x. x), lib_hmac = (\<lambda>_ x. x), lib_json = (\<lambda>_. RawInvalid)\<rparr>"

definition tenant_keys :: "api_key_row list" where
  "tenant_keys = map (\<lambda>k. k\<lparr>ak_tenant := ''t1''\<rparr>) sample_keys"

definition sample_gateway :: gateway where
  "sample_gateway = ((sample_db PaymentStatusCreated, tenant_keys), \<lparr>mt_requests = 0, mt_errors = 0, mt_durationNanos = 0\<rparr>)"

definition sample_request_of :: "string \<Rightarrow> string list \<Rightarrow> string \<Rightarrow> Request" where
  "sample_request_of meth path auth = \<lparr>rq_method = meth, rq_path = path, rq_id = '''', rq_authorization = auth,
     rq_key = ''k'', rq_body = []\<rparr>"

definition sample_bp_request :: bp_request where
  "sample_bp_request = \<lparr>br_body = '''', br_svix_id = '''', br_svix_timestamp = '''', br_svix_signature = ''''\<rparr>"

lemma sample_gateway_ok: "gateway_ok sample_gateway"
proof -
  have "keys_ok tenant_keys" by code_simp
  moreover have "endpoints (sample_db st) = []" and "quotes (sample_db st) = []" for st by (simp_all add: sample_db_def empty_db_def)
  ultimately show ?thesis
    using sample_db_ok by (simp add: gateway_ok_def sample_gateway_def quotes_linked_def endpoints_ok_def tenant_endpoints_ok_def)
qed

text \<open>No sequence of requests, of tenants, operators, the provider or anybody, breaks the gateway: the books
  stay balanced, quotes stay linked, key identifiers stay unique, and every tenant has at most five active
  webhook endpoints with different addresses.\<close>

theorem gateway_invariant:
  assumes "(gateway_step sv lib)\<^sup>*\<^sup>* g ((s, ks), m)" and "gateway_ok g"
  shows "ledger_ok s \<and> quotes_linked s \<and> keys_ok ks \<and> length (filter (tenant_active t) (endpoints s)) \<le> 5 \<and>
    distinct (map we_url (filter (tenant_active t) (endpoints s)))"
  using gateway_run_ok [OF assms]
  by (simp add: gateway_ok_def endpoints_ok_def tenant_endpoints_ok_def maxActiveWebhookEndpoints_def)

theorem gateway_invariant_witness:
  "\<exists>s ks m. (gateway_step sample_server sample_lib)\<^sup>*\<^sup>* sample_gateway ((s, ks), m) \<and> ledger_ok s"
proof -
  let ?g = "snd (serve sample_server sample_lib sample_key_env 5 sample_bp_request
    (sample_request_of ''GET'' [''healthz''] '''') sample_gateway)"
  have "gateway_step sample_server sample_lib sample_gateway ?g" by (rule gateway_step.request) (rule prod.collapse [symmetric])
  then have run: "(gateway_step sample_server sample_lib)\<^sup>*\<^sup>* sample_gateway ?g" by blast
  obtain s ks m where g: "?g = ((s, ks), m)" by (metis prod.exhaust)
  have "ledger_ok s" using gateway_invariant [OF run [unfolded g] sample_gateway_ok] by blast
  with run g show ?thesis by metis
qed

text \<open>A request to the tenants' API that shows no active key of the table, and is not a health check, is
  answered with 401 and leaves the database and the keys alone.\<close>

theorem keyless_request_refused:
  assumes "tenant_request r" and "\<not> public_path r"
    and "\<And>token x. rq_authorization r = ''Bearer '' @ token \<Longrightarrow> authenticate (lib_sha lib) e token ks \<noteq> Inr x"
  shows "fst (serve sv lib e elapsed w r ((s, ks), m)) = problem 401 ''valid tenant API key is required'' \<and>
    fst (snd (serve sv lib e elapsed w r ((s, ks), m))) = (s, ks)"
proof -
  obtain reply s' ks' m' where run: "serve sv lib e elapsed w r ((s, ks), m) = (reply, ((s', ks'), m'))" by (metis prod.exhaust)
  from run assms(1) have "(reply, s', ks') = (problem 401 ''valid tenant API key is required'', s, ks)"
  proof (cases rule: serve_tenant_cases)
    case (endpoints i)
    with endpoint_gate.refused [of "r\<lparr>rq_id := i\<rparr>" "lib_sha lib" e ks] assms(2,3) show ?thesis by (simp add: public_path_def)
  next
    case payments
    with payment_gate.refused [OF assms(2), of "lib_sha lib" e ks] assms(3) show ?thesis by simp
  qed
  with run show ?thesis by simp
qed

theorem keyless_request_refused_witness:
  "fst (serve sample_server sample_lib sample_key_env 5 sample_bp_request
     (sample_request_of ''POST'' [''v1'', ''payments''] ''Basic x'') sample_gateway) = problem 401 ''valid tenant API key is required''"
  unfolding sample_gateway_def
  by (rule conjunct1 [OF keyless_request_refused])
    (simp_all add: tenant_request_def operator_path_def provider_path_def public_path_def sample_request_of_def)


text \<open>C16: the answer to a read depends only on what the tenant of the key may see: on two databases in which the
  tenant has the same payments and endpoints, whatever others have, the answers are the same. In
  particular a payment of another tenant is answered like one that does not exist.\<close>

theorem tenant_reads_independent:
  assumes "reading r" and "tenant_request r" and "rq_authorization r = ''Bearer '' @ token"
    and "authenticate (lib_sha lib) e token ks = Inr (t, ks')" and "keys_ok ks" and "tenant_sees t s1 s2"
  shows "fst (serve sv lib e elapsed w r ((s1, ks), m1)) = fst (serve sv lib e elapsed w r ((s2, ks), m2))"
proof -
  have t: "t \<noteq> ''''" using authenticated_tenant [OF assms(5,4)] .
  show ?thesis
  proof (cases "find_route (root_routes sv lib e w) r")
    case None
    have "fst (Middleware (lib_sha lib) e (NewHandler (sv_handler sv) e) r (s1, ks)) =
        fst (Middleware (lib_sha lib) e (NewHandler (sv_handler sv) e) r (s2, ks))"
      using assms(3,4)
      by (rule Middleware_reads) (rule NewHandler_public_reads, assumption, rule NewHandler_reads [OF assms(6,1) t])
    with None show ?thesis by (simp add: serve_def Metrics_Middleware_def split: prod.split) (metis fst_conv)
  next
    case (Some x)
    then obtain h i where x: "find_route (root_routes sv lib e w) r = Some (h, i)" by (cases x) auto
    from find_route_match [OF x] obtain mt p where p: "(mt, p, h) \<in> set (root_routes sv lib e w)"
      "method_ok mt (rq_method r)" "match_path p (rq_path r) '''' = Some i" by blast
    have "p \<noteq> [Lit ''metrics'']" using p(3) match_path_one assms(2) by (auto simp: tenant_request_def)
    moreover have "mt \<noteq> ''POST'' \<and> mt \<noteq> ''DELETE''" using p(2) assms(1) by (auto simp: method_ok_def reading_def)
    ultimately have "(mt, p, h) \<in> {(''GET'', [Lit ''v1'', Lit ''webhook-endpoints''], endpoint_gate_route sv lib e)}"
      using p(1) by (cases "sv_blindpay sv") (simp_all add: root_routes_def operator_routes_def Let_def split: if_splits)
    then obtain ps where h: "h = endpoint_gate_route sv lib e" and ps: "p = Lit ''v1'' # Lit ''webhook-endpoints'' # ps" by simp
    let ?r = "r\<lparr>rq_id := i\<rparr>"
    have pub: "\<not> public_path ?r"
      using match_path_two [OF p(3) [unfolded ps]] by (auto simp: public_path_def)
    have "fst (Middleware (lib_sha lib) e (NewWebhookEndpointHandler (sv_endpoints sv) e) ?r (s1, ks)) =
        fst (Middleware (lib_sha lib) e (NewWebhookEndpointHandler (sv_endpoints sv) e) ?r (s2, ks))"
    proof (rule Middleware_reads)
      show "rq_authorization ?r = ''Bearer '' @ token" using assms(3) by simp
      show "authenticate (lib_sha lib) e token ks = Inr (t, ks')" by (rule assms(4))
      show "fst (NewWebhookEndpointHandler (sv_endpoints sv) e (Some t) ?r s1) =
          fst (NewWebhookEndpointHandler (sv_endpoints sv) e (Some t) ?r s2)"
        by (rule NewWebhookEndpointHandler_reads [OF assms(6)]) (use assms(1) in \<open>simp add: reading_def\<close>)
    qed (use pub in blast)
    with x h show ?thesis by (simp add: serve_def endpoint_gate_route_def on_gate_def split: prod.split) (metis fst_conv)
  qed
qed

lemma sample_authenticated:
  "authenticate (lib_sha sample_lib) sample_key_env sample_key tenant_keys =
     Inr (''t1'', touch_key 7 (''key_'' @ replicate 24 CHR ''a'') tenant_keys)"
  by code_simp

definition sample_read :: Request where
  "sample_read = sample_request_of ''GET'' [''v1'', ''payments'', ''p1''] (''Bearer '' @ sample_key)"

lemma sample_tenant_request: "tenant_request sample_read" "reading sample_read"
  by (simp_all add: tenant_request_def operator_path_def provider_path_def reading_def sample_read_def sample_request_of_def)


text \<open>The same tenant, beside a payment of another one.\<close>

theorem tenant_reads_independent_witness:
  "fst (serve sample_server sample_lib sample_key_env 5 sample_bp_request sample_read
      ((sample_db PaymentStatusCreated, tenant_keys), snd sample_gateway)) =
   fst (serve sample_server sample_lib sample_key_env 5 sample_bp_request sample_read
      (((sample_db PaymentStatusCreated)\<lparr>payments := [(sample_payment ''p2'' PaymentStatusFailed)\<lparr>pay_tenant := ''t2''\<rparr>,
          sample_payment ''p1'' PaymentStatusCreated]\<rparr>, tenant_keys), snd sample_gateway))"
proof (rule tenant_reads_independent [OF sample_tenant_request(2,1) _ sample_authenticated])
  show "rq_authorization sample_read = ''Bearer '' @ sample_key" by (simp add: sample_read_def sample_request_of_def)
  show "keys_ok tenant_keys" by code_simp
  let ?s = "(sample_db PaymentStatusCreated)\<lparr>payments := [(sample_payment ''p2'' PaymentStatusFailed)\<lparr>pay_tenant := ''t2''\<rparr>,
          sample_payment ''p1'' PaymentStatusCreated]\<rparr>"
  have "visible_payment ''t1'' i (sample_db PaymentStatusCreated) = visible_payment ''t1'' i ?s" for i
    by (cases "i = ''p1''") (simp_all add: visible_payment_def GetPayment_def find_payment_def sample_db_def sample_payment_def
        payment_of_row_def quote_of_payment_def settlement_of_def timeline_of_def)
  moreover have "endpoints ?s = endpoints (sample_db PaymentStatusCreated)" by simp
  ultimately show "tenant_sees ''t1'' (sample_db PaymentStatusCreated) ?s" by (simp add: tenant_sees_def)
qed

text \<open>C17: without the operator's token no request to an operator path changes the database or issues or revokes a
  key; the answer is 401, or there is no such endpoint.\<close>

theorem operator_requests_guarded:
  assumes "serve sv lib e elapsed w r ((s, ks), m) = (reply, ((s', ks'), m'))" and "operator_path r"
    and "\<not> validOperatorToken (lib_sha lib) r (sv_operator_token sv)"
  shows "s' = s \<and> hr_status reply \<in> {401, 404, 405} \<and> (ks' = ks \<or>
    (\<exists>token tenant. rq_authorization r = ''Bearer '' @ token \<and> authenticate (lib_sha lib) e token ks = Inr (tenant, ks')))"
proof -
  from assms(3) have no: "\<not> validOperatorToken (lib_sha lib) (r\<lparr>rq_id := i\<rparr>) (sv_operator_token sv)" for i
    by (simp add: validOperatorToken_def)
  from assms(1) show ?thesis
  proof (cases rule: serve_cases)
    case payments
    have route: "NewHandler h e ctx r t = (no_route (payment_routes h e ctx) r, t)" for h ctx t
    proof -
      from assms(2) obtain rest where "rq_path r = ''v1'' # ''operator'' # rest"
        by (cases "rq_path r"; cases "tl (rq_path r)") (auto simp: operator_path_def)
      then have "find_route (payment_routes h e ctx) r = None" by (simp add: payment_routes_def)
      then show ?thesis by (simp add: NewHandler_def ServeMux_def)
    qed
    have st: "hr_status (no_route rs r) \<in> {401, 404, 405}" for rs :: "(Request \<Rightarrow> db \<Rightarrow> Response \<times> db) route list"
      by (simp add: no_route_def)
    show ?thesis
    proof (cases "\<exists>token tenant ks2. rq_authorization r = ''Bearer '' @ token \<and> authenticate (lib_sha lib) e token ks = Inr (tenant, ks2)")
      case True
      then obtain token tenant ks2 where a: "rq_authorization r = ''Bearer '' @ token"
        "authenticate (lib_sha lib) e token ks = Inr (tenant, ks2)" by blast
      have "CutPrefix (rq_authorization r) ''Bearer '' = (token, True)" by (simp only: a(1) CutPrefix_append)
      moreover have "\<not> public_path r" using assms(2) by (auto simp: public_path_def operator_path_def)
      ultimately have "s' = s \<and> reply = no_route (payment_routes (sv_handler sv) e (Some tenant)) r \<and> ks' = ks2"
        using payments a(2) by (auto simp: Middleware_def route)
      with a st show ?thesis by blast
    next
      case False
      then have "Middleware (lib_sha lib) e (NewHandler (sv_handler sv) e) r (s, ks) =
          (problem 401 ''valid tenant API key is required'', s, ks)"
        using assms(2) by (intro payment_gate.refused) (auto simp: public_path_def operator_path_def)
      with payments(2) have "reply = problem 401 ''valid tenant API key is required'' \<and> s' = s \<and> ks' = ks" by simp
      then show ?thesis by simp
    qed
  qed (use assms(2) no in \<open>auto simp: NewOperatorHandler_def NewLocalSettlementHandler_def NewAPIKeyOperatorHandler_def
      NewAPIKeyRevokeOperatorHandler_def unauthorized_def operator_path_def provider_path_def\<close>)
qed

definition sample_operator_read :: Request where
  "sample_operator_read = sample_request_of ''POST'' [''v1'', ''operator'', ''tenants'', ''t1'', ''api-keys''] ''Bearer wrong''"

theorem operator_requests_guarded_witness:
  "fst (fst (snd (serve sample_server sample_lib sample_key_env 5 sample_bp_request sample_operator_read sample_gateway))) =
     sample_db PaymentStatusCreated"
proof -
  obtain reply s' ks' m' where run: "serve sample_server sample_lib sample_key_env 5 sample_bp_request sample_operator_read
    ((sample_db PaymentStatusCreated, tenant_keys), \<lparr>mt_requests = 0, mt_errors = 0, mt_durationNanos = 0\<rparr>) =
    (reply, ((s', ks'), m'))" by (metis prod.exhaust)
  have "operator_path sample_operator_read" and
    "\<not> validOperatorToken (lib_sha sample_lib) sample_operator_read (sv_operator_token sample_server)" by code_simp+
  from operator_requests_guarded [OF run this] run show ?thesis by (simp add: sample_gateway_def)
qed

text \<open>C40: idempotency keys are not separated by tenant: a payout request that is valid, names an open quote of its
  own tenant and fits it is answered with 409 if any other tenant has used its key for a payment.\<close>

theorem foreign_key_conflicts:
  assumes "p \<in> set (payments s)" and "pay_idempotency_key p = key" and "pay_tenant p \<noteq> tenant" and "payments_ok (payments s)"
    and "cr_Direction i \<noteq> ''payin''" and "cr_QuoteID i \<noteq> ''''"
    and "CreatePaymentRequest_Validate (payout_request tenant key i) = Inr ()" and "env_rand e 1 \<noteq> None"
    and "find_quote PaymentDirectionPayout (cr_QuoteID i) s = Some q" and "q_status q = QuoteOpen" and "env_now e < q_expires_at q"
    and "q_tenant q = tenant" and "q_source_currency q = cr_Currency i" and "q_sender_amount q = cr_AmountMinor i"
  shows "create_in_direction h e tenant key i s =
    (problem 409 ''idempotency key is bound to a different request'', s)"
proof -
  let ?r = "payout_request tenant key i"
  from assms(4) have keys: "distinct (map pay_idempotency_key (payments s))" by (simp add: payments_ok_def)
  have "List.find (\<lambda>p. pay_idempotency_key p = key) (payments s) = Some p"
  proof (cases "List.find (\<lambda>p. pay_idempotency_key p = key) (payments s)")
    case None
    with assms(1,2) show ?thesis by (auto simp: find_None_iff_all)
  next
    case (Some x)
    with find_Some_memb [OF Some] assms(1,2) keys show ?thesis by (auto simp: distinct_map inj_on_def)
  qed
  then have get: "getPaymentByIdempotencyKey key s = Inr ((payment_of_row p)\<lparr>pm_QuoteID := quote_of_payment (pay_id p) s\<rparr>)"
    by (simp add: getPaymentByIdempotencyKey_def)
  have amount: "0 < cr_AmountMinor i"
    using assms(7) by (auto simp: CreatePaymentRequest_Validate_def payout_request_def split: if_splits)
  have "list_ex (\<lambda>x. pay_idempotency_key x = key) (payments s)" using assms(1,2) by (auto simp: list_ex_iff)
  then have "insert_payout_payment e ?r (cr_QuoteID i) x s = Inl ErrIdempotencyConflict" for x
    using get amount assms(3)
    by (simp add: insert_payout_payment_def Let_def insert_payment_once_def new_payment_row_def payout_request_def
        paymentRequestMatches_def payment_of_row_def)
  then have "createPayout_tx e ?r (cr_QuoteID i) s = (s, Inl ErrIdempotencyConflict)"
    using assms(8-14) by (auto simp: createPayout_tx_def newID_def payout_request_def)
  then have "payout_CreatePayment (h_payouts h) e ?r s = (s, Inl ErrIdempotencyConflict)"
    using assms(6,7) by (simp add: payout_CreatePayment_def createPayout_def payout_request_def)
  with assms(5,7) show ?thesis by (simp add: create_in_direction_def create_error_def)
qed

definition sample_create :: createRequest where
  "sample_create = \<lparr>cr_Direction = ''payout'', cr_ExternalReference = ''order'', cr_Currency = ''USD'', cr_AmountMinor = 100,
     cr_TenantID = '''', cr_QuoteID = ''q1'', cr_PayoutQuoteID = '''', cr_FundingMethod = '''', cr_SourceAccountID = '''',
     cr_DestinationInstrumentID = '''', cr_SourceInstrumentID = '''', cr_DestinationAccountID = ''''\<rparr>"

theorem foreign_key_conflicts_witness:
  "hr_status (fst (create_in_direction (sv_handler sample_server) sample_env ''t1'' ''key'' sample_create
     (sample_quote_db\<lparr>payments := [(sample_payment ''p2'' PaymentStatusCreated)\<lparr>pay_tenant := ''t2'', pay_idempotency_key := ''key''\<rparr>]\<rparr>))) = 409"
proof -
  let ?p = "(sample_payment ''p2'' PaymentStatusCreated)\<lparr>pay_tenant := ''t2'', pay_idempotency_key := ''key''\<rparr>"
  let ?s = "sample_quote_db\<lparr>payments := [?p]\<rparr>"
  have "find_quote PaymentDirectionPayout (cr_QuoteID sample_create) ?s = Some (sample_quote QuoteOpen None)"
    by (simp add: find_quote_def sample_quote_db_def sample_create_def sample_quote_def)
  moreover have "CreatePaymentRequest_Validate (payout_request ''t1'' ''key'' sample_create) = Inr ()" by code_simp
  moreover have "env_rand sample_env 1 \<noteq> None" and "env_now sample_env < q_expires_at (sample_quote QuoteOpen None)" by code_simp+
  ultimately have "create_in_direction (sv_handler sample_server) sample_env ''t1'' ''key'' sample_create ?s =
      (problem 409 ''idempotency key is bound to a different request'', ?s)"
    by (intro foreign_key_conflicts [where p = ?p and q = "sample_quote QuoteOpen None"])
      (simp_all add: sample_payment_def payments_ok_def sample_create_def sample_quote_def)
  then show ?thesis by simp
qed

end
