(* ===== verification/Blindpay_Client.thy ===== *)
theory Blindpay_Client
  imports Webhook_Url
begin

text \<open>
  The client of the BlindPay API (\<^verbatim>\<open>settlement/blindpay/client.go\<close>): requests, the decoding and checking of
  answers, and the classification of error answers. The network is a parameter: a function from a request to
  a transport error or an answer, a status with the bytes of the body. So is the JSON parser, once for a whole
  document and once for the first document of a stream.
\<close>

subsection \<open>Decoding\<close>

record jsonlib =
  js_Unmarshal :: "string \<Rightarrow> raw"
  js_Decode :: "string \<Rightarrow> raw"

definition raw_of :: "jsonlib \<Rightarrow> string \<Rightarrow> raw" where
  "raw_of lib t = (if t = '''' then RawEmpty else js_Unmarshal lib t)"

text \<open>A \<^verbatim>\<open>json.Number\<close> keeps the text of the numeral; a string is accepted when it is the text of one.\<close>

definition digits_of :: "string \<Rightarrow> string \<times> string" where
  "digits_of s = (takeWhile (\<lambda>c. digit_value c \<noteq> None) s, dropWhile (\<lambda>c. digit_value c \<noteq> None) s)"

definition drop_minus :: "string \<Rightarrow> string" where
  "drop_minus s = (case s of c # cs \<Rightarrow> if c = CHR ''-'' then cs else s | [] \<Rightarrow> [])"

definition valid_fraction :: "string \<Rightarrow> string option" where
  "valid_fraction s = (case s of
       c # cs \<Rightarrow> if c = CHR ''.'' then (case digits_of cs of (ds, rest) \<Rightarrow> if ds = '''' then None else Some rest) else Some s
     | [] \<Rightarrow> Some [])"

definition valid_exponent :: "string \<Rightarrow> bool" where
  "valid_exponent s = (case s of
       c # cs \<Rightarrow> (c = CHR ''e'' \<or> c = CHR ''E'') \<and>
         (let ds = (case cs of d # ds \<Rightarrow> if d = CHR ''+'' \<or> d = CHR ''-'' then ds else cs | [] \<Rightarrow> [])
          in ds \<noteq> '''' \<and> list_all (\<lambda>c. digit_value c \<noteq> None) ds)
     | [] \<Rightarrow> True)"

definition valid_number :: "string \<Rightarrow> bool" where
  "valid_number s = (case digits_of (drop_minus s) of (ds, rest) \<Rightarrow>
     ds \<noteq> '''' \<and> (length ds = 1 \<or> hd ds \<noteq> CHR ''0'') \<and>
     (case valid_fraction rest of None \<Rightarrow> False | Some rest' \<Rightarrow> valid_exponent rest'))"

fun decode_number :: "string \<Rightarrow> (string \<times> json) list \<Rightarrow> string \<Rightarrow> string option" where
  "decode_number f [] cur = Some cur"
| "decode_number f ((k, v) # rest) cur =
     (if ToLower k = ToLower f
      then (case v of JNum i \<Rightarrow> decode_number f rest (FormatInt i) | JReal t \<Rightarrow> decode_number f rest t
                    | JStr t \<Rightarrow> if valid_number t then decode_number f rest t else None
                    | JNull \<Rightarrow> decode_number f rest cur | _ \<Rightarrow> None)
      else decode_number f rest cur)"

text \<open>A pointer to an integer: \<^verbatim>\<open>null\<close> makes it nil.\<close>

fun decode_int_ptr :: "string \<Rightarrow> (string \<times> json) list \<Rightarrow> int option \<Rightarrow> int option option" where
  "decode_int_ptr f [] cur = Some cur"
| "decode_int_ptr f ((k, v) # rest) cur =
     (if ToLower k = ToLower f
      then (case v of JNum i \<Rightarrow> if in_int64 i then decode_int_ptr f rest (Some i) else None
                    | JNull \<Rightarrow> decode_int_ptr f rest None | _ \<Rightarrow> None)
      else decode_int_ptr f rest cur)"

text \<open>A nested struct takes the members of every object it is given.\<close>

fun decode_members :: "string \<Rightarrow> (string \<times> json) list \<Rightarrow> (string \<times> json) list option" where
  "decode_members f [] = Some []"
| "decode_members f ((k, v) # rest) =
     (if ToLower k = ToLower f
      then (case v of JObj ms \<Rightarrow> map_option (append ms) (decode_members f rest) | JNull \<Rightarrow> decode_members f rest | _ \<Rightarrow> None)
      else decode_members f rest)"

text \<open>A field of a struct whose decoding error is ignored keeps its value on a type error.\<close>

fun lenient_str :: "string \<Rightarrow> (string \<times> json) list \<Rightarrow> string \<Rightarrow> string" where
  "lenient_str f [] cur = cur"
| "lenient_str f ((k, v) # rest) cur =
     lenient_str f rest (if ToLower k = ToLower f then (case v of JStr s \<Rightarrow> s | _ \<Rightarrow> cur) else cur)"

subsection \<open>The client\<close>

record Config =
  cf_APIKey :: string
  cf_InstanceID :: string
  cf_BaseURL :: string

record Client =
  cl_apiKey :: string
  cl_instanceID :: string
  cl_baseURL :: string

definition TrimRight :: "char \<Rightarrow> string \<Rightarrow> string" where
  "TrimRight c s = rev (dropWhile (\<lambda>x. x = c) (rev s))"

definition NewClient :: "(string \<Rightarrow> url option) \<Rightarrow> Config \<Rightarrow> Client result" where
  "NewClient url_Parse c =
     (if TrimSpace (cf_APIKey c) = '''' \<or> \<not> HasPrefix (cf_InstanceID c) ''in_''
      then Inl (ErrText ''BlindPay API key and valid instance ID are required'')
      else let base = (if cf_BaseURL c = '''' then ''https://api.blindpay.com/v1'' else cf_BaseURL c)
      in case url_Parse base of
           None \<Rightarrow> Inl (ErrText ''invalid BlindPay base URL'')
         | Some u \<Rightarrow>
             if ur_Scheme u \<noteq> ''http'' \<and> ur_Scheme u \<noteq> ''https'' \<or> ur_Host u = ''''
             then Inl (ErrText ''invalid BlindPay base URL'')
             else Inr \<lparr>cl_apiKey = cf_APIKey c, cl_instanceID = cf_InstanceID c, cl_baseURL = TrimRight CHR ''/'' base\<rparr>)"

text \<open>\<^verbatim>\<open>url.PathEscape\<close>, on bytes.\<close>

definition path_safe :: "char \<Rightarrow> bool" where
  "path_safe c \<longleftrightarrow> (let n = (of_char c :: nat) in 48 \<le> n \<and> n \<le> 57 \<or> 65 \<le> n \<and> n \<le> 90 \<or> 97 \<le> n \<and> n \<le> 122) \<or>
     c \<in> set ''-_.~$&+=:@''"

definition upper_hex :: "nat \<Rightarrow> char" where
  "upper_hex n = (if n < 10 then char_of (48 + n) else char_of (55 + n))"

definition PathEscape :: "string \<Rightarrow> string" where
  "PathEscape s = concat (map (\<lambda>c. if path_safe c then [c]
     else let n = (of_char c :: nat) in [CHR ''%'', upper_hex (n div 16), upper_hex (n mod 16)]) s)"

record http_request =
  hq_method :: string
  hq_url :: string
  hq_authorization :: string
  hq_key :: string
  hq_body :: "json option"

text \<open>A transport error is its text.\<close>

type_synonym http = "http_request \<Rightarrow> string + int \<times> string"

fun Contains :: "string \<Rightarrow> string \<Rightarrow> bool" where
  "Contains [] sub = (sub = [])"
| "Contains (c # cs) sub = (prefix sub (c # cs) \<or> Contains cs sub)"

definition error_fields :: "jsonlib \<Rightarrow> string \<Rightarrow> string \<times> string" where
  "error_fields lib t =
     (let ms = (case js_Unmarshal lib t of Raw (JObj ms) \<Rightarrow> ms | _ \<Rightarrow> []);
          message = lenient_str ''message'' ms '''';
          message1 = (if message = '''' then lenient_str ''error'' ms '''' else message)
      in (lenient_str ''code'' ms '''', if message1 = '''' then TrimSpace t else message1))"

definition error_kind :: "int \<Rightarrow> string \<Rightarrow> string \<Rightarrow> ErrorKind" where
  "error_kind status code message =
     (if status = 401 \<or> status = 403 then ErrorUnauthorized
      else if status = 429 \<or> 500 \<le> status then ErrorRetryable
      else if code = ''please_accept_terms_of_service'' \<or> Contains (ToLower message) ''kyc'' \<or>
              Contains (ToLower message) ''compliance'' then ErrorUserAction
      else ErrorPermanent)"

definition classifyAPIError :: "jsonlib \<Rightarrow> int \<Rightarrow> string \<Rightarrow> err" where
  "classifyAPIError lib status t =
     (case error_fields lib t of (code, message) \<Rightarrow>
        ErrAPI \<lparr>ae_StatusCode = status, ae_Code = code, ae_Message = message, ae_Kind = error_kind status code message\<rparr>)"

text \<open>
  One call: the raw answer and the decoded value, \<open>zero\<close> when the body is empty. At most two megabytes of the
  body are read; only its first JSON document is decoded.
\<close>

definition limited :: "string \<Rightarrow> string" where
  "limited t = take 2097152 t"

lemma limited_code [code]: "limited t = (if int (length t) \<le> 2097152 then t else take (nat 2097152) t)"
  by (simp add: limited_def)

definition do_request ::
  "jsonlib \<Rightarrow> http \<Rightarrow> Client \<Rightarrow> string \<Rightarrow> string \<Rightarrow> string \<Rightarrow> json option \<Rightarrow> (json \<Rightarrow> 'a option) \<Rightarrow> 'a \<Rightarrow> (raw \<times> 'a) result" where
  "do_request lib http c meth path key body dec zero =
     (case http \<lparr>hq_method = meth, hq_url = cl_baseURL c @ ''/instances/'' @ PathEscape (cl_instanceID c) @ path,
                 hq_authorization = ''Bearer '' @ cl_apiKey c, hq_key = key, hq_body = body\<rparr> of
        Inl e \<Rightarrow> Inl (ErrText e)
      | Inr (status, text0) \<Rightarrow>
          let t = limited text0 in
          if status < 200 \<or> 300 \<le> status then Inl (classifyAPIError lib status t)
          else if t = '''' then Inr (RawEmpty, zero)
          else (case js_Decode lib t of
                  Raw j \<Rightarrow> (case dec j of Some x \<Rightarrow> Inr (raw_of lib t, x) | None \<Rightarrow> Inl (ErrText ''decode BlindPay response''))
                | _ \<Rightarrow> Inl (ErrText ''decode BlindPay response'')))"

subsection \<open>Payout quotes\<close>

record bp_QuoteRequest =
  bq_IdempotencyKey :: string
  bq_BankAccountID :: string
  bq_CurrencyType :: string
  bq_CoverFees :: bool
  bq_RequestAmount :: int
  bq_Network :: string
  bq_Token :: string
  bq_PartnerFeeID :: string

record Contract =
  ct_Address :: string
  ct_FunctionName :: string
  ct_BlindPayContractAddress :: string
  ct_Amount :: string
  ct_ABI :: raw
  ct_NetworkName :: string
  ct_ChainID :: int

definition Contract_UnmarshalJSON :: "json \<Rightarrow> Contract option" where
  "Contract_UnmarshalJSON j = Option.bind (any_object (Raw j)) (\<lambda>ms.
     Option.bind (decode_str ''address'' ms '''') (\<lambda>address.
     Option.bind (decode_str ''functionName'' ms '''') (\<lambda>functionName.
     Option.bind (decode_str ''blindpayContractAddress'' ms '''') (\<lambda>contractAddress.
     Option.bind (decode_str ''amount'' ms '''') (\<lambda>amount.
     Option.bind (decode_members ''network'' ms) (\<lambda>ns.
     Option.bind (decode_str ''name'' ns '''') (\<lambda>name.
     Option.bind (decode_int ''chainId'' ns 0) (\<lambda>chain.
       Some \<lparr>ct_Address = address, ct_FunctionName = functionName, ct_BlindPayContractAddress = contractAddress,
         ct_Amount = amount, ct_ABI = decode_raw ''abi'' ms RawEmpty, ct_NetworkName = name, ct_ChainID = chain\<rparr>))))))))"

fun decode_contract :: "(string \<times> json) list \<Rightarrow> Contract option \<Rightarrow> Contract option option" where
  "decode_contract [] cur = Some cur"
| "decode_contract ((k, v) # rest) cur =
     (if ToLower k = ''contract''
      then (if v = JNull then decode_contract rest None
            else (case Contract_UnmarshalJSON v of None \<Rightarrow> None | Some c \<Rightarrow> decode_contract rest (Some c)))
      else decode_contract rest cur)"

record bp_Quote =
  bqt_ID :: string
  bqt_ExpiresAt :: int
  bqt_CommercialQuotation :: string
  bqt_BlindPayQuotation :: string
  bqt_SenderAmount :: int
  bqt_ReceiverAmount :: int
  bqt_PartnerFeeAmount :: int
  bqt_FlatFee :: int
  bqt_BillingFeeAmount :: "int option"
  bqt_Contract :: "Contract option"
  bqt_RawPayload :: raw

definition zero_quote :: bp_Quote where
  "zero_quote = \<lparr>bqt_ID = '''', bqt_ExpiresAt = 0, bqt_CommercialQuotation = '''', bqt_BlindPayQuotation = '''',
     bqt_SenderAmount = 0, bqt_ReceiverAmount = 0, bqt_PartnerFeeAmount = 0, bqt_FlatFee = 0,
     bqt_BillingFeeAmount = None, bqt_Contract = None, bqt_RawPayload = RawEmpty\<rparr>"

definition Quote_UnmarshalJSON :: "json \<Rightarrow> bp_Quote option" where
  "Quote_UnmarshalJSON j = Option.bind (any_object (Raw j)) (\<lambda>ms.
     Option.bind (decode_str ''id'' ms '''') (\<lambda>i.
     Option.bind (decode_int ''expires_at'' ms 0) (\<lambda>expires.
     Option.bind (decode_number ''commercial_quotation'' ms '''') (\<lambda>commercial.
     Option.bind (decode_number ''blindpay_quotation'' ms '''') (\<lambda>blindpay.
     Option.bind (decode_int ''sender_amount'' ms 0) (\<lambda>sender.
     Option.bind (decode_int ''receiver_amount'' ms 0) (\<lambda>receiver.
     Option.bind (decode_int ''partner_fee_amount'' ms 0) (\<lambda>partner.
     Option.bind (decode_int ''flat_fee'' ms 0) (\<lambda>flat.
     Option.bind (decode_int_ptr ''billing_fee_amount'' ms None) (\<lambda>billing.
     Option.bind (decode_contract ms None) (\<lambda>contract.
       Some \<lparr>bqt_ID = i, bqt_ExpiresAt = expires, bqt_CommercialQuotation = commercial, bqt_BlindPayQuotation = blindpay,
         bqt_SenderAmount = sender, bqt_ReceiverAmount = receiver, bqt_PartnerFeeAmount = partner, bqt_FlatFee = flat,
         bqt_BillingFeeAmount = billing, bqt_Contract = contract, bqt_RawPayload = RawEmpty\<rparr>)))))))))))"

definition quote_request_json :: "bp_QuoteRequest \<Rightarrow> json" where
  "quote_request_json r = JObj ([(''bank_account_id'', JStr (bq_BankAccountID r)), (''currency_type'', JStr (bq_CurrencyType r)),
     (''cover_fees'', JBool (bq_CoverFees r)), (''request_amount'', JNum (bq_RequestAmount r)),
     (''network'', JStr (bq_Network r)), (''token'', JStr (bq_Token r))] @
     (if bq_PartnerFeeID r = '''' then [] else [(''partner_fee_id'', JStr (bq_PartnerFeeID r))]))"

definition CreateQuote :: "jsonlib \<Rightarrow> http \<Rightarrow> Client \<Rightarrow> bp_QuoteRequest \<Rightarrow> bp_Quote result" where
  "CreateQuote lib http c r =
     (if bq_BankAccountID r = '''' \<or> bq_RequestAmount r \<le> 0 \<or> (bq_CurrencyType r \<noteq> ''sender'' \<and> bq_CurrencyType r \<noteq> ''receiver'') \<or>
         bq_Network r = '''' \<or> bq_Token r = ''''
      then Inl (ErrText ''invalid BlindPay payout quote request'')
      else bindE (do_request lib http c ''POST'' ''/quotes'' (bq_IdempotencyKey r) (Some (quote_request_json r))
                    Quote_UnmarshalJSON zero_quote) (\<lambda>(raw, out).
        if \<not> HasPrefix (bqt_ID out) ''qu_'' \<or> bqt_ExpiresAt out \<le> 0 \<or> bqt_SenderAmount out \<le> 0 \<or> bqt_ReceiverAmount out \<le> 0
        then Inl (ErrText ''BlindPay returned an invalid payout quote'')
        else Inr (out\<lparr>bqt_RawPayload := raw\<rparr>)))"

subsection \<open>Payouts and balances\<close>

record bp_PayoutRequest =
  br_IdempotencyKey :: string
  br_QuoteID :: string
  br_SenderWalletAddress :: string

record bp_Payout =
  bpo_ID :: string
  bpo_Status :: string
  bpo_SenderWalletAddress :: string
  bpo_CustomerID :: string
  bpo_BankAccountID :: string
  bpo_RawPayload :: raw

definition zero_payout :: bp_Payout where
  "zero_payout = \<lparr>bpo_ID = '''', bpo_Status = '''', bpo_SenderWalletAddress = '''', bpo_CustomerID = '''',
     bpo_BankAccountID = '''', bpo_RawPayload = RawEmpty\<rparr>"

definition decode_payout :: "json \<Rightarrow> bp_Payout option" where
  "decode_payout j = Option.bind (any_object (Raw j)) (\<lambda>ms.
     Option.bind (decode_str ''id'' ms '''') (\<lambda>i.
     Option.bind (decode_str ''status'' ms '''') (\<lambda>status.
     Option.bind (decode_str ''sender_wallet_address'' ms '''') (\<lambda>address.
     Option.bind (decode_str ''customer_id'' ms '''') (\<lambda>customer.
     Option.bind (decode_str ''bank_account_id'' ms '''') (\<lambda>bank.
       Some \<lparr>bpo_ID = i, bpo_Status = status, bpo_SenderWalletAddress = address, bpo_CustomerID = customer,
         bpo_BankAccountID = bank, bpo_RawPayload = RawEmpty\<rparr>))))))"

definition CreateEVMPayout :: "jsonlib \<Rightarrow> http \<Rightarrow> Client \<Rightarrow> bp_PayoutRequest \<Rightarrow> bp_Payout result" where
  "CreateEVMPayout lib http c r =
     (if \<not> HasPrefix (br_QuoteID r) ''qu_'' \<or> br_SenderWalletAddress r = ''''
      then Inl (ErrText ''invalid BlindPay payout request'')
      else bindE (do_request lib http c ''POST'' ''/payouts/evm'' (br_IdempotencyKey r)
                    (Some (JObj [(''quote_id'', JStr (br_QuoteID r)), (''sender_wallet_address'', JStr (br_SenderWalletAddress r))]))
                    decode_payout zero_payout) (\<lambda>(raw, out).
        if \<not> HasPrefix (bpo_ID out) ''po_'' \<or> bpo_Status out = ''''
        then Inl (ErrText ''BlindPay returned an invalid payout'') else Inr (out\<lparr>bpo_RawPayload := raw\<rparr>)))"

definition GetPayout :: "jsonlib \<Rightarrow> http \<Rightarrow> Client \<Rightarrow> string \<Rightarrow> bp_Payout result" where
  "GetPayout lib http c i =
     (if \<not> HasPrefix i ''po_'' then Inl (ErrText ''invalid BlindPay payout ID'')
      else bindE (do_request lib http c ''GET'' (''/payouts/'' @ PathEscape i) '''' None decode_payout zero_payout) (\<lambda>(raw, out). Inr out))"

record ManagedWalletAsset =
  mw_Address :: string
  mw_ID :: string
  mw_Symbol :: string
  mw_Amount :: int

definition decode_asset :: "json \<Rightarrow> ManagedWalletAsset option" where
  "decode_asset j = Option.bind (any_object (Raw j)) (\<lambda>ms.
     Option.bind (decode_str ''Address'' ms '''') (\<lambda>address.
     Option.bind (decode_str ''ID'' ms '''') (\<lambda>i.
     Option.bind (decode_str ''Symbol'' ms '''') (\<lambda>symbol.
     Option.bind (decode_int ''Amount'' ms 0) (\<lambda>amount.
       Some \<lparr>mw_Address = address, mw_ID = i, mw_Symbol = symbol, mw_Amount = amount\<rparr>)))))"

type_synonym balance_map = "string \<rightharpoonup> ManagedWalletAsset"

fun decode_assets :: "(string \<times> json) list \<Rightarrow> balance_map \<Rightarrow> balance_map option" where
  "decode_assets [] m = Some m"
| "decode_assets ((k, v) # rest) m = Option.bind (decode_asset v) (\<lambda>a. decode_assets rest (m(k \<mapsto> a)))"

text \<open>
  The loop that adds every asset under its upper-case symbol, in the order in which the keys were sent. Go
  visits them in any order, which matters only when two keys differ in case alone.
\<close>

fun upper_symbols :: "string list \<Rightarrow> balance_map \<Rightarrow> balance_map" where
  "upper_symbols [] m = m"
| "upper_symbols (symbol # rest) m =
     (case m symbol of
        None \<Rightarrow> upper_symbols rest m
      | Some asset \<Rightarrow>
          let own = ToUpper (mw_Symbol asset);
              asset' = asset\<lparr>mw_Symbol := if own = '''' then ToUpper symbol else own\<rparr>
          in upper_symbols rest (m(ToUpper symbol \<mapsto> asset')))"

definition decode_balance :: "json \<Rightarrow> (string list \<times> balance_map) option" where
  "decode_balance j = Option.bind (any_object (Raw j)) (\<lambda>ms.
     Option.bind (decode_assets ms Map.empty) (\<lambda>m. Some (remdups (map fst ms), m)))"

definition GetManagedWalletBalance :: "jsonlib \<Rightarrow> http \<Rightarrow> Client \<Rightarrow> string \<Rightarrow> string \<Rightarrow> balance_map result" where
  "GetManagedWalletBalance lib http c customerID walletID =
     (if \<not> HasPrefix customerID ''re_'' \<or> \<not> HasPrefix walletID ''bl_''
      then Inl (ErrText ''invalid BlindPay customer or managed wallet ID'')
      else bindE (do_request lib http c ''GET''
                    (''/customers/'' @ PathEscape customerID @ ''/wallets/'' @ PathEscape walletID @ ''/balance'') '''' None
                    decode_balance ([], Map.empty)) (\<lambda>(raw, (symbols, out)). Inr (upper_symbols symbols out)))"

subsection \<open>Pay-ins\<close>

record bp_PayinQuoteRequest =
  bi_IdempotencyKey :: string
  bi_WalletID :: string
  bi_BlockchainWalletID :: string
  bi_CurrencyType :: string
  bi_CoverFees :: bool
  bi_RequestAmount :: int
  bi_PaymentMethod :: string
  bi_Token :: string

record bp_PayinQuote =
  biq_ID :: string
  biq_ExpiresAt :: int
  biq_SenderAmount :: int
  biq_ReceiverAmount :: int
  biq_RawPayload :: raw

definition PayinQuote_UnmarshalJSON :: "json \<Rightarrow> bp_PayinQuote option" where
  "PayinQuote_UnmarshalJSON j = Option.bind (any_object (Raw j)) (\<lambda>ms.
     Option.bind (decode_str ''id'' ms '''') (\<lambda>i.
     Option.bind (decode_int ''expires_at'' ms 0) (\<lambda>expires.
     Option.bind (decode_int ''sender_amount'' ms 0) (\<lambda>sender.
     Option.bind (decode_int ''receiver_amount'' ms 0) (\<lambda>receiver.
       Some \<lparr>biq_ID = i, biq_ExpiresAt = expires, biq_SenderAmount = sender, biq_ReceiverAmount = receiver,
         biq_RawPayload = RawEmpty\<rparr>)))))"

definition payin_quote_request_json :: "bp_PayinQuoteRequest \<Rightarrow> json" where
  "payin_quote_request_json r = JObj (
     (if bi_WalletID r = '''' then [] else [(''wallet_id'', JStr (bi_WalletID r))]) @
     (if bi_BlockchainWalletID r = '''' then [] else [(''blockchain_wallet_id'', JStr (bi_BlockchainWalletID r))]) @
     [(''currency_type'', JStr (bi_CurrencyType r)), (''cover_fees'', JBool (bi_CoverFees r)),
      (''request_amount'', JNum (bi_RequestAmount r)), (''payment_method'', JStr (bi_PaymentMethod r)), (''token'', JStr (bi_Token r))])"

definition bp_CreatePayinQuote :: "jsonlib \<Rightarrow> http \<Rightarrow> Client \<Rightarrow> bp_PayinQuoteRequest \<Rightarrow> bp_PayinQuote result" where
  "bp_CreatePayinQuote lib http c r =
     (if (bi_WalletID r = '''') = (bi_BlockchainWalletID r = '''') \<or> bi_RequestAmount r \<le> 0
      then Inl (ErrText ''invalid BlindPay payin quote request'')
      else bindE (do_request lib http c ''POST'' ''/payin-quotes'' (bi_IdempotencyKey r) (Some (payin_quote_request_json r))
                    PayinQuote_UnmarshalJSON \<lparr>biq_ID = '''', biq_ExpiresAt = 0, biq_SenderAmount = 0, biq_ReceiverAmount = 0,
                      biq_RawPayload = RawEmpty\<rparr>) (\<lambda>(raw, out).
        if \<not> HasPrefix (biq_ID out) ''pq_'' \<or> biq_ExpiresAt out \<le> 0
        then Inl (ErrText ''BlindPay returned an invalid payin quote'') else Inr (out\<lparr>biq_RawPayload := raw\<rparr>)))"

record bp_Payin =
  bpi_ID :: string
  bpi_Status :: string
  bpi_RawPayload :: raw
  bpi_Instructions :: raw

definition decode_payin :: "json \<Rightarrow> bp_Payin option" where
  "decode_payin j = Option.bind (any_object (Raw j)) (\<lambda>ms.
     Option.bind (decode_str ''id'' ms '''') (\<lambda>i.
     Option.bind (decode_str ''status'' ms '''') (\<lambda>status.
       Some \<lparr>bpi_ID = i, bpi_Status = status, bpi_RawPayload = RawEmpty, bpi_Instructions = RawEmpty\<rparr>)))"

definition CreatePayin :: "jsonlib \<Rightarrow> http \<Rightarrow> Client \<Rightarrow> string \<Rightarrow> string \<Rightarrow> bp_Payin result" where
  "CreatePayin lib http c key quoteID =
     (if \<not> HasPrefix quoteID ''pq_'' then Inl (ErrText ''invalid BlindPay payin request'')
      else bindE (do_request lib http c ''POST'' ''/payins/evm'' key (Some (JObj [(''payin_quote_id'', JStr quoteID)]))
                    decode_payin \<lparr>bpi_ID = '''', bpi_Status = '''', bpi_RawPayload = RawEmpty, bpi_Instructions = RawEmpty\<rparr>) (\<lambda>(raw, out).
        if \<not> HasPrefix (bpi_ID out) ''pi_'' \<or> bpi_Status out = ''''
        then Inl (ErrText ''BlindPay returned an invalid payin'')
        else Inr (out\<lparr>bpi_RawPayload := raw, bpi_Instructions := raw\<rparr>)))"

subsection \<open>What a call can answer\<close>

lemma do_request_cases [consumes 1, case_names transport refused undecoded answered]:
  assumes "do_request lib http c meth path key body dec zero = x"
  obtains e where "x = Inl (ErrText e)"
  | q status t where "http q = Inr (status, t)" "hq_method q = meth" "hq_key q = key" "status < 200 \<or> 300 \<le> status"
      "x = Inl (classifyAPIError lib status (limited t))"
  | "x = Inl (ErrText ''decode BlindPay response'')"
  | q status t y where "http q = Inr (status, t)" "hq_method q = meth" "hq_key q = key" "200 \<le> status" "status < 300" "x = Inr y"
proof -
  define q where "q = \<lparr>hq_method = meth, hq_url = cl_baseURL c @ ''/instances/'' @ PathEscape (cl_instanceID c) @ path,
    hq_authorization = ''Bearer '' @ cl_apiKey c, hq_key = key, hq_body = body\<rparr>"
  note run = assms [unfolded do_request_def, folded q_def]
  have q: "hq_method q = meth" "hq_key q = key" by (simp_all add: q_def)
  show thesis
  proof (cases "http q")
    case (Inl e)
    with run show thesis by (intro that(1) [of e]) simp
  next
    case (Inr a)
    then obtain status t where a: "http q = Inr (status, t)" by (cases a) auto
    show thesis
    proof (cases "status < 200 \<or> 300 \<le> status")
      case True
      with run a q show thesis by (intro that(2) [of q status t]) (auto simp: Let_def)
    next
      case False
      with run a have "x = Inl (ErrText ''decode BlindPay response'') \<or> \<not> isl x"
        by (auto simp: Let_def split: raw.splits option.splits if_splits)
      then consider "x = Inl (ErrText ''decode BlindPay response'')" | y where "x = Inr y" by (cases x) auto
      then show thesis by cases (use False a q that(3) that(4) [of q status t] in auto)
    qed
  qed
qed

lemma classifyAPIError_kind:
  "classifyAPIError lib status t = ErrAPI a \<Longrightarrow> ae_StatusCode a = status \<and>
     (ae_Kind a = ErrorRetryable \<longleftrightarrow> status = 429 \<or> 500 \<le> status)"
  by (auto simp: classifyAPIError_def error_kind_def split: prod.splits if_splits)

lemma CreateQuote_Inr:
  assumes "CreateQuote lib http c r = Inr q"
  shows "HasPrefix (bqt_ID q) ''qu_''" "0 < bqt_ExpiresAt q" "0 < bqt_SenderAmount q" "0 < bqt_ReceiverAmount q"
  using assms by (auto simp: CreateQuote_def bindE_Inr_iff split: if_splits)

lemma CreateEVMPayout_Inr:
  assumes "CreateEVMPayout lib http c r = Inr p"
  shows "HasPrefix (bpo_ID p) ''po_''" "bpo_Status p \<noteq> ''''"
  using assms by (auto simp: CreateEVMPayout_def bindE_Inr_iff split: if_splits)

lemma CreatePayin_Inr:
  assumes "CreatePayin lib http c key quoteID = Inr p"
  shows "HasPrefix (bpi_ID p) ''pi_''" "bpi_Status p \<noteq> ''''"
  using assms by (auto simp: CreatePayin_def bindE_Inr_iff split: if_splits)

end
