(* ===== verification/Blindpay_Repo.thy ===== *)
theory Blindpay_Repo
  imports Http
begin

text \<open>
  The references to BlindPay objects (\<^verbatim>\<open>settlement/blindpay/repository.go\<close>): the customer, bank accounts and
  managed wallets of a tenant with their status, kept by upserts, and the resources of the platform that
  point to them. An upsert of a bank account or wallet makes two writes, each a transaction of its own, so
  the tables are returned beside its result.

  The lemmas: upserts keep the constraints of \<^verbatim>\<open>migrations/010_blindpay.sql\<close> and never change a row of another
  tenant; a profile is returned only when all its parts are usable.
\<close>

subsection \<open>References and tables\<close>

record CustomerReference =
  cu_TenantID :: string
  cu_ProviderCustomerID :: string
  cu_KYCStatus :: string

definition kyc_statuses :: "string set" where
  "kyc_statuses = {''verifying'', ''approved'', ''rejected'', ''compliance_request'', ''approved_rfi''}"

definition CustomerReference_Validate :: "CustomerReference \<Rightarrow> unit result" where
  "CustomerReference_Validate r =
     (if TrimSpace (cu_TenantID r) = '''' \<or> \<not> HasPrefix (cu_ProviderCustomerID r) ''re_''
      then Inl (ErrText ''tenant ID and BlindPay customer ID are required'')
      else if cu_KYCStatus r \<in> kyc_statuses then Inr () else Inl (ErrText ''invalid BlindPay customer KYC status''))"

record BankAccountReference =
  ba_ProviderBankAccountID :: string
  ba_TenantID :: string
  ba_Rail :: string
  ba_DisplayName :: string
  ba_AccountLastFour :: string
  ba_Status :: string

definition BankAccountReference_Validate :: "BankAccountReference \<Rightarrow> unit result" where
  "BankAccountReference_Validate r =
     (if \<not> HasPrefix (ba_ProviderBankAccountID r) ''ba_'' \<or> ba_TenantID r = '''' \<or> ba_Rail r = '''' \<or>
         ba_DisplayName r = '''' \<or> 4 < length (ba_AccountLastFour r)
      then Inl (ErrText ''invalid BlindPay bank account reference'')
      else if ba_Status r \<in> {''pending'', ''approved'', ''rejected''} then Inr ()
      else Inl (ErrText ''invalid BlindPay bank account status''))"

record ManagedWalletReference =
  wa_ProviderWalletID :: string
  wa_TenantID :: string
  wa_Network :: string
  wa_Address :: string
  wa_DisplayName :: string
  wa_Status :: string

definition ManagedWalletReference_Validate :: "ManagedWalletReference \<Rightarrow> unit result" where
  "ManagedWalletReference_Validate r =
     (if \<not> HasPrefix (wa_ProviderWalletID r) ''bl_'' \<or> wa_TenantID r = '''' \<or> wa_Network r = '''' \<or>
         wa_Address r = '''' \<or> wa_DisplayName r = ''''
      then Inl (ErrText ''invalid BlindPay managed wallet reference'')
      else if wa_Status r \<noteq> ''active'' \<and> wa_Status r \<noteq> ''disabled''
      then Inl (ErrText ''invalid BlindPay managed wallet status'') else Inr ())"

text \<open>A row is its reference with the two timestamps.\<close>

record references =
  bp_customers :: "(CustomerReference \<times> time \<times> time) list"
  bp_banks :: "(BankAccountReference \<times> time \<times> time) list"
  bp_wallets :: "(ManagedWalletReference \<times> time \<times> time) list"

definition customers_ok :: "(CustomerReference \<times> time \<times> time) list \<Rightarrow> bool" where
  "customers_ok t \<longleftrightarrow> distinct (map (cu_TenantID \<circ> fst) t) \<and> distinct (map (cu_ProviderCustomerID \<circ> fst) t) \<and>
     list_all (\<lambda>(c, _). HasPrefix (cu_ProviderCustomerID c) ''re_'' \<and> cu_KYCStatus c \<in> kyc_statuses) t"

definition banks_ok :: "(BankAccountReference \<times> time \<times> time) list \<Rightarrow> bool" where
  "banks_ok t \<longleftrightarrow> distinct (map (ba_ProviderBankAccountID \<circ> fst) t) \<and>
     list_all (\<lambda>(b, _). HasPrefix (ba_ProviderBankAccountID b) ''ba_'' \<and> length (ba_AccountLastFour b) \<le> 4 \<and>
       ba_Status b \<in> {''pending'', ''approved'', ''rejected''}) t"

definition wallets_ok :: "(ManagedWalletReference \<times> time \<times> time) list \<Rightarrow> bool" where
  "wallets_ok t \<longleftrightarrow> distinct (map (wa_ProviderWalletID \<circ> fst) t) \<and>
     distinct (map (\<lambda>(w, _). (wa_Network w, wa_Address w)) t) \<and>
     list_all (\<lambda>(w, _). HasPrefix (wa_ProviderWalletID w) ''bl_'' \<and> wa_Status w \<in> {''active'', ''disabled''}) t"

definition has_customer :: "string \<Rightarrow> references \<Rightarrow> bool" where
  "has_customer tenant rf \<longleftrightarrow> tenant \<in> set (map (cu_TenantID \<circ> fst) (bp_customers rf))"

definition references_ok :: "references \<Rightarrow> bool" where
  "references_ok rf \<longleftrightarrow> customers_ok (bp_customers rf) \<and> banks_ok (bp_banks rf) \<and> wallets_ok (bp_wallets rf) \<and>
     list_all (\<lambda>(b, _). has_customer (ba_TenantID b) rf) (bp_banks rf) \<and>
     list_all (\<lambda>(w, _). has_customer (wa_TenantID w) rf) (bp_wallets rf)"

definition put_customers :: "(CustomerReference \<times> time \<times> time) list \<Rightarrow> references \<Rightarrow> references result" where
  "put_customers t rf = (if customers_ok t then Inr (rf\<lparr>bp_customers := t\<rparr>) else Inl (ErrConstraint ''blindpay_customers''))"

definition put_banks :: "(BankAccountReference \<times> time \<times> time) list \<Rightarrow> references \<Rightarrow> references result" where
  "put_banks t rf = (if banks_ok t \<and> list_all (\<lambda>(b, _). has_customer (ba_TenantID b) rf) t
     then Inr (rf\<lparr>bp_banks := t\<rparr>) else Inl (ErrConstraint ''blindpay_bank_accounts''))"

definition put_wallets :: "(ManagedWalletReference \<times> time \<times> time) list \<Rightarrow> references \<Rightarrow> references result" where
  "put_wallets t rf = (if wallets_ok t \<and> list_all (\<lambda>(w, _). has_customer (wa_TenantID w) rf) t
     then Inr (rf\<lparr>bp_wallets := t\<rparr>) else Inl (ErrConstraint ''blindpay_managed_wallets''))"

text \<open>\<^verbatim>\<open>INSERT ... ON CONFLICT (key) DO UPDATE ... WHERE cond\<close>: a conflicting row that fails the condition stays.\<close>

definition upsert :: "('r \<Rightarrow> bool) \<Rightarrow> ('r \<Rightarrow> bool) \<Rightarrow> ('r \<Rightarrow> 'r) \<Rightarrow> 'r \<Rightarrow> 'r list \<Rightarrow> 'r list" where
  "upsert conflict cond f new t =
     (if list_ex conflict t then update_where (\<lambda>r. conflict r \<and> cond r) f t else t @ [new])"

subsection \<open>Upserts\<close>

definition UpsertCustomer :: "time \<Rightarrow> CustomerReference \<Rightarrow> references \<Rightarrow> references result" where
  "UpsertCustomer now ref rf =
     bindE (CustomerReference_Validate ref) (\<lambda>_.
       put_customers (upsert (\<lambda>(c, _). cu_TenantID c = cu_TenantID ref) (\<lambda>_. True)
         (\<lambda>(c, created, _). (c\<lparr>cu_ProviderCustomerID := cu_ProviderCustomerID ref, cu_KYCStatus := cu_KYCStatus ref\<rparr>, created, now))
         (ref, now, now) (bp_customers rf)) rf)"

definition resources_ok :: "resource_row list \<Rightarrow> bool" where
  "resources_ok t \<longleftrightarrow> distinct (map rs_id t) \<and> distinct (map (\<lambda>r. (rs_provider r, rs_type r, rs_reference r)) t) \<and>
     list_all (\<lambda>r. rs_type r \<in> {''account'', ''payment_instrument''}) t"

definition upsertProviderResource :: "string \<Rightarrow> string \<Rightarrow> string \<Rightarrow> string \<Rightarrow> json \<Rightarrow> db \<Rightarrow> db result" where
  "upsertProviderResource i tenant ty reference metadata s =
     (let t = upsert (\<lambda>r. rs_id r = i) (\<lambda>r. rs_tenant r = tenant \<and> rs_provider r = ''blindpay'')
            (\<lambda>r. r\<lparr>rs_reference := reference, rs_metadata := Raw metadata\<rparr>)
            \<lparr>rs_id = i, rs_tenant = tenant, rs_provider = ''blindpay'', rs_type = ty, rs_reference = reference,
             rs_metadata = Raw metadata\<rparr> (resources s)
      in if resources_ok t then Inr (s\<lparr>resources := t\<rparr>) else Inl (ErrConstraint ''provider_resources''))"

definition UpsertBankAccount ::
  "time \<Rightarrow> BankAccountReference \<Rightarrow> references \<times> db \<Rightarrow> (references \<times> db) \<times> unit result" where
  "UpsertBankAccount now ref st =
     (case st of (rf, s) \<Rightarrow>
        (case bindE (BankAccountReference_Validate ref) (\<lambda>_.
                put_banks (upsert (\<lambda>(b, _). ba_ProviderBankAccountID b = ba_ProviderBankAccountID ref)
                  (\<lambda>(b, _). ba_TenantID b = ba_TenantID ref)
                  (\<lambda>(b, created, _). (b\<lparr>ba_Rail := ba_Rail ref, ba_DisplayName := ba_DisplayName ref,
                     ba_AccountLastFour := ba_AccountLastFour ref, ba_Status := ba_Status ref\<rparr>, created, now))
                  (ref, now, now) (bp_banks rf)) rf) of
           Inl err \<Rightarrow> ((rf, s), Inl err)
         | Inr rf' \<Rightarrow>
            (case upsertProviderResource (ba_ProviderBankAccountID ref) (ba_TenantID ref) ''payment_instrument''
                    (ba_ProviderBankAccountID ref)
                    (JObj [(''kind'', JStr ''bank_account''), (''rail'', JStr (ba_Rail ref))]) s of
               Inl err \<Rightarrow> ((rf', s), Inl err)
             | Inr s' \<Rightarrow> ((rf', s'), Inr ()))))"

definition UpsertManagedWallet ::
  "time \<Rightarrow> ManagedWalletReference \<Rightarrow> references \<times> db \<Rightarrow> (references \<times> db) \<times> unit result" where
  "UpsertManagedWallet now ref st =
     (case st of (rf, s) \<Rightarrow>
        (case bindE (ManagedWalletReference_Validate ref) (\<lambda>_.
                put_wallets (upsert (\<lambda>(w, _). wa_ProviderWalletID w = wa_ProviderWalletID ref)
                  (\<lambda>(w, _). wa_TenantID w = wa_TenantID ref)
                  (\<lambda>(w, created, _). (w\<lparr>wa_Network := wa_Network ref, wa_Address := wa_Address ref,
                     wa_DisplayName := wa_DisplayName ref, wa_Status := wa_Status ref\<rparr>, created, now))
                  (ref, now, now) (bp_wallets rf)) rf) of
           Inl err \<Rightarrow> ((rf, s), Inl err)
         | Inr rf' \<Rightarrow>
            (case upsertProviderResource (wa_ProviderWalletID ref) (wa_TenantID ref) ''account'' (wa_ProviderWalletID ref)
                    (JObj [(''kind'', JStr ''managed_wallet''), (''network'', JStr (wa_Network ref)),
                       (''address'', JStr (wa_Address ref))]) s of
               Inl err \<Rightarrow> ((rf', s), Inl err)
             | Inr s' \<Rightarrow> ((rf', s'), Inr ()))))"

subsection \<open>Reads\<close>

definition LoadPayoutExecutionContext :: "string \<Rightarrow> db \<Rightarrow> raw result" where
  "LoadPayoutExecutionContext quoteID s =
     (case List.find (\<lambda>q. q_direction q = PaymentDirectionPayout \<and> q_provider q = ''blindpay'' \<and> q_provider_quote_id q = quoteID) (quotes s) of
        None \<Rightarrow> Inl ErrReferenceNotFound | Some q \<Rightarrow> Inr (q_execution_context q))"

definition ResolveProviderResource :: "string \<Rightarrow> string \<Rightarrow> string \<Rightarrow> db \<Rightarrow> (string \<times> raw) result" where
  "ResolveProviderResource tenant i ty s =
     (case List.find (\<lambda>r. rs_id r = i \<and> rs_tenant r = tenant \<and> rs_provider r = ''blindpay'' \<and> rs_type r = ty) (resources s) of
        None \<Rightarrow> Inl ErrReferenceNotFound | Some r \<Rightarrow> Inr (rs_reference r, rs_metadata r))"

record PayoutProfile =
  pf_Customer :: CustomerReference
  pf_BankAccount :: BankAccountReference
  pf_ManagedWallet :: ManagedWalletReference

definition GetApprovedPayoutProfile :: "string \<Rightarrow> string \<Rightarrow> string \<Rightarrow> references \<Rightarrow> PayoutProfile result" where
  "GetApprovedPayoutProfile tenant bank wallet rf =
     (case (List.find (\<lambda>(c, _). cu_TenantID c = tenant) (bp_customers rf),
            List.find (\<lambda>(b, _). ba_TenantID b = tenant \<and> ba_ProviderBankAccountID b = bank) (bp_banks rf),
            List.find (\<lambda>(w, _). wa_TenantID w = tenant \<and> wa_ProviderWalletID w = wallet) (bp_wallets rf)) of
        (Some (c, _), Some (b, _), Some (w, _)) \<Rightarrow>
          if cu_KYCStatus c \<noteq> ''approved'' \<and> cu_KYCStatus c \<noteq> ''approved_rfi'' then Inl ErrCustomerNotApproved
          else if ba_Status b \<noteq> ''approved'' then Inl ErrBankAccountNotApproved
          else if wa_Status w \<noteq> ''active'' then Inl ErrManagedWalletInactive
          else Inr \<lparr>pf_Customer = c, pf_BankAccount = b, pf_ManagedWallet = w\<rparr>
      | _ \<Rightarrow> Inl ErrReferenceNotFound)"

subsection \<open>What upserts keep\<close>

lemma upsert_all:
  assumes "list_all P t" and "P new" and "\<And>r. P r \<Longrightarrow> conflict r \<Longrightarrow> cond r \<Longrightarrow> P (f r)"
  shows "list_all P (upsert conflict cond f new t)"
  using assms by (auto simp: upsert_def list_all_iff set_update_where)

text \<open>The rows of another owner stay as they are, in their places.\<close>

lemma upsert_others:
  assumes "\<And>r. conflict r \<Longrightarrow> cond r \<Longrightarrow> \<not> other r \<and> \<not> other (f r)" and "\<not> other new"
  shows "filter other (upsert conflict cond f new t) = filter other t"
proof -
  have "filter other (update_where (\<lambda>r. conflict r \<and> cond r) f t) = filter other t"
    using assms(1) by (induction t) auto
  with assms(2) show ?thesis by (simp add: upsert_def)
qed

lemma upsert_keys:
  assumes "\<And>r. conflict r \<Longrightarrow> cond r \<Longrightarrow> k (f r) = k r"
  shows "set (map k t) \<subseteq> set (map k (upsert conflict cond f new t))"
proof -
  have "map k (update_where (\<lambda>r. conflict r \<and> cond r) f t) = map k t" by (rule map_update_where) (use assms in blast)
  then show ?thesis by (simp add: upsert_def del: set_map) (simp add: subset_insertI)
qed

definition tenant_references :: "string \<Rightarrow> references \<times> db \<Rightarrow>
  (CustomerReference \<times> time \<times> time) list \<times> (BankAccountReference \<times> time \<times> time) list \<times>
  (ManagedWalletReference \<times> time \<times> time) list \<times> resource_row list" where
  "tenant_references t st = (case st of (rf, s) \<Rightarrow>
     (filter (\<lambda>(c, _). cu_TenantID c = t) (bp_customers rf), filter (\<lambda>(b, _). ba_TenantID b = t) (bp_banks rf),
      filter (\<lambda>(w, _). wa_TenantID w = t) (bp_wallets rf), filter (\<lambda>r. rs_tenant r = t) (resources s)))"

inductive reference_step :: "references \<times> db \<Rightarrow> references \<times> db \<Rightarrow> string \<Rightarrow> bool" where
  customer: "UpsertCustomer now c rf = Inr rf' \<Longrightarrow> reference_step (rf, s) (rf', s) (cu_TenantID c)"
| bank: "UpsertBankAccount now b st = (st', r) \<Longrightarrow> reference_step st st' (ba_TenantID b)"
| wallet: "UpsertManagedWallet now w st = (st', r) \<Longrightarrow> reference_step st st' (wa_TenantID w)"

text \<open>What a write in the name of one tenant keeps.\<close>

definition reference_write :: "string \<Rightarrow> references \<times> db \<Rightarrow> references \<times> db \<Rightarrow> bool" where
  "reference_write tenant st st' \<longleftrightarrow> (references_ok (fst st) \<longrightarrow> references_ok (fst st')) \<and>
     (\<forall>t. t \<noteq> tenant \<longrightarrow> tenant_references t st' = tenant_references t st) \<and>
     (\<exists>u. snd st' = (snd st)\<lparr>resources := u\<rparr> \<and> set (map rs_id (resources (snd st))) \<subseteq> set (map rs_id u))"

lemma reference_write_refs:
  assumes "references_ok rf \<Longrightarrow> references_ok rf'" and "\<And>t. t \<noteq> tenant \<Longrightarrow> tenant_references t (rf', s) = tenant_references t (rf, s)"
  shows "reference_write tenant (rf, s) (rf', s)"
  unfolding reference_write_def using assms by (auto intro!: exI [of _ "resources s"])

lemma reference_write_refl: "reference_write tenant st st"
  by (cases st) (simp add: reference_write_refs)

lemma resource_write:
  assumes "upsertProviderResource i tenant ty reference metadata s = Inr s'"
  shows "reference_write tenant (rf, s) (rf, s')"
proof -
  let ?t = "upsert (\<lambda>r. rs_id r = i) (\<lambda>r. rs_tenant r = tenant \<and> rs_provider r = ''blindpay'')
            (\<lambda>r. r\<lparr>rs_reference := reference, rs_metadata := Raw metadata\<rparr>)
            \<lparr>rs_id = i, rs_tenant = tenant, rs_provider = ''blindpay'', rs_type = ty, rs_reference = reference,
             rs_metadata = Raw metadata\<rparr> (resources s)"
  from assms have s': "s' = s\<lparr>resources := ?t\<rparr>"
    by (auto simp: upsertProviderResource_def Let_def split: if_splits)
  have "filter (\<lambda>r. rs_tenant r = x) ?t = filter (\<lambda>r. rs_tenant r = x) (resources s)" if "x \<noteq> tenant" for x
    by (rule upsert_others) (use that in auto)
  moreover have "set (map rs_id (resources s)) \<subseteq> set (map rs_id ?t)" by (rule upsert_keys) auto
  ultimately show ?thesis by (auto simp: reference_write_def s' tenant_references_def simp del: set_map)
qed

lemma reference_write_trans:
  assumes "reference_write tenant a b" and "reference_write tenant b c"
  shows "reference_write tenant a c"
proof -
  from assms obtain u v where "snd b = (snd a)\<lparr>resources := u\<rparr>" "set (map rs_id (resources (snd a))) \<subseteq> set (map rs_id u)"
    "snd c = (snd b)\<lparr>resources := v\<rparr>" "set (map rs_id (resources (snd b))) \<subseteq> set (map rs_id v)"
    by (auto simp: reference_write_def simp del: set_map)
  then have "snd c = (snd a)\<lparr>resources := v\<rparr> \<and> set (map rs_id (resources (snd a))) \<subseteq> set (map rs_id v)"
    by (auto simp del: set_map)
  with assms show ?thesis by (auto simp: reference_write_def simp del: set_map)
qed

text \<open>The two writes of a bank account or a wallet: the second happens only after the first.\<close>

lemma two_writes:
  assumes "\<And>rf1. put = Inr rf1 \<Longrightarrow> reference_write tenant (rf, s) (rf1, s)"
    and "(case put of Inl err \<Rightarrow> ((rf, s), Inl err)
      | Inr rf1 \<Rightarrow> (case upsertProviderResource i tenant ty reference metadata s of
          Inl err \<Rightarrow> ((rf1, s), Inl err) | Inr s1 \<Rightarrow> ((rf1, s1), Inr ()))) = (st', r)"
  shows "reference_write tenant (rf, s) st'"
  using assms by (auto split: sum.splits intro: reference_write_refl reference_write_trans resource_write)

lemma customer_write:
  assumes "UpsertCustomer now c rf = Inr rf'"
  shows "reference_write (cu_TenantID c) (rf, s) (rf', s)"
proof (rule reference_write_refs)
  let ?t = "upsert (\<lambda>(x, _). cu_TenantID x = cu_TenantID c) (\<lambda>_. True)
         (\<lambda>(x, created, _). (x\<lparr>cu_ProviderCustomerID := cu_ProviderCustomerID c, cu_KYCStatus := cu_KYCStatus c\<rparr>, created, now))
         (c, now, now) (bp_customers rf)"
  from assms have rf': "rf' = rf\<lparr>bp_customers := ?t\<rparr>" and ok: "customers_ok ?t"
    by (auto simp: UpsertCustomer_def put_customers_def bindE_Inr_iff split: if_splits)
  have "set (map (cu_TenantID \<circ> fst) (bp_customers rf)) \<subseteq> set (map (cu_TenantID \<circ> fst) ?t)"
    by (rule upsert_keys) auto
  then have "has_customer x rf \<Longrightarrow> has_customer x rf'" for x unfolding has_customer_def rf' by auto
  with ok show "references_ok rf \<Longrightarrow> references_ok rf'" by (auto simp: references_ok_def rf' list_all_iff)
  show "tenant_references t (rf', s) = tenant_references t (rf, s)" if "t \<noteq> cu_TenantID c" for t
  proof -
    have "filter (\<lambda>(x, _). cu_TenantID x = t) ?t = filter (\<lambda>(x, _). cu_TenantID x = t) (bp_customers rf)"
      by (rule upsert_others) (use that in auto)
    then show ?thesis by (simp add: tenant_references_def rf')
  qed
qed

lemma put_banks_write:
  assumes "put_banks t rf = Inr rf'"
    and "\<And>x. x \<noteq> tenant \<Longrightarrow> filter (\<lambda>(b, _). ba_TenantID b = x) t = filter (\<lambda>(b, _). ba_TenantID b = x) (bp_banks rf)"
  shows "reference_write tenant (rf, s) (rf', s)"
proof (rule reference_write_refs)
  from assms(1) have rf': "rf' = rf\<lparr>bp_banks := t\<rparr>" and ok: "banks_ok t" "list_all (\<lambda>(b, _). has_customer (ba_TenantID b) rf) t"
    by (auto simp: put_banks_def split: if_splits)
  have "has_customer x rf' = has_customer x rf" for x by (simp add: has_customer_def rf')
  with ok show "references_ok rf \<Longrightarrow> references_ok rf'" by (simp add: references_ok_def rf')
  show "tenant_references x (rf', s) = tenant_references x (rf, s)" if "x \<noteq> tenant" for x
    using assms(2) [OF that] by (simp add: tenant_references_def rf')
qed

lemma put_wallets_write:
  assumes "put_wallets t rf = Inr rf'"
    and "\<And>x. x \<noteq> tenant \<Longrightarrow> filter (\<lambda>(w, _). wa_TenantID w = x) t = filter (\<lambda>(w, _). wa_TenantID w = x) (bp_wallets rf)"
  shows "reference_write tenant (rf, s) (rf', s)"
proof (rule reference_write_refs)
  from assms(1) have rf': "rf' = rf\<lparr>bp_wallets := t\<rparr>" and ok: "wallets_ok t" "list_all (\<lambda>(w, _). has_customer (wa_TenantID w) rf) t"
    by (auto simp: put_wallets_def split: if_splits)
  have "has_customer x rf' = has_customer x rf" for x by (simp add: has_customer_def rf')
  with ok show "references_ok rf \<Longrightarrow> references_ok rf'" by (simp add: references_ok_def rf')
  show "tenant_references x (rf', s) = tenant_references x (rf, s)" if "x \<noteq> tenant" for x
    using assms(2) [OF that] by (simp add: tenant_references_def rf')
qed

lemma bank_write:
  assumes "UpsertBankAccount now b (rf, s) = (st', r)"
  shows "reference_write (ba_TenantID b) (rf, s) st'"
  using assms unfolding UpsertBankAccount_def prod.case
  by (rule two_writes [rotated]) (auto simp: bindE_Inr_iff intro!: upsert_others elim!: put_banks_write)

lemma wallet_write:
  assumes "UpsertManagedWallet now w (rf, s) = (st', r)"
  shows "reference_write (wa_TenantID w) (rf, s) st'"
  using assms unfolding UpsertManagedWallet_def prod.case
  by (rule two_writes [rotated]) (auto simp: bindE_Inr_iff intro!: upsert_others elim!: put_wallets_write)

lemma reference_step_write: "reference_step st st' tenant \<Longrightarrow> reference_write tenant st st'"
  by (induction rule: reference_step.induct) (metis customer_write bank_write wallet_write surj_pair)+

subsection \<open>Properties\<close>

lemma store_ok_resources:
  assumes "store_ok s" and "set (map rs_id (resources s)) \<subseteq> set (map rs_id u)"
  shows "store_ok (s\<lparr>resources := u\<rparr>)"
  using assms by (auto simp: store_ok_def has_defs list_all_iff split: option.splits)

text \<open>C33: an upsert of a customer, bank account or managed wallet, also one that fails half way, keeps the
  constraints of the reference tables and of the store, and changes no row of another tenant, even when
  it names that row's identifier.\<close>

theorem reference_upserts_confined:
  assumes "reference_step (rf, s) (rf', s') tenant" and "references_ok rf" and "store_ok s"
  shows "references_ok rf' \<and> store_ok s' \<and> (\<forall>t. t \<noteq> tenant \<longrightarrow> tenant_references t (rf', s') = tenant_references t (rf, s))"
  using reference_step_write [OF assms(1)] assms(2,3)
  by (auto simp: reference_write_def simp del: set_map intro: store_ok_resources)

definition sample_references :: references where
  "sample_references = \<lparr>bp_customers = [(\<lparr>cu_TenantID = ''t1'', cu_ProviderCustomerID = ''re_1'', cu_KYCStatus = ''approved''\<rparr>, 1, 1)],
     bp_banks = [(\<lparr>ba_ProviderBankAccountID = ''ba_1'', ba_TenantID = ''t1'', ba_Rail = ''ach'', ba_DisplayName = ''b'',
       ba_AccountLastFour = ''1234'', ba_Status = ''approved''\<rparr>, 1, 1)],
     bp_wallets = [(\<lparr>wa_ProviderWalletID = ''bl_1'', wa_TenantID = ''t1'', wa_Network = ''base'', wa_Address = ''0x1'',
       wa_DisplayName = ''w'', wa_Status = ''active''\<rparr>, 1, 1)]\<rparr>"

definition stolen_bank :: BankAccountReference where
  "stolen_bank = \<lparr>ba_ProviderBankAccountID = ''ba_1'', ba_TenantID = ''t2'', ba_Rail = ''wire'', ba_DisplayName = ''x'',
     ba_AccountLastFour = '''', ba_Status = ''rejected''\<rparr>"

theorem reference_upserts_confined_witness:
  "tenant_references ''t1'' (fst (UpsertBankAccount 9 stolen_bank (sample_references, empty_db))) =
     tenant_references ''t1'' (sample_references, empty_db) \<and>
   snd (UpsertBankAccount 9 stolen_bank (sample_references, empty_db)) = Inr ()"
proof -
  obtain rf' s' r where run: "UpsertBankAccount 9 stolen_bank (sample_references, empty_db) = ((rf', s'), r)"
    by (metis surj_pair)
  have step: "reference_step (sample_references, empty_db) (rf', s') ''t2''"
    using reference_step.bank [OF run] by (simp add: stolen_bank_def)
  have "references_ok sample_references" by code_simp
  from reference_upserts_confined [OF step this store_ok_empty] run
  have "tenant_references ''t1'' (fst (UpsertBankAccount 9 stolen_bank (sample_references, empty_db))) =
     tenant_references ''t1'' (sample_references, empty_db)" by simp
  moreover have "snd (UpsertBankAccount 9 stolen_bank (sample_references, empty_db)) = Inr ()" by code_simp
  ultimately show ?thesis by blast
qed

end
