(* ===== verification/Blindpay_Provider.thy ===== *)
theory Blindpay_Provider
  imports Blindpay_Client Blindpay_Repo Bp_Webhook
begin

text \<open>
  BlindPay as a settlement provider (\<^verbatim>\<open>settlement/blindpay/payout_quote.go\<close>, \<^verbatim>\<open>provider.go\<close>, \<^verbatim>\<open>payin.go\<close>): payout
  quotes against an approved profile and a sufficient balance, payouts from a managed wallet, pay-in quotes
  and pay-ins. A provider reads the references and the database as they are when it is called.
\<close>

subsection \<open>Payout quotes\<close>

record bp_PayoutQuoteRequest =
  pr_IdempotencyKey :: string
  pr_TenantID :: string
  pr_BankAccountID :: string
  pr_ManagedWalletID :: string
  pr_SourceAccountID :: string
  pr_DestinationInstrumentID :: string
  pr_FundingMethod :: string
  pr_DestinationCurrency :: string
  pr_CurrencyType :: string
  pr_CoverFees :: bool
  pr_AmountMinor :: int
  pr_PartnerFeeID :: string

record bp_PayoutQuote =
  pt_ID :: string
  pt_Provider :: string
  pt_ProviderQuoteID :: string
  pt_TenantID :: string
  pt_SourceAccountID :: string
  pt_DestinationInstrumentID :: string
  pt_SourceCurrency :: string
  pt_DestinationCurrency :: string
  pt_CurrencyType :: string
  pt_CoverFees :: bool
  pt_SenderAmountMinor :: int
  pt_ReceiverAmountMinor :: int
  pt_CommercialRate :: string
  pt_ProviderRate :: string
  pt_FlatFeeMinor :: int
  pt_PartnerFeeMinor :: int
  pt_BillingFeeMinor :: "int option"
  pt_RawPayload :: raw
  pt_Status :: string
  pt_ExpiresAt :: time
  pt_CreatedAt :: time

text \<open>The client as the quote service uses it.\<close>

record quoteClient =
  qc_CreateQuote :: "bp_QuoteRequest \<Rightarrow> bp_Quote result"
  qc_GetManagedWalletBalance :: "string \<Rightarrow> string \<Rightarrow> balance_map result"

record QuoteService =
  qs_client :: quoteClient
  qs_network :: string
  qs_token :: string

definition NewQuoteService :: "quoteClient \<Rightarrow> string \<Rightarrow> string \<Rightarrow> QuoteService result" where
  "NewQuoteService client network token =
     (if network = '''' \<or> token = ''''
      then Inl (ErrText ''BlindPay quote client, repository, network, and token are required'')
      else Inr \<lparr>qs_client = client, qs_network = network, qs_token = token\<rparr>)"

text \<open>\<^verbatim>\<open>time.UnixMilli\<close>.\<close>

definition UnixMilli :: "int \<Rightarrow> time" where
  "UnixMilli ms = (62135596800000 + ms) * 1000000"

text \<open>The encoding of a quote that stands in for a missing payload; an empty \<^verbatim>\<open>json.Number\<close> is written as 0.\<close>

definition number_json :: "string \<Rightarrow> json" where
  "number_json t = (if t = '''' then JNum 0 else JReal t)"

definition contract_json :: "Contract \<Rightarrow> json" where
  "contract_json c = JObj [(''Address'', JStr (ct_Address c)), (''FunctionName'', JStr (ct_FunctionName c)),
     (''BlindPayContractAddress'', JStr (ct_BlindPayContractAddress c)), (''Amount'', JStr (ct_Amount c)),
     (''ABI'', raw_json (ct_ABI c)),
     (''network'', JObj [(''name'', JStr (ct_NetworkName c)), (''chainId'', JNum (ct_ChainID c))])]"

definition bp_quote_json :: "bp_Quote \<Rightarrow> json" where
  "bp_quote_json q = JObj [(''id'', JStr (bqt_ID q)), (''expires_at'', JNum (bqt_ExpiresAt q)),
     (''commercial_quotation'', number_json (bqt_CommercialQuotation q)),
     (''blindpay_quotation'', number_json (bqt_BlindPayQuotation q)),
     (''SenderAmount'', JNum (bqt_SenderAmount q)), (''ReceiverAmount'', JNum (bqt_ReceiverAmount q)),
     (''PartnerFeeAmount'', JNum (bqt_PartnerFeeAmount q)), (''FlatFee'', JNum (bqt_FlatFee q)),
     (''BillingFeeAmount'', (case bqt_BillingFeeAmount q of None \<Rightarrow> JNull | Some f \<Rightarrow> JNum f)),
     (''contract'', (case bqt_Contract q of None \<Rightarrow> JNull | Some c \<Rightarrow> contract_json c))]"

definition QuoteService_Create ::
  "QuoteService \<Rightarrow> references \<Rightarrow> time \<Rightarrow> bp_PayoutQuoteRequest \<Rightarrow> bp_PayoutQuote result" where
  "QuoteService_Create v rf now r0 =
     (let r = r0\<lparr>pr_DestinationCurrency := ToUpper (TrimSpace (pr_DestinationCurrency r0))\<rparr> in
      if pr_IdempotencyKey r = '''' \<or> pr_TenantID r = '''' \<or> \<not> HasPrefix (pr_BankAccountID r) ''ba_'' \<or>
         \<not> HasPrefix (pr_ManagedWalletID r) ''bl_'' \<or> length (pr_DestinationCurrency r) \<noteq> 3 \<or> pr_AmountMinor r \<le> 0 \<or>
         (pr_CurrencyType r \<noteq> ''sender'' \<and> pr_CurrencyType r \<noteq> ''receiver'')
      then Inl (ErrText ''invalid BlindPay payout quote request'')
      else bindE (GetApprovedPayoutProfile (pr_TenantID r) (pr_BankAccountID r) (pr_ManagedWalletID r) rf) (\<lambda>profile.
        if wa_Network (pf_ManagedWallet profile) \<noteq> qs_network v
        then Inl (ErrText ''managed wallet network does not match configured BlindPay network'')
        else bindE (qc_CreateQuote (qs_client v) \<lparr>bq_IdempotencyKey = pr_IdempotencyKey r, bq_BankAccountID = pr_BankAccountID r,
            bq_CurrencyType = pr_CurrencyType r, bq_CoverFees = pr_CoverFees r, bq_RequestAmount = pr_AmountMinor r,
            bq_Network = qs_network v, bq_Token = qs_token v, bq_PartnerFeeID = pr_PartnerFeeID r\<rparr>) (\<lambda>q.
          let expiresAt = UnixMilli (bqt_ExpiresAt q) in
          if \<not> now < expiresAt then Inl (ErrText ''BlindPay returned an expired payout quote'')
          else bindE (qc_GetManagedWalletBalance (qs_client v) (cu_ProviderCustomerID (pf_Customer profile)) (pr_ManagedWalletID r)) (\<lambda>balance.
            let enough = (case balance (ToUpper (qs_token v)) of None \<Rightarrow> False | Some asset \<Rightarrow> bqt_SenderAmount q \<le> mw_Amount asset) in
            if \<not> enough then Inl (ErrText ''managed wallet has insufficient balance for payout'')
            else Inr \<lparr>pt_ID = bqt_ID q, pt_Provider = ''blindpay'', pt_ProviderQuoteID = bqt_ID q, pt_TenantID = pr_TenantID r,
              pt_SourceAccountID = (if pr_SourceAccountID r = '''' then pr_ManagedWalletID r else pr_SourceAccountID r),
              pt_DestinationInstrumentID =
                (if pr_DestinationInstrumentID r = '''' then pr_BankAccountID r else pr_DestinationInstrumentID r),
              pt_SourceCurrency = qs_token v, pt_DestinationCurrency = pr_DestinationCurrency r,
              pt_CurrencyType = pr_CurrencyType r, pt_CoverFees = pr_CoverFees r, pt_SenderAmountMinor = bqt_SenderAmount q,
              pt_ReceiverAmountMinor = bqt_ReceiverAmount q, pt_CommercialRate = bqt_CommercialQuotation q,
              pt_ProviderRate = bqt_BlindPayQuotation q, pt_FlatFeeMinor = bqt_FlatFee q,
              pt_PartnerFeeMinor = bqt_PartnerFeeAmount q, pt_BillingFeeMinor = bqt_BillingFeeAmount q,
              pt_RawPayload = or_raw (bqt_RawPayload q) (bp_quote_json q), pt_Status = ''open'',
              pt_ExpiresAt = expiresAt, pt_CreatedAt = now\<rparr>))))"

subsection \<open>The provider\<close>

record Provider =
  pv_quotes :: QuoteService
  pv_client :: Client

text \<open>What the provider meets when it is called: the network, the clock, the references and the database.\<close>

record surroundings =
  su_json :: jsonlib
  su_http :: http
  su_now :: time
  su_refs :: references
  su_db :: db

definition api_quote_client :: "jsonlib \<Rightarrow> http \<Rightarrow> Client \<Rightarrow> quoteClient" where
  "api_quote_client lib http c = \<lparr>qc_CreateQuote = CreateQuote lib http c,
     qc_GetManagedWalletBalance = GetManagedWalletBalance lib http c\<rparr>"

text \<open>The wallet address in a resource's metadata or a quote's execution context.\<close>

definition bp_address :: "raw \<Rightarrow> string option" where
  "bp_address r = (case Unmarshal_str ''address'' r of None \<Rightarrow> None | Some a \<Rightarrow> if a = '''' then None else Some a)"

definition bp_CreatePayoutQuote :: "Provider \<Rightarrow> surroundings \<Rightarrow> PayoutQuoteRequest \<Rightarrow> ProviderQuote result" where
  "bp_CreatePayoutQuote p u r =
     bindE (ResolveProviderResource (qr_TenantID r) (qr_SourceAccountID r) ''account'' (su_db u)) (\<lambda>(source, metadata).
       case bp_address metadata of
         None \<Rightarrow> Inl (ErrText ''BlindPay payout source account has no wallet address'')
       | Some address \<Rightarrow>
          bindE (ResolveProviderResource (qr_TenantID r) (qr_DestinationInstrumentID r) ''payment_instrument'' (su_db u)) (\<lambda>(destination, _).
          bindE (QuoteService_Create (pv_quotes p) (su_refs u) (su_now u) \<lparr>pr_IdempotencyKey = qr_IdempotencyKey r,
              pr_TenantID = qr_TenantID r, pr_BankAccountID = destination, pr_ManagedWalletID = source,
              pr_SourceAccountID = qr_SourceAccountID r, pr_DestinationInstrumentID = qr_DestinationInstrumentID r,
              pr_FundingMethod = qr_FundingMethod r, pr_DestinationCurrency = qr_DestinationCurrency r,
              pr_CurrencyType = qr_CurrencyType r, pr_CoverFees = qr_CoverFees r, pr_AmountMinor = qr_AmountMinor r,
              pr_PartnerFeeID = ''''\<rparr>) (\<lambda>q.
            Inr \<lparr>pq_ProviderQuoteID = pt_ProviderQuoteID q, pq_SourceCurrency = pt_SourceCurrency q,
              pq_DestinationCurrency = pt_DestinationCurrency q, pq_SenderAmountMinor = pt_SenderAmountMinor q,
              pq_ReceiverAmountMinor = pt_ReceiverAmountMinor q, pq_CommercialRate = pt_CommercialRate q,
              pq_ProviderRate = pt_ProviderRate q, pq_FlatFeeMinor = pt_FlatFeeMinor q,
              pq_PartnerFeeMinor = pt_PartnerFeeMinor q, pq_BillingFeeMinor = pt_BillingFeeMinor q,
              pq_ExpiresAt = pt_ExpiresAt q, pq_Payload = pt_RawPayload q,
              pq_ExecutionContext = Raw (JObj [(''address'', JStr address)])\<rparr>)))"

definition checked :: "ExecutionResult \<Rightarrow> ExecutionResult result" where
  "checked r = bindE (ExecutionResult_Validate r) (\<lambda>_. Inr r)"

definition payout_result :: "bp_Payout \<Rightarrow> ExecutionResult result" where
  "payout_result p =
     (let with = (\<lambda>st code. \<lparr>er_ProviderReference = bpo_ID p, er_Status = st, er_FailureCode = code,
                     er_FailureMessage = '''', er_Payload = bpo_RawPayload p\<rparr>);
          st = bpo_Status p
      in if st = ''completed'' then checked (with ExecutionSucceeded '''')
         else if st \<in> {''processing'', ''submission_pending'', ''unknown''} then checked (with ExecutionPending '''')
         else if st = ''on_hold'' then checked (with ExecutionOnHold '''')
         else if st \<in> {''failed'', ''refunded'', ''submission_failed''} then checked (with ExecutionFailed st)
         else Inl (ErrText ''unsupported BlindPay payout status''))"

fun payout_error :: "err \<Rightarrow> err" where
  "payout_error (ErrAPI a) = ErrProvider \<lparr>pe_Message = err_text (ErrAPI a),
     pe_Code = (if ae_Kind a = ErrorRetryable then '''' else ''submission_failed''), pe_Retryable = (ae_Kind a = ErrorRetryable)\<rparr>"
| "payout_error e = e"

definition bp_ExecutePayout :: "Provider \<Rightarrow> surroundings \<Rightarrow> ExecuteRequest \<Rightarrow> ExecutionResult result" where
  "bp_ExecutePayout p u r =
     bindE (ExecuteRequest_Validate r) (\<lambda>_.
     bindE (LoadPayoutExecutionContext (xr_ProviderQuoteID r) (su_db u)) (\<lambda>context.
       case bp_address context of
         None \<Rightarrow> Inl (ErrText ''BlindPay payout quote has no execution context'')
       | Some address \<Rightarrow>
          (case CreateEVMPayout (su_json u) (su_http u) (pv_client p) \<lparr>br_IdempotencyKey = xr_IdempotencyKey r,
                  br_QuoteID = xr_ProviderQuoteID r, br_SenderWalletAddress = address\<rparr> of
             Inl err \<Rightarrow> Inl (payout_error err)
           | Inr v \<Rightarrow> payout_result v)))"

definition blindpay_payouts :: "Provider \<Rightarrow> surroundings \<Rightarrow> PayoutProvider" where
  "blindpay_payouts p u = \<lparr>pp_Name = ''blindpay'', pp_CreatePayoutQuote = bp_CreatePayoutQuote p u,
     pp_ExecutePayout = bp_ExecutePayout p u\<rparr>"

subsection \<open>Pay-ins\<close>

definition payinCurrency :: "string \<Rightarrow> string" where
  "payinCurrency meth =
     (if meth = ''pix'' then ''BRL'' else if meth = ''spei'' then ''MXN'' else if meth = ''transfers'' then ''ARS''
      else if meth = ''pse'' then ''COP'' else ''USD'')"

definition provider_CreatePayinQuote :: "Provider \<Rightarrow> surroundings \<Rightarrow> PayinQuoteRequest \<Rightarrow> ProviderQuote result" where
  "provider_CreatePayinQuote p u r =
     bindE (PayinQuoteRequest_Validate r) (\<lambda>_.
     bindE (ResolveProviderResource (qr_TenantID r) (qr_DestinationAccountID r) ''account'' (su_db u)) (\<lambda>(destination, metadata).
       case Unmarshal_str ''kind'' metadata of
         None \<Rightarrow> Inl (ErrText ''json: cannot unmarshal'')
       | Some kind \<Rightarrow>
          let walletID = (if kind = ''managed_wallet'' then destination else '''');
              blockchainWalletID = (if kind = ''managed_wallet'' then '''' else destination) in
          bindE (bp_CreatePayinQuote (su_json u) (su_http u) (pv_client p) \<lparr>bi_IdempotencyKey = qr_IdempotencyKey r,
              bi_WalletID = walletID, bi_BlockchainWalletID = blockchainWalletID, bi_CurrencyType = qr_CurrencyType r,
              bi_CoverFees = qr_CoverFees r, bi_RequestAmount = qr_AmountMinor r, bi_PaymentMethod = qr_FundingMethod r,
              bi_Token = qr_DestinationCurrency r\<rparr>) (\<lambda>q.
            let source0 = ToUpper (qr_SourceCurrency r);
                source = (if source0 = '''' then payinCurrency (qr_FundingMethod r) else source0)
            in Inr \<lparr>pq_ProviderQuoteID = biq_ID q, pq_SourceCurrency = source,
                 pq_DestinationCurrency = ToUpper (qr_DestinationCurrency r), pq_SenderAmountMinor = biq_SenderAmount q,
                 pq_ReceiverAmountMinor = biq_ReceiverAmount q, pq_CommercialRate = '''', pq_ProviderRate = '''',
                 pq_FlatFeeMinor = 0, pq_PartnerFeeMinor = 0, pq_BillingFeeMinor = None,
                 pq_ExpiresAt = UnixMilli (biq_ExpiresAt q), pq_Payload = biq_RawPayload q, pq_ExecutionContext = RawEmpty\<rparr>)))"

fun payin_error :: "err \<Rightarrow> err" where
  "payin_error (ErrAPI a) = ErrProvider \<lparr>pe_Message = err_text (ErrAPI a), pe_Code = ae_Code a,
     pe_Retryable = (ae_Kind a = ErrorRetryable)\<rparr>"
| "payin_error e = ErrProvider \<lparr>pe_Message = err_text e, pe_Code = '''', pe_Retryable = True\<rparr>"

definition provider_ExecutePayin :: "Provider \<Rightarrow> surroundings \<Rightarrow> ExecuteRequest \<Rightarrow> ExecuteResult result" where
  "provider_ExecutePayin p u r =
     bindE (ExecuteRequest_Validate r) (\<lambda>_.
       case CreatePayin (su_json u) (su_http u) (pv_client p) (xr_IdempotencyKey r) (xr_ProviderQuoteID r) of
         Inl err \<Rightarrow> Inl (payin_error err)
       | Inr v \<Rightarrow>
           let st = mapPayinStatus (bpi_Status v) in
           Inr \<lparr>er_ProviderReference = bpi_ID v, er_Status = st,
             er_FailureCode = (if st = ExecutionFailed then bpi_Status v else ''''), er_FailureMessage = '''',
             er_Payload = bpi_RawPayload v, er_Instructions = bpi_Instructions v\<rparr>)"

definition blindpay_payins :: "Provider \<Rightarrow> surroundings \<Rightarrow> PayinProvider" where
  "blindpay_payins p u = \<lparr>pn_Name = ''blindpay'', pn_CreatePayinQuote = provider_CreatePayinQuote p u,
     pn_ExecutePayin = provider_ExecutePayin p u\<rparr>"

subsection \<open>The contract of a settlement provider\<close>

text \<open>
  What the services rely on: both halves of a provider have one name, and a result that is not an error passes
  the validation the services would otherwise refuse it with, so it can be recorded and read back.
\<close>

locale settlement_provider =
  fixes po :: PayoutProvider and pn :: PayinProvider
  assumes one_name: "pn_Name pn = pp_Name po"
    and payout_valid: "pp_ExecutePayout po r = Inr x \<Longrightarrow> ExecutionResult_Validate x = Inr ()"
    and payin_reference: "pn_ExecutePayin pn r = Inr y \<Longrightarrow> er_ProviderReference y \<noteq> ''''"
begin

lemma services: "payout_NewService po po = Inr (po, po)" "payin_NewService pn pn = Inr (pn, pn)"
  by (simp_all add: payout_NewService_def payin_NewService_def)

text \<open>A submission is left without an outcome only when the database refuses to store the one there is.\<close>

lemma submission_recorded:
  assumes "submit_payout po e i req s = (s', r)"
  shows "(\<exists>x. pp_ExecutePayout po req = Inr x \<and> (recordResponse e i x s = Inr s' \<and> r = Inr x \<or> (\<exists>err. recordResponse e i x s = Inl err \<and> r = Inl err \<and> s' = s))) \<or>
    (\<exists>cause st. pp_ExecutePayout po req = Inl cause \<and> st = (if submission_failed cause then ''submission_failed'' else ''unknown'') \<and>
      (recordError e i st cause s = Inr s' \<or> (\<exists>err. recordError e i st cause s = Inl err \<and> s' = s)))"
  using assms payout_valid unfolding submit_payout_def Let_def
  by (cases "pp_ExecutePayout po req") (auto split: sum.splits)

end

lemma checked_Inr: "checked r = Inr x \<longleftrightarrow> x = r \<and> ExecutionResult_Validate r = Inr ()"
  by (auto simp: checked_def bindE_Inr_iff)

lemma payout_result_valid: "payout_result p = Inr x \<Longrightarrow> ExecutionResult_Validate x = Inr () \<and> er_ProviderReference x = bpo_ID p"
  by (auto simp: payout_result_def Let_def checked_Inr split: if_splits)

lemma bp_ExecutePayout_Inr:
  assumes "bp_ExecutePayout p u r = Inr x"
  obtains address v where "CreateEVMPayout (su_json u) (su_http u) (pv_client p) \<lparr>br_IdempotencyKey = xr_IdempotencyKey r,
      br_QuoteID = xr_ProviderQuoteID r, br_SenderWalletAddress = address\<rparr> = Inr v" "payout_result v = Inr x"
proof -
  from assms obtain saved where
    "(case bp_address saved of None \<Rightarrow> Inl (ErrText ''BlindPay payout quote has no execution context'')
      | Some address \<Rightarrow> (case CreateEVMPayout (su_json u) (su_http u) (pv_client p) \<lparr>br_IdempotencyKey = xr_IdempotencyKey r,
          br_QuoteID = xr_ProviderQuoteID r, br_SenderWalletAddress = address\<rparr> of
            Inl err \<Rightarrow> Inl (payout_error err) | Inr v \<Rightarrow> payout_result v)) = Inr x"
    by (auto simp: bp_ExecutePayout_def bindE_Inr_iff)
  then obtain address where
    "(case CreateEVMPayout (su_json u) (su_http u) (pv_client p) \<lparr>br_IdempotencyKey = xr_IdempotencyKey r,
          br_QuoteID = xr_ProviderQuoteID r, br_SenderWalletAddress = address\<rparr> of
        Inl err \<Rightarrow> Inl (payout_error err) | Inr v \<Rightarrow> payout_result v) = Inr x"
    by (auto split: option.splits)
  then show thesis by (auto split: sum.splits intro: that)
qed

lemma provider_ExecutePayin_Inr:
  assumes "provider_ExecutePayin p u r = Inr y"
  shows "HasPrefix (er_ProviderReference y) ''pi_''"
  using assms by (auto simp: provider_ExecutePayin_def bindE_Inr_iff Let_def split: sum.splits dest: CreatePayin_Inr)

interpretation blindpay: settlement_provider "blindpay_payouts p u" "blindpay_payins p u" for p u
  by unfold_locales
    (auto simp: blindpay_payouts_def blindpay_payins_def HasPrefix_def elim!: bp_ExecutePayout_Inr
      dest: payout_result_valid provider_ExecutePayin_Inr)

subsection \<open>What a payout call says of the payout\<close>

definition answered :: "http \<Rightarrow> string \<Rightarrow> int \<Rightarrow> bool" where
  "answered http key status \<longleftrightarrow> (\<exists>q t. http q = Inr (status, t) \<and> hq_method q = ''POST'' \<and> hq_key q = key)"

text \<open>An answer that leaves no doubt: neither too many requests nor a server error.\<close>

definition definite_answer :: "http \<Rightarrow> string \<Rightarrow> bool" where
  "definite_answer http key \<longleftrightarrow> (\<exists>status. answered http key status \<and> status \<noteq> 429 \<and> status < 500)"

lemma CreateEVMPayout_answered:
  assumes "CreateEVMPayout lib http c r = x"
  obtains e where "x = Inl (ErrText e)"
  | status a where "answered http (br_IdempotencyKey r) status" "x = Inl (ErrAPI a)" "ae_Kind a = ErrorRetryable \<longleftrightarrow> status = 429 \<or> 500 \<le> status"
  | v status where "answered http (br_IdempotencyKey r) status" "200 \<le> status" "status < 300" "x = Inr v"
proof -
  let ?do = "do_request lib http c ''POST'' ''/payouts/evm'' (br_IdempotencyKey r)
    (Some (JObj [(''quote_id'', JStr (br_QuoteID r)), (''sender_wallet_address'', JStr (br_SenderWalletAddress r))]))
    decode_payout zero_payout"
  show thesis
  proof (cases "\<not> HasPrefix (br_QuoteID r) ''qu_'' \<or> br_SenderWalletAddress r = ''''")
    case True
    with assms show thesis by (intro that(1) [of "''invalid BlindPay payout request''"]) (simp add: CreateEVMPayout_def)
  next
    case False
    with assms have x: "x = bindE ?do (\<lambda>(raw, out).
        if \<not> HasPrefix (bpo_ID out) ''po_'' \<or> bpo_Status out = ''''
        then Inl (ErrText ''BlindPay returned an invalid payout'') else Inr (out\<lparr>bpo_RawPayload := raw\<rparr>))"
      by (simp add: CreateEVMPayout_def)
    have "?do = ?do" by simp
    then show thesis
    proof (cases rule: do_request_cases)
      case (transport e)
      with x show thesis by (intro that(1) [of e]) simp
    next
      case (refused q status t)
      obtain a where a: "classifyAPIError lib status (limited t) = ErrAPI a"
        by (cases "error_fields lib (limited t)") (simp add: classifyAPIError_def)
      show thesis
      proof (rule that(2))
        show "answered http (br_IdempotencyKey r) status" using refused by (auto simp: answered_def)
        show "x = Inl (ErrAPI a)" using x refused(5) a by simp
        show "ae_Kind a = ErrorRetryable \<longleftrightarrow> status = 429 \<or> 500 \<le> status" using classifyAPIError_kind [OF a] by simp
      qed
    next
      case undecoded
      with x show thesis by (intro that(1) [of "''decode BlindPay response''"]) simp
    next
      case (answered q status t y)
      then have call: "answered http (br_IdempotencyKey r) status" by (auto simp: answered_def)
      from x answered(6) have "x = Inl (ErrText ''BlindPay returned an invalid payout'') \<or> \<not> isl x"
        by (cases y) simp
      then consider (bad) "x = Inl (ErrText ''BlindPay returned an invalid payout'')" | (good) v where "x = Inr v"
        by (cases x) auto
      then show thesis
      proof cases
        case bad
        then show thesis by (rule that(1))
      next
        case (good v)
        show thesis by (rule that(3) [OF call answered(4) answered(5) good])
      qed
    qed
  qed
qed

text \<open>Only a definite answer makes the outcome of a submission a failure.\<close>

lemma bp_ExecutePayout_definite:
  assumes "bp_ExecutePayout p u r = x"
  obtains e where "x = Inl e" "\<not> submission_failed e"
  | "definite_answer (su_http u) (xr_IdempotencyKey r)"
proof -
  consider err where "ExecuteRequest_Validate r = Inl err" | err where "ExecuteRequest_Validate r = Inr ()"
      "LoadPayoutExecutionContext (xr_ProviderQuoteID r) (su_db u) = Inl err"
    | saved where "ExecuteRequest_Validate r = Inr ()" "LoadPayoutExecutionContext (xr_ProviderQuoteID r) (su_db u) = Inr saved"
    by (cases "ExecuteRequest_Validate r"; cases "LoadPayoutExecutionContext (xr_ProviderQuoteID r) (su_db u)") auto
  then show thesis
  proof cases
    case 1
    then have "\<not> submission_failed err" by (auto simp: ExecuteRequest_Validate_def split: if_splits)
    with 1 assms show thesis by (intro that(1) [of err]) (simp_all add: bp_ExecutePayout_def)
  next
    case 2
    then have "\<not> submission_failed err" by (auto simp: LoadPayoutExecutionContext_def split: option.splits)
    with 2 assms show thesis by (intro that(1) [of err]) (simp_all add: bp_ExecutePayout_def)
  next
    case 3
    show thesis
    proof (cases "bp_address saved")
      case None
      with 3 assms show thesis
        by (intro that(1) [of "ErrText ''BlindPay payout quote has no execution context''"]) (simp_all add: bp_ExecutePayout_def)
    next
      case (Some address)
      let ?call = "CreateEVMPayout (su_json u) (su_http u) (pv_client p) \<lparr>br_IdempotencyKey = xr_IdempotencyKey r,
          br_QuoteID = xr_ProviderQuoteID r, br_SenderWalletAddress = address\<rparr>"
      from 3 Some assms have x: "x = (case ?call of Inl err \<Rightarrow> Inl (payout_error err) | Inr v \<Rightarrow> payout_result v)"
        by (simp add: bp_ExecutePayout_def)
      have "?call = ?call" by simp
      then show thesis
      proof (cases rule: CreateEVMPayout_answered)
        case (1 e)
        with x show thesis by (intro that(1) [of "ErrText e"]) simp_all
      next
        case (2 status a)
        show thesis
        proof (cases "ae_Kind a = ErrorRetryable")
          case True
          with 2 x show thesis by (intro that(1) [of "payout_error (ErrAPI a)"]) simp_all
        next
          case False
          with 2 have "answered (su_http u) (xr_IdempotencyKey r) status" "status \<noteq> 429" "status < 500" by auto
          then have "definite_answer (su_http u) (xr_IdempotencyKey r)" unfolding definite_answer_def by blast
          then show thesis by (rule that(2))
        qed
      next
        case (3 v status)
        then have "answered (su_http u) (xr_IdempotencyKey r) status" "status \<noteq> 429" "status < 500" by auto
        then have "definite_answer (su_http u) (xr_IdempotencyKey r)" unfolding definite_answer_def by blast
        then show thesis by (rule that(2))
      qed
    qed
  qed
qed

lemma recordError_unknown:
  assumes "recordError e i ''unknown'' cause s = Inr s1" and "find_payout i s = Some row"
    and "po_status row \<noteq> ''submission_failed''" and "find_payout i s1 = Some row1"
  shows "po_status row1 \<noteq> ''submission_failed''"
proof -
  let ?f = "\<lambda>r. r\<lparr>po_status := ''unknown'', po_last_error := Some (err_text cause), po_updated_at := env_now e\<rparr>"
  from assms(1) have s1: "s1 = s\<lparr>payouts := update_where (\<lambda>r. po_payment r = i \<and> open_submission r) ?f (payouts s)\<rparr>"
    by (auto simp: recordError_def put_payouts_def split: if_splits)
  have "find_payout i s1 = map_option (\<lambda>r. if po_payment r = i \<and> open_submission r then ?f r else r) (find_payout i s)"
    unfolding s1 by (rule find_payout_update) simp
  with assms(2-4) show ?thesis by (auto split: if_splits)
qed

lemma prepare_request:
  assumes "prepare provider e i key s = Inr (a, s1)"
  shows "xr_IdempotencyKey (at_request a) = key"
proof (cases "accepted_quote PaymentDirectionPayout i provider s")
  case None
  with assms show ?thesis by (simp add: prepare_def)
next
  case (Some q)
  with assms obtain source where source: "scan (q_source q) = Inr source"
    by (cases "scan (q_source q)") (simp_all add: prepare_def)
  with assms Some obtain s2 rows where "insert_payout_once (payout_row_of provider e i key q source) s = Inr (s2, rows)"
    by (cases "insert_payout_once (payout_row_of provider e i key q source) s") (auto simp: prepare_def)
  with assms Some source show ?thesis
    by (cases "rows = 1"; cases "find_payout i s2") (auto simp: prepare_def Let_def split: if_split_asm)
qed

subsection \<open>Properties\<close>

text \<open>
  C5: A payout execution through BlindPay marks the payout as finally refused only after BlindPay has answered a POST
  that carried the payment's idempotency key with a status that is neither 429 nor a server error. A
  network failure, an unreadable or incomplete answer, a missing execution context, and every answer that
  may hide an accepted payout leave it open or unknown, so it can be submitted again under the same key.
\<close>

theorem blindpay_failure_definite:
  assumes "ExecutePayout (blindpay_payouts p u) e i s = (s', r)"
    and "find_payout i s' = Some row" and "po_status row = ''submission_failed''"
    and "\<And>row0. find_payout i s = Some row0 \<Longrightarrow> po_status row0 \<noteq> ''submission_failed''"
  shows "\<exists>key. loadExecutionRequest i s = Inr (i, key) \<and> definite_answer (su_http u) key"
proof -
  let ?p = "blindpay_payouts p u"
  from assms have "\<exists>req. loadExecutionRequest i s = Inr req"
    by (auto simp: ExecutePayout_def split: sum.splits)
  then obtain key where load: "loadExecutionRequest i s = Inr (i, key)"
    by (auto simp: loadExecutionRequest_def split: option.splits)
  with assms(1) have run: "executePayout ?p e (i, key) s = (s', r)" by (simp add: ExecutePayout_def)
  with assms(2-4) obtain a s1 where a: "prepare (pp_Name ?p) e i key s = Inr (a, s1)"
    by (auto simp: executePayout_def split: if_splits sum.splits)
  from prepare_Inr [OF a] obtain row1 where row1: "find_payout i s1 = Some row1"
    "if at_new a then po_status row1 = ''submission_pending'' else s1 = s" by auto
  with assms(4) have before: "po_status row1 \<noteq> ''submission_failed''" by (auto split: if_splits)
  with assms(2,3) row1(1) have "s' \<noteq> s1" by auto
  from assms(2-4) have "s' \<noteq> s" by auto
  with run a \<open>s' \<noteq> s1\<close> have sub: "submit_payout ?p e i (at_request a) s1 = (s', r)"
    by (auto simp: executePayout_def split: if_splits)
  have "bp_ExecutePayout p u (at_request a) = bp_ExecutePayout p u (at_request a)" by simp
  then show ?thesis
  proof (cases rule: bp_ExecutePayout_definite)
    case (1 cause)
    with sub \<open>s' \<noteq> s1\<close> have "recordError e i ''unknown'' cause s1 = Inr s'"
      by (auto simp: submit_payout_def blindpay_payouts_def Let_def split: sum.splits)
    from recordError_unknown [OF this row1(1) before assms(2)] assms(3) show ?thesis by simp
  next
    case 2
    with load prepare_request [OF a] show ?thesis by auto
  qed
qed

text \<open>A platform that talks to BlindPay: one wallet and one bank account of tenant \<open>t1\<close>, and a network that answers from a table.\<close>

definition bp_resource :: "string \<Rightarrow> string \<Rightarrow> string \<Rightarrow> json \<Rightarrow> resource_row" where
  "bp_resource i ty reference metadata = \<lparr>rs_id = i, rs_tenant = ''t1'', rs_provider = ''blindpay'', rs_type = ty,
     rs_reference = reference, rs_metadata = Raw metadata\<rparr>"

definition bp_sample_db :: db where
  "bp_sample_db = (sample_db PaymentStatusProcessing)\<lparr>resources :=
     [bp_resource ''src'' ''account'' ''bl_1'' (JObj [(''kind'', JStr ''managed_wallet''), (''address'', JStr ''0x1'')]),
      bp_resource ''dst'' ''payment_instrument'' ''ba_1'' (JObj [])],
     quotes := [(sample_quote QuoteAccepted (Some ''p1''))\<lparr>q_provider := ''blindpay'', q_provider_quote_id := ''qu_1'',
       q_execution_context := Raw (JObj [(''address'', JStr ''0x1'')])\<rparr>]\<rparr>"

text \<open>Texts are looked up in a table of parsed documents.\<close>

definition table_json :: "(string \<times> json) list \<Rightarrow> jsonlib" where
  "table_json t = (let parse = (\<lambda>x. case map_of t x of None \<Rightarrow> RawInvalid | Some j \<Rightarrow> Raw j)
     in \<lparr>js_Unmarshal = parse, js_Decode = parse\<rparr>)"

definition sample_json :: jsonlib where
  "sample_json = table_json
     [(''quote'', JObj [(''id'', JStr ''qu_2''), (''expires_at'', JNum 1), (''sender_amount'', JNum 100), (''receiver_amount'', JNum 99)]),
      (''balance'', JObj [(''usdc'', JObj [(''Amount'', JNum 150)])]),
      (''refused'', JObj [(''message'', JStr ''no'')])]"

definition sample_http :: http where
  "sample_http q = Inr (if hq_method q = ''GET'' then (200, ''balance'')
     else if hq_url q = ''https://b/instances/in_1/quotes'' then (200, ''quote'') else (400, ''refused''))"

definition sample_client :: Client where
  "sample_client = \<lparr>cl_apiKey = ''k'', cl_instanceID = ''in_1'', cl_baseURL = ''https://b''\<rparr>"

definition sample_blindpay :: Provider where
  "sample_blindpay = \<lparr>pv_quotes = \<lparr>qs_client = api_quote_client sample_json sample_http sample_client,
     qs_network = ''base'', qs_token = ''USDC''\<rparr>, pv_client = sample_client\<rparr>"

definition sample_surroundings :: surroundings where
  "sample_surroundings = \<lparr>su_json = sample_json, su_http = sample_http, su_now = 1000, su_refs = sample_references,
     su_db = bp_sample_db\<rparr>"

theorem blindpay_failure_definite_witness:
  "definite_answer sample_http ''kp1'' \<and>
   map po_status (payouts (fst (ExecutePayout (blindpay_payouts sample_blindpay sample_surroundings) sample_env ''p1'' bp_sample_db))) =
     [''submission_failed'']"
proof -
  let ?run = "ExecutePayout (blindpay_payouts sample_blindpay sample_surroundings) sample_env ''p1'' bp_sample_db"
  have st: "map po_status (payouts (fst ?run)) = [''submission_failed'']" by code_simp
  have one: "map po_payment (payouts (fst ?run)) = [''p1'']" by code_simp
  obtain s' r where run: "?run = (s', r)" by fastforce
  from st run obtain row where row: "payouts s' = [row]" "po_status row = ''submission_failed''" by auto
  with one run have "find_payout ''p1'' s' = Some row" by (simp add: find_payout_def)
  from blindpay_failure_definite [OF run this row(2)] have
    "\<exists>key. loadExecutionRequest ''p1'' bp_sample_db = Inr (''p1'', key) \<and> definite_answer (su_http sample_surroundings) key"
    by (simp add: bp_sample_db_def sample_db_def empty_db_def find_payout_def)
  moreover have "loadExecutionRequest ''p1'' bp_sample_db = Inr (''p1'', ''kp1'')" by code_simp
  ultimately have "definite_answer sample_http ''kp1''" by (simp add: sample_surroundings_def)
  with st show ?thesis by blast
qed

end
