(* ===== verification/Mock_Provider.thy ===== *)
theory Mock_Provider
  imports Blindpay_Provider
begin

text \<open>
  The mock settlement provider (\<^verbatim>\<open>settlement/provider.go\<close>), deterministic and idempotent. It keeps what it has answered
  under each idempotency key and the amount of each quote, in memory and behind a mutex, so a call is one step on
  that state. A Go map that has no entry for a key answers the zero value.
\<close>

subsection \<open>State and calls\<close>

record MockProvider =
  mk_Result :: ExecutionResult
  mk_ResultsByAmount :: "int \<rightharpoonup> ExecutionResult"
  mk_amountsByQuote :: "string \<rightharpoonup> int"
  mk_seen :: "string \<rightharpoonup> ExecutionResult"

definition zero_result :: ExecutionResult where
  "zero_result = \<lparr>er_ProviderReference = '''', er_Status = ExecutionOther '''', er_FailureCode = '''',
     er_FailureMessage = '''', er_Payload = RawEmpty\<rparr>"

definition NewMockProvider :: "ExecutionResult \<Rightarrow> MockProvider" where
  "NewMockProvider r = \<lparr>mk_Result = (if er_Status r = ExecutionOther '''' then zero_result\<lparr>er_Status := ExecutionSucceeded\<rparr> else r),
     mk_ResultsByAmount = Map.empty, mk_amountsByQuote = Map.empty, mk_seen = Map.empty\<rparr>"

definition quoted_amount :: "MockProvider \<Rightarrow> string \<Rightarrow> int" where
  "quoted_amount m quote = (case mk_amountsByQuote m quote of None \<Rightarrow> 0 | Some a \<Rightarrow> a)"

text \<open>What a new execution is answered, before it is checked.\<close>

definition mock_result :: "ExecuteRequest \<Rightarrow> MockProvider \<Rightarrow> ExecutionResult" where
  "mock_result r m =
     (let x = (case mk_ResultsByAmount m (quoted_amount m (xr_ProviderQuoteID r)) of
                 Some configured \<Rightarrow> configured | None \<Rightarrow> mk_Result m)
      in if er_ProviderReference x = '''' then x\<lparr>er_ProviderReference := ''mock_'' @ xr_IdempotencyKey r\<rparr> else x)"

definition mock_ExecutePayout :: "ExecuteRequest \<Rightarrow> MockProvider \<Rightarrow> MockProvider \<times> ExecutionResult result" where
  "mock_ExecutePayout r m =
     (case ExecuteRequest_Validate r of
        Inl err \<Rightarrow> (m, Inl err)
      | Inr _ \<Rightarrow>
         (case mk_seen m (xr_IdempotencyKey r) of
            Some x \<Rightarrow> (m, Inr x)
          | None \<Rightarrow>
              let x = mock_result r m in
              (case ExecutionResult_Validate x of
                 Inl err \<Rightarrow> (m, Inl err)
               | Inr _ \<Rightarrow> (m\<lparr>mk_seen := (mk_seen m)(xr_IdempotencyKey r \<mapsto> x)\<rparr>, Inr x))))"

definition five_minutes :: duration where
  "five_minutes = 300000000000"

definition mock_CreatePayoutQuote :: "time \<Rightarrow> PayoutQuoteRequest \<Rightarrow> MockProvider \<Rightarrow> MockProvider \<times> ProviderQuote result" where
  "mock_CreatePayoutQuote now r m =
     (if qr_IdempotencyKey r = '''' \<or> qr_AmountMinor r \<le> 0 then (m, Inl (ErrText ''invalid payout quote request''))
      else let quote = ''qu_'' @ qr_IdempotencyKey r in
        (m\<lparr>mk_amountsByQuote := (mk_amountsByQuote m)(quote \<mapsto> qr_AmountMinor r)\<rparr>,
         Inr \<lparr>pq_ProviderQuoteID = quote, pq_SourceCurrency = qr_SourceCurrency r,
           pq_DestinationCurrency = qr_DestinationCurrency r, pq_SenderAmountMinor = qr_AmountMinor r,
           pq_ReceiverAmountMinor = qr_AmountMinor r, pq_CommercialRate = ''1'', pq_ProviderRate = ''1'',
           pq_FlatFeeMinor = 0, pq_PartnerFeeMinor = 0, pq_BillingFeeMinor = None, pq_ExpiresAt = now + five_minutes,
           pq_Payload = RawEmpty, pq_ExecutionContext = RawEmpty\<rparr>))"

definition mock_CreatePayinQuote :: "time \<Rightarrow> PayinQuoteRequest \<Rightarrow> ProviderQuote result" where
  "mock_CreatePayinQuote now r =
     bindE (PayinQuoteRequest_Validate r) (\<lambda>_.
       Inr \<lparr>pq_ProviderQuoteID = ''pq_'' @ qr_IdempotencyKey r, pq_SourceCurrency = qr_SourceCurrency r,
         pq_DestinationCurrency = qr_DestinationCurrency r, pq_SenderAmountMinor = qr_AmountMinor r,
         pq_ReceiverAmountMinor = qr_AmountMinor r, pq_CommercialRate = '''', pq_ProviderRate = '''',
         pq_FlatFeeMinor = 0, pq_PartnerFeeMinor = 0, pq_BillingFeeMinor = None, pq_ExpiresAt = now + five_minutes,
         pq_Payload = Raw (JObj [(''mock'', JBool True)]), pq_ExecutionContext = RawEmpty\<rparr>)"

definition mock_ExecutePayin :: "ExecuteRequest \<Rightarrow> ExecuteResult result" where
  "mock_ExecutePayin r =
     bindE (ExecuteRequest_Validate r) (\<lambda>_.
       let instructions = Raw (JObj [(''reference'', JStr (''MOCK-'' @ xr_ProviderQuoteID r))]) in
       Inr \<lparr>er_ProviderReference = ''pi_'' @ xr_IdempotencyKey r, er_Status = ExecutionSucceeded, er_FailureCode = '''',
         er_FailureMessage = '''', er_Payload = instructions, er_Instructions = instructions\<rparr>)"

text \<open>The provider as the services see it at one moment.\<close>

definition mock_payouts :: "time \<Rightarrow> MockProvider \<Rightarrow> PayoutProvider" where
  "mock_payouts now m = \<lparr>pp_Name = ''mock'', pp_CreatePayoutQuote = (\<lambda>r. snd (mock_CreatePayoutQuote now r m)),
     pp_ExecutePayout = (\<lambda>r. snd (mock_ExecutePayout r m))\<rparr>"

definition mock_payins :: "time \<Rightarrow> PayinProvider" where
  "mock_payins now = \<lparr>pn_Name = ''mock'', pn_CreatePayinQuote = mock_CreatePayinQuote now, pn_ExecutePayin = mock_ExecutePayin\<rparr>"

subsection \<open>Runs\<close>

inductive mock_step :: "MockProvider \<Rightarrow> MockProvider \<Rightarrow> bool" where
  quote: "mock_step m (fst (mock_CreatePayoutQuote now r m))"
| execute: "mock_step m (fst (mock_ExecutePayout x m))"

definition mock_ok :: "MockProvider \<Rightarrow> bool" where
  "mock_ok m \<longleftrightarrow> (\<forall>x \<in> ran (mk_seen m). ExecutionResult_Validate x = Inr ())"

lemma mock_ok_new: "mock_ok (NewMockProvider r)" "mock_ok ((NewMockProvider r)\<lparr>mk_ResultsByAmount := t\<rparr>)"
  by (simp_all add: mock_ok_def NewMockProvider_def)

lemma mock_ExecutePayout_cases [consumes 1, case_names refused known recorded]:
  assumes "mock_ExecutePayout r m = (m', y)"
  obtains e where "m' = m" "y = Inl e"
  | x where "mk_seen m (xr_IdempotencyKey r) = Some x" "m' = m" "y = Inr x"
  | x where "mk_seen m (xr_IdempotencyKey r) = None" "ExecutionResult_Validate x = Inr ()"
      "m' = m\<lparr>mk_seen := (mk_seen m)(xr_IdempotencyKey r \<mapsto> x)\<rparr>" "y = Inr x"
proof (cases "ExecuteRequest_Validate r")
  case (Inl err)
  with assms show thesis by (intro that(1) [of err]) (simp_all add: mock_ExecutePayout_def)
next
  case valid: (Inr u)
  show thesis
  proof (cases "mk_seen m (xr_IdempotencyKey r)")
    case (Some z)
    with assms valid show thesis by (intro that(2) [of z]) (simp_all add: mock_ExecutePayout_def)
  next
    case None
    show thesis
    proof (cases "ExecutionResult_Validate (mock_result r m)")
      case (Inl err)
      with assms valid None show thesis by (intro that(1) [of err]) (simp_all add: mock_ExecutePayout_def Let_def)
    next
      case (Inr v)
      with assms valid None show thesis
        by (intro that(3) [of "mock_result r m"]) (simp_all add: mock_ExecutePayout_def Let_def)
    qed
  qed
qed

lemma mock_step_kept:
  assumes "mock_step m m'"
  shows "(mock_ok m \<longrightarrow> mock_ok m') \<and> mk_Result m' = mk_Result m \<and> mk_ResultsByAmount m' = mk_ResultsByAmount m \<and>
    mk_seen m \<subseteq>\<^sub>m mk_seen m'"
  using assms
proof cases
  case (quote now r)
  then show ?thesis by (auto simp: mock_CreatePayoutQuote_def Let_def mock_ok_def)
next
  case (execute x)
  obtain y where "mock_ExecutePayout x m = (m', y)" using execute by (metis prod.collapse)
  then show ?thesis
    by (cases rule: mock_ExecutePayout_cases) (auto simp: mock_ok_def ran_def map_le_def)
qed

lemma mock_run_kept:
  assumes "mock_step\<^sup>*\<^sup>* m m'"
  shows "(mock_ok m \<longrightarrow> mock_ok m') \<and> mk_Result m' = mk_Result m \<and> mk_ResultsByAmount m' = mk_ResultsByAmount m \<and>
    mk_seen m \<subseteq>\<^sub>m mk_seen m'"
  using assms
proof (induction rule: rtranclp_induct)
  case (step m1 m2)
  with mock_step_kept [OF step(2)] show ?case by (metis map_le_trans)
qed simp

subsection \<open>The contract\<close>

text \<open>The states the provider can be in: what it remembers is valid.\<close>

locale mock_state =
  fixes m :: MockProvider
  assumes remembered: "mock_ok m"
begin

lemma executed_valid:
  assumes "snd (mock_ExecutePayout r m) = Inr x"
  shows "ExecutionResult_Validate x = Inr ()"
proof -
  from assms obtain m' where "mock_ExecutePayout r m = (m', Inr x)" by (metis prod.collapse)
  then show ?thesis
    by (cases rule: mock_ExecutePayout_cases) (use remembered in \<open>auto simp: mock_ok_def ran_def\<close>)
qed

lemma after_run: "mock_step\<^sup>*\<^sup>* m m' \<Longrightarrow> mock_ok m'"
  using mock_run_kept remembered by blast

end

lemma mock_ExecutePayin_reference: "mock_ExecutePayin r = Inr y \<Longrightarrow> er_ProviderReference y \<noteq> ''''"
  by (auto simp: mock_ExecutePayin_def bindE_Inr_iff Let_def)

sublocale mock_state \<subseteq> provider: settlement_provider "mock_payouts now m" "mock_payins now" for now
  by unfold_locales
    (auto simp: mock_payouts_def mock_payins_def mock_ExecutePayin_reference intro: executed_valid)

interpretation new_mock: mock_state "(NewMockProvider r)\<lparr>mk_ResultsByAmount := t\<rparr>" for r t
  by unfold_locales (rule mock_ok_new)

subsection \<open>Properties\<close>

text \<open>
  C34: The mock provider is idempotent: what it has answered for an idempotency key it answers again, whatever
  quotes and executions come in between, whichever quote the repeated request names, and the repetition
  changes nothing. The answer is one that the payout service accepts.
\<close>

theorem mock_execution_idempotent:
  assumes "mock_ExecutePayout r m = (m1, Inr x)" and "mock_step\<^sup>*\<^sup>* m1 m2" and "mock_ok m"
    and "xr_IdempotencyKey r' = xr_IdempotencyKey r" and "xr_ProviderQuoteID r' \<noteq> ''''"
  shows "mock_ExecutePayout r' m2 = (m2, Inr x) \<and> ExecutionResult_Validate x = Inr () \<and> mock_ok m2"
proof -
  have "mock_step m m1" using mock_step.execute [of m r] assms(1) by simp
  then have ok: "mock_ok m2" using assms(2,3) mock_run_kept [OF assms(2)] mock_step_kept by blast
  have key: "xr_IdempotencyKey r \<noteq> ''''"
    using assms(1) by (auto simp: mock_ExecutePayout_def ExecuteRequest_Validate_def split: if_splits)
  have "mk_seen m1 (xr_IdempotencyKey r) = Some x"
    using assms(1) by (cases rule: mock_ExecutePayout_cases) auto
  then have seen: "mk_seen m2 (xr_IdempotencyKey r') = Some x"
    using mock_run_kept [OF assms(2)] assms(4) by (auto simp: map_le_def dom_def)
  with ok have "ExecutionResult_Validate x = Inr ()" by (auto simp: mock_ok_def intro: ranI)
  moreover have "ExecuteRequest_Validate r' = Inr ()" using key assms(4,5) by (simp add: ExecuteRequest_Validate_def)
  ultimately show ?thesis using seen ok by (simp add: mock_ExecutePayout_def)
qed

definition failing_mock :: MockProvider where
  "failing_mock = (NewMockProvider zero_result)\<lparr>mk_ResultsByAmount := [13 \<mapsto>
     zero_result\<lparr>er_Status := ExecutionFailed, er_FailureCode := ''local_failure''\<rparr>]\<rparr>"

definition mock_quote_request :: "int \<Rightarrow> PayoutQuoteRequest" where
  "mock_quote_request amount = \<lparr>qr_IdempotencyKey = ''q'', qr_TenantID = ''t1'', qr_FundingMethod = ''ach'',
     qr_SourceCurrency = ''USD'', qr_DestinationCurrency = ''USD'', qr_CurrencyType = ''sender'', qr_AmountMinor = amount,
     qr_CoverFees = False, qr_SourceAccountID = ''src'', qr_DestinationInstrumentID = ''dst''\<rparr>"

text \<open>The quote is replaced by one of another amount between the two executions.\<close>

theorem mock_execution_idempotent_witness:
  "\<exists>x m1. mock_ExecutePayout \<lparr>xr_IdempotencyKey = ''k'', xr_ProviderQuoteID = ''qu_q''\<rparr>
       (fst (mock_CreatePayoutQuote 0 (mock_quote_request 13) failing_mock)) = (m1, Inr x) \<and>
     er_Status x = ExecutionFailed \<and>
     snd (mock_ExecutePayout \<lparr>xr_IdempotencyKey = ''k'', xr_ProviderQuoteID = ''qu_q''\<rparr>
       (fst (mock_CreatePayoutQuote 9 (mock_quote_request 50) m1))) = Inr x"
proof -
  let ?r = "\<lparr>xr_IdempotencyKey = ''k'', xr_ProviderQuoteID = ''qu_q''\<rparr>"
  let ?m = "fst (mock_CreatePayoutQuote 0 (mock_quote_request 13) failing_mock)"
  have "mock_ok failing_mock" unfolding failing_mock_def by (rule mock_ok_new)
  then have ok: "mock_ok ?m" using mock_step_kept [OF mock_step.quote] by blast
  have "\<exists>x. snd (mock_ExecutePayout ?r ?m) = Inr x \<and> er_Status x = ExecutionFailed"
    by (simp add: mock_ExecutePayout_def mock_result_def mock_CreatePayoutQuote_def mock_quote_request_def failing_mock_def
      NewMockProvider_def zero_result_def quoted_amount_def ExecuteRequest_Validate_def ExecutionResult_Validate_def Let_def)
  then obtain x m1 where run: "mock_ExecutePayout ?r ?m = (m1, Inr x)" "er_Status x = ExecutionFailed"
    by (metis prod.collapse)
  have "mock_step\<^sup>*\<^sup>* m1 (fst (mock_CreatePayoutQuote 9 (mock_quote_request 50) m1))"
    by (rule r_into_rtranclp) (rule mock_step.quote)
  from mock_execution_idempotent [OF run(1) this ok, of ?r] run show ?thesis by auto
qed

end
