(* ===== verification/App_Config.thy ===== *)
theory App_Config
  imports Server Mock_Provider
begin

text \<open>
  The configuration (\<^verbatim>\<open>app/config.go\<close>), read from the environment, which is a function from names to values,
  the empty string for one that is not set; \<^verbatim>\<open>time.ParseDuration\<close> is a parameter.

  The lemmas: a configuration that is accepted is well formed (\<open>config_ok\<close>).
\<close>

subsection \<open>The configuration\<close>

record BlindPayConfig =
  bc_APIKey :: string
  bc_InstanceID :: string
  bc_BaseURL :: string
  bc_WebhookSecret :: string
  bc_Network :: string
  bc_Token :: string
  bc_ManagedWalletID :: string
  bc_ManagedWalletAddress :: string

definition BlindPayConfig_Validate :: "BlindPayConfig \<Rightarrow> unit result" where
  "BlindPayConfig_Validate c =
     (if bc_APIKey c = '''' \<or> bc_InstanceID c = '''' \<or> bc_WebhookSecret c = '''' \<or> bc_Network c = '''' \<or>
         bc_Token c = '''' \<or> bc_ManagedWalletID c = '''' \<or> bc_ManagedWalletAddress c = ''''
      then Inl (ErrText ''BlindPay API key, instance ID, webhook secret, network, token, managed wallet ID, and managed wallet address are required'')
      else if \<not> HasPrefix (bc_InstanceID c) ''in_''
      then Inl (ErrText ''STABLERAIL_BLINDPAY_INSTANCE_ID must start with in_'')
      else if \<not> HasPrefix (bc_ManagedWalletID c) ''bl_''
      then Inl (ErrText ''STABLERAIL_BLINDPAY_MANAGED_WALLET_ID must start with bl_'')
      else Inr ())"

record app_Config =
  co_HTTPAddress :: string
  co_DatabaseURL :: string
  co_SettlementProvider :: string
  co_OperatorToken :: string
  co_BlindPay :: BlindPayConfig
  co_KafkaBrokers :: "string list"
  co_ShutdownTimeout :: duration
  co_SagaPollInterval :: duration
  co_ReconciliationInterval :: duration
  co_SagaComplianceTimeout :: duration
  co_MockPolicyRejectAmount :: int
  co_MockSettlementFailAmount :: int
  co_MockSettlementHoldAmount :: int
  co_MockSettlementPendingAmount :: int
  co_AllowPrivateWebhookURLs :: bool

type_synonym getenv = "string \<Rightarrow> string"

definition env_or :: "getenv \<Rightarrow> string \<Rightarrow> string \<Rightarrow> string" where
  "env_or get name fallback = (if get name \<noteq> '''' then get name else fallback)"

text \<open>\<^verbatim>\<open>strings.Split\<close> at one character.\<close>

fun Split :: "char \<Rightarrow> string \<Rightarrow> string list" where
  "Split c [] = [[]]"
| "Split c (x # xs) = (if x = c then [] # Split c xs
     else (case Split c xs of [] \<Rightarrow> [[x]] | part # parts \<Rightarrow> (x # part) # parts))"

text \<open>
  An amount or a duration that is set must be a positive number. Go visits the four amounts in any order,
  which decides only the name in the error when more than one is wrong.
\<close>

definition env_amount :: "getenv \<Rightarrow> string \<Rightarrow> int result" where
  "env_amount get name =
     (if get name = '''' then Inr 0
      else case ParseInt (get name) of
             None \<Rightarrow> Inl (ErrText (''invalid '' @ name))
           | Some v \<Rightarrow> if v \<le> 0 then Inl (ErrText (''invalid '' @ name)) else Inr v)"

definition env_duration :: "(string \<Rightarrow> duration option) \<Rightarrow> getenv \<Rightarrow> string \<Rightarrow> duration \<Rightarrow> duration result" where
  "env_duration parse get name dflt =
     (if get name = '''' then Inr dflt
      else case parse (get name) of
             None \<Rightarrow> Inl (ErrText (''invalid '' @ name))
           | Some d \<Rightarrow> if d \<le> 0 then Inl (ErrText (''invalid '' @ name)) else Inr d)"

fun trim_brokers :: "string list \<Rightarrow> string list result" where
  "trim_brokers [] = Inr []"
| "trim_brokers (b # bs) =
     (if TrimSpace b = '''' then Inl (ErrText ''STABLERAIL_KAFKA_BROKERS contains an empty broker'')
      else bindE (trim_brokers bs) (\<lambda>rest. Inr (TrimSpace b # rest)))"

definition env_blindpay :: "getenv \<Rightarrow> BlindPayConfig" where
  "env_blindpay get = \<lparr>bc_APIKey = get ''STABLERAIL_BLINDPAY_API_KEY'',
     bc_InstanceID = get ''STABLERAIL_BLINDPAY_INSTANCE_ID'',
     bc_BaseURL = env_or get ''STABLERAIL_BLINDPAY_BASE_URL'' ''https://api.blindpay.com/v1'',
     bc_WebhookSecret = get ''STABLERAIL_BLINDPAY_WEBHOOK_SECRET'', bc_Network = get ''STABLERAIL_BLINDPAY_NETWORK'',
     bc_Token = get ''STABLERAIL_BLINDPAY_TOKEN'', bc_ManagedWalletID = get ''STABLERAIL_BLINDPAY_MANAGED_WALLET_ID'',
     bc_ManagedWalletAddress = get ''STABLERAIL_BLINDPAY_MANAGED_WALLET_ADDRESS''\<rparr>"

definition ConfigFromEnv :: "(string \<Rightarrow> duration option) \<Rightarrow> getenv \<Rightarrow> app_Config result" where
  "ConfigFromEnv parse get =
     (let provider = env_or get ''STABLERAIL_SETTLEMENT_PROVIDER'' ''mock'' in
      bindE (env_amount get ''STABLERAIL_MOCK_POLICY_REJECT_AMOUNT'') (\<lambda>reject.
      bindE (env_amount get ''STABLERAIL_MOCK_SETTLEMENT_FAIL_AMOUNT'') (\<lambda>fail.
      bindE (env_amount get ''STABLERAIL_MOCK_SETTLEMENT_HOLD_AMOUNT'') (\<lambda>hold.
      bindE (env_amount get ''STABLERAIL_MOCK_SETTLEMENT_PENDING_AMOUNT'') (\<lambda>pending.
      if get ''STABLERAIL_DATABASE_URL'' = '''' then Inl (ErrText ''STABLERAIL_DATABASE_URL is required'')
      else if provider \<noteq> ''mock'' \<and> provider \<noteq> ''blindpay''
      then Inl (ErrText ''STABLERAIL_SETTLEMENT_PROVIDER must be mock or blindpay'')
      else bindE (if provider = ''blindpay'' then BlindPayConfig_Validate (env_blindpay get) else Inr ()) (\<lambda>_.
      bindE (env_duration parse get ''STABLERAIL_SHUTDOWN_TIMEOUT'' (10 * Second)) (\<lambda>shutdown.
      bindE (env_duration parse get ''STABLERAIL_SAGA_POLL_INTERVAL'' Second) (\<lambda>poll.
      bindE (env_duration parse get ''STABLERAIL_RECONCILIATION_INTERVAL'' Minute) (\<lambda>interval.
      bindE (env_duration parse get ''STABLERAIL_SAGA_COMPLIANCE_TIMEOUT'' (24 * Hour)) (\<lambda>compliance.
      bindE (trim_brokers (Split CHR '','' (env_or get ''STABLERAIL_KAFKA_BROKERS'' ''localhost:9092''))) (\<lambda>brokers.
        Inr \<lparr>co_HTTPAddress = env_or get ''STABLERAIL_HTTP_ADDRESS'' '':8080'',
          co_DatabaseURL = get ''STABLERAIL_DATABASE_URL'', co_SettlementProvider = provider,
          co_OperatorToken = get ''STABLERAIL_OPERATOR_TOKEN'', co_BlindPay = env_blindpay get,
          co_KafkaBrokers = brokers, co_ShutdownTimeout = shutdown, co_SagaPollInterval = poll,
          co_ReconciliationInterval = interval, co_SagaComplianceTimeout = compliance,
          co_MockPolicyRejectAmount = reject, co_MockSettlementFailAmount = fail,
          co_MockSettlementHoldAmount = hold, co_MockSettlementPendingAmount = pending,
          co_AllowPrivateWebhookURLs = (get ''STABLERAIL_ALLOW_PRIVATE_WEBHOOK_URLS'' = ''1'')\<rparr>)))))))))))"

subsection \<open>Accepted configurations\<close>

definition config_ok :: "app_Config \<Rightarrow> bool" where
  "config_ok c \<longleftrightarrow> co_HTTPAddress c \<noteq> '''' \<and> co_DatabaseURL c \<noteq> '''' \<and>
     (co_SettlementProvider c = ''mock'' \<or>
      co_SettlementProvider c = ''blindpay'' \<and> BlindPayConfig_Validate (co_BlindPay c) = Inr ()) \<and>
     co_KafkaBrokers c \<noteq> [] \<and> list_all (\<lambda>b. b \<noteq> '''' \<and> TrimSpace b = b) (co_KafkaBrokers c) \<and>
     0 < co_ShutdownTimeout c \<and> 0 < co_SagaPollInterval c \<and> 0 < co_ReconciliationInterval c \<and>
     0 < co_SagaComplianceTimeout c \<and> 0 \<le> co_MockPolicyRejectAmount c \<and> 0 \<le> co_MockSettlementFailAmount c \<and>
     0 \<le> co_MockSettlementHoldAmount c \<and> 0 \<le> co_MockSettlementPendingAmount c"

lemma TrimSpace_TrimSpace [simp]: "TrimSpace (TrimSpace s) = TrimSpace s"
proof (cases "TrimSpace s")
  case Nil
  then show ?thesis by (simp only: TrimSpace_Nil)
next
  case (Cons c cs)
  define d where "d = dropWhile is_space s"
  have t: "TrimSpace s = rev (dropWhile is_space (rev d))" by (simp add: TrimSpace_def d_def)
  obtain w where w: "d = TrimSpace s @ w"
    by (metis t rev_append rev_rev_ident takeWhile_dropWhile_id)
  then have "hd d = c" "d \<noteq> []" by (simp_all add: Cons)
  then have "\<not> is_space c" using hd_dropWhile [of is_space s] by (simp add: d_def)
  then have "dropWhile is_space (TrimSpace s) = TrimSpace s" by (simp add: Cons)
  moreover have "dropWhile is_space (rev (TrimSpace s)) = rev (TrimSpace s)"
    by (simp add: t dropWhile_idem)
  ultimately show ?thesis by (simp add: TrimSpace_def)
qed

lemma Split_nonempty: "Split c s \<noteq> []"
  by (cases s) (auto split: list.splits)

lemma trim_brokers_Inr:
  "trim_brokers bs = Inr cs \<Longrightarrow> length cs = length bs \<and> list_all (\<lambda>b. b \<noteq> '''' \<and> TrimSpace b = b) cs"
  by (induction bs arbitrary: cs) (auto simp: bindE_Inr_iff split: if_splits)

lemma env_amount_Inr: "env_amount get name = Inr v \<Longrightarrow> 0 \<le> v"
  by (auto simp: env_amount_def split: if_splits option.splits)

lemma env_duration_Inr: "env_duration parse get name dflt = Inr d \<Longrightarrow> 0 < dflt \<Longrightarrow> 0 < d"
  by (auto simp: env_duration_def split: if_splits option.splits)

text \<open>The parts of an accepted configuration.\<close>

lemma ConfigFromEnv_Inr:
  assumes "ConfigFromEnv parse get = Inr c"
  shows "co_HTTPAddress c = env_or get ''STABLERAIL_HTTP_ADDRESS'' '':8080'' \<and> co_DatabaseURL c \<noteq> '''' \<and>
    (co_SettlementProvider c = ''mock'' \<or>
     co_SettlementProvider c = ''blindpay'' \<and> BlindPayConfig_Validate (co_BlindPay c) = Inr ()) \<and>
    trim_brokers (Split CHR '','' (env_or get ''STABLERAIL_KAFKA_BROKERS'' ''localhost:9092'')) = Inr (co_KafkaBrokers c) \<and>
    env_duration parse get ''STABLERAIL_SHUTDOWN_TIMEOUT'' (10 * Second) = Inr (co_ShutdownTimeout c) \<and>
    env_duration parse get ''STABLERAIL_SAGA_POLL_INTERVAL'' Second = Inr (co_SagaPollInterval c) \<and>
    env_duration parse get ''STABLERAIL_RECONCILIATION_INTERVAL'' Minute = Inr (co_ReconciliationInterval c) \<and>
    env_duration parse get ''STABLERAIL_SAGA_COMPLIANCE_TIMEOUT'' (24 * Hour) = Inr (co_SagaComplianceTimeout c) \<and>
    env_amount get ''STABLERAIL_MOCK_POLICY_REJECT_AMOUNT'' = Inr (co_MockPolicyRejectAmount c) \<and>
    env_amount get ''STABLERAIL_MOCK_SETTLEMENT_FAIL_AMOUNT'' = Inr (co_MockSettlementFailAmount c) \<and>
    env_amount get ''STABLERAIL_MOCK_SETTLEMENT_HOLD_AMOUNT'' = Inr (co_MockSettlementHoldAmount c) \<and>
    env_amount get ''STABLERAIL_MOCK_SETTLEMENT_PENDING_AMOUNT'' = Inr (co_MockSettlementPendingAmount c)"
proof -
  let ?p = "env_or get ''STABLERAIL_SETTLEMENT_PROVIDER'' ''mock''"
  have db: "get ''STABLERAIL_DATABASE_URL'' \<noteq> ''''"
  proof
    assume "get ''STABLERAIL_DATABASE_URL'' = ''''"
    with assms show False by (simp only: ConfigFromEnv_def Let_def bindE_Inr_iff if_True simp_thms sum.distinct ex_simps)
  qed
  have p: "\<not> (?p \<noteq> ''mock'' \<and> ?p \<noteq> ''blindpay'')"
  proof
    assume bad: "?p \<noteq> ''mock'' \<and> ?p \<noteq> ''blindpay''"
    show False
      using assms [unfolded ConfigFromEnv_def Let_def bindE_Inr_iff if_not_P [OF db] if_P [OF bad]] by blast
  qed
  note parts = assms [unfolded ConfigFromEnv_def Let_def if_not_P [OF db] if_not_P [OF p] bindE_Inr_iff sum.inject]
  have "co_SettlementProvider c = ?p" "co_BlindPay c = env_blindpay get"
    "\<exists>v. (if ?p = ''blindpay'' then BlindPayConfig_Validate (env_blindpay get) else Inr ()) = Inr v"
    using parts by (elim exE conjE, hypsubst, simp)+
  then have "co_SettlementProvider c = ''mock'' \<or>
     co_SettlementProvider c = ''blindpay'' \<and> BlindPayConfig_Validate (co_BlindPay c) = Inr ()"
    using p by (cases "?p = ''blindpay''") simp_all
  with db parts show ?thesis by (elim exE conjE, hypsubst) (simp only: app_Config.simps simp_thms)
qed

lemma ConfigFromEnv_ok:
  assumes "ConfigFromEnv parse get = Inr c"
  shows "config_ok c"
proof -
  have pos: "0 < 10 * Second" "0 < Second" "0 < Minute" "0 < 24 * Hour" by (simp_all add: Second_def Minute_def Hour_def)
  note parts = ConfigFromEnv_Inr [OF assms]
  then have "co_KafkaBrokers c \<noteq> []" "list_all (\<lambda>b. b \<noteq> '''' \<and> TrimSpace b = b) (co_KafkaBrokers c)"
    using trim_brokers_Inr Split_nonempty by fastforce+
  moreover have "co_HTTPAddress c \<noteq> ''''" using parts by (simp add: env_or_def)
  ultimately show ?thesis
    using parts env_duration_Inr [OF _ pos(1)] env_duration_Inr [OF _ pos(2)] env_duration_Inr [OF _ pos(3)]
      env_duration_Inr [OF _ pos(4)] env_amount_Inr
    unfolding config_ok_def by blast
qed

end
