(* ===== verification/Kafka.thy ===== *)
theory Kafka
  imports Outbox Inbox Http
begin

text \<open>
  The Kafka producer (\<^verbatim>\<open>eventbus/kafka.go\<close>) and the decoding of messages in the consumer loop
  (\<^verbatim>\<open>consumer/consumer.go\<close>). The writer of the Kafka client is a parameter: it accepts a message or fails.

  The lemmas: what the producer publishes is what the consumers' handlers are given, under the key of its
  aggregate, so that a partition keeps the order of an aggregate's events.
\<close>

subsection \<open>The producer\<close>

definition NewKafkaProducer :: "string list \<Rightarrow> unit result" where
  "NewKafkaProducer brokers = (if brokers = [] then Inl (ErrText ''at least one Kafka broker is required'') else Inr ())"

record kafka_message =
  km_Topic :: string
  km_Key :: string
  km_Value :: json
  km_Time :: time
  km_Headers :: "(string \<times> string) list"

definition kafka_Publish :: "(kafka_message \<Rightarrow> unit result) \<Rightarrow> string \<Rightarrow> event \<Rightarrow> unit result" where
  "kafka_Publish write topic ev =
     (if topic = '''' then Inl (ErrText ''Kafka topic is required'')
      else bindE (Event_Validate ev) (\<lambda>_.
        write \<lparr>km_Topic = topic, km_Key = ev_AggregateID ev, km_Value = event_json ev, km_Time = ev_OccurredAt ev,
          km_Headers = [(''event-id'', ev_ID ev), (''event-type'', ev_Type ev), (''event-version'', FormatInt (ev_Version ev))]\<rparr>))"

subsection \<open>The consumer\<close>

text \<open>A time in a message is the number that stands for it; anything else is refused.\<close>

fun decode_time :: "string \<Rightarrow> (string \<times> json) list \<Rightarrow> time \<Rightarrow> time option" where
  "decode_time f [] cur = Some cur"
| "decode_time f ((k, v) # rest) cur =
     (if ToLower k = ToLower f
      then (case v of JNum t \<Rightarrow> decode_time f rest t | JNull \<Rightarrow> decode_time f rest cur | _ \<Rightarrow> None)
      else decode_time f rest cur)"

definition decode_event :: "raw \<Rightarrow> event result" where
  "decode_event r =
     (case Option.bind (any_object r) (\<lambda>ms.
        Option.bind (decode_str ''id'' ms '''') (\<lambda>i.
        Option.bind (decode_str ''type'' ms '''') (\<lambda>ty.
        Option.bind (decode_int ''version'' ms 0) (\<lambda>version.
        Option.bind (decode_str ''aggregate_id'' ms '''') (\<lambda>aggregate.
        Option.bind (decode_str ''aggregate_type'' ms '''') (\<lambda>aggregateType.
        Option.bind (decode_time ''occurred_at'' ms 0) (\<lambda>occurred.
          Some \<lparr>ev_ID = i, ev_Type = ty, ev_Version = version, ev_AggregateID = aggregate,
            ev_AggregateType = aggregateType, ev_OccurredAt = occurred, ev_Payload = decode_raw ''payload'' ms RawEmpty\<rparr>))))))) of
        None \<Rightarrow> Inl (ErrText ''decode event'') | Some ev \<Rightarrow> Inr ev)"

lemma event_json_names:
  "ToLower ''id'' = ''id''" "ToLower ''type'' = ''type''" "ToLower ''version'' = ''version''"
  "ToLower ''aggregate_id'' = ''aggregate_id''" "ToLower ''aggregate_type'' = ''aggregate_type''"
  "ToLower ''occurred_at'' = ''occurred_at''" "ToLower ''payload'' = ''payload''"
  by code_simp+

lemma decode_event_json:
  assumes "in_int64 (ev_Version ev)" and "json_Valid (ev_Payload ev)"
  shows "decode_event (Raw (event_json ev)) = Inr ev"
proof -
  obtain j where "ev_Payload ev = Raw j" using assms(2) by (cases "ev_Payload ev") auto
  with assms(1) show ?thesis
    by (simp add: decode_event_def event_json_def any_object_def event_json_names at_json_def)
qed

subsection \<open>Properties\<close>

text \<open>
  C20: An event that the producer publishes reaches the handlers as it is: the message lies in the topic, under the
  key of the event's aggregate, and a consumer decodes it to the same event, which passes the consumer's
  validation, so the loop hands it to its processor.
\<close>

theorem published_event_consumed:
  assumes "kafka_Publish write topic ev = Inr ()" and "in_int64 (ev_Version ev)"
  shows "\<exists>msg. write msg = Inr () \<and> km_Topic msg = topic \<and> km_Key msg = ev_AggregateID ev \<and>
    decode_event (Raw (km_Value msg)) = Inr ev \<and>
    consume_message fuel process (decode_event (Raw (km_Value msg))) s = retry_loop fuel 0 process ev s"
proof -
  let ?msg = "\<lparr>km_Topic = topic, km_Key = ev_AggregateID ev, km_Value = event_json ev, km_Time = ev_OccurredAt ev,
    km_Headers = [(''event-id'', ev_ID ev), (''event-type'', ev_Type ev), (''event-version'', FormatInt (ev_Version ev))]\<rparr>"
  from assms(1) have "write ?msg = Inr ()" and valid: "Event_Validate ev = Inr ()"
    by (auto simp: kafka_Publish_def bindE_Inr_iff split: if_splits)
  moreover have "decode_event (Raw (event_json ev)) = Inr ev"
    using valid assms(2) by (intro decode_event_json) (auto simp: result_simps)
  ultimately show ?thesis by (intro exI [of _ ?msg]) (simp add: consume_message_def)
qed

theorem published_event_consumed_witness:
  "\<exists>(msg::kafka_message) (ev::event). ev_Version ev = 3 \<and> km_Key msg = ''p1'' \<and> decode_event (Raw (km_Value msg)) = Inr ev"
proof -
  let ?ev = "\<lparr>ev_ID = ''e1'', ev_Type = ''payment.created'', ev_Version = 3, ev_AggregateID = ''p1'', ev_AggregateType = ''payment'',
    ev_OccurredAt = 7, ev_Payload = Raw (JObj [(''note'', JNull)])\<rparr>"
  have "kafka_Publish (\<lambda>_. Inr ()) ''payment-events'' ?ev = Inr ()" by code_simp
  from published_event_consumed [OF this, where fuel = 0 and process = "\<lambda>_ _ s. (s, Inr True)" and s = empty_db]
  have "\<exists>msg::kafka_message. km_Key msg = ''p1'' \<and> decode_event (Raw (km_Value msg)) = Inr ?ev" by (simp add: in_int64_def) blast
  then obtain msg :: kafka_message where "km_Key msg = ''p1''" "decode_event (Raw (km_Value msg)) = Inr ?ev" by blast
  then show ?thesis by (intro exI [of _ msg] exI [of _ ?ev]) simp
qed

end
