(* ===== verification/App_Runtime.thy ===== *)
theory App_Runtime
  imports App_Config Kafka
begin

text \<open>
  The process: what \<^verbatim>\<open>run\<close> of \<^verbatim>\<open>cmd/stablerail/main.go\<close> builds before it serves. The database connection is a
  parameter, and the constructors' checks for nil arguments, which cannot fail here, are left out.

  The lemmas say which environments start. How the built process runs and stops is in \<open>App_Run\<close>.
\<close>

subsection \<open>Start-up\<close>

datatype settlement = MockSettlement MockProvider | BlindPaySettlement Provider WebhookVerifier

definition mock_results :: "app_Config \<Rightarrow> int \<rightharpoonup> ExecutionResult" where
  "mock_results c =
     (let put = (\<lambda>a x m. if 0 < a then m(a \<mapsto> x) else m) in
      put (co_MockSettlementPendingAmount c) (zero_result\<lparr>er_Status := ExecutionPending\<rparr>)
        (put (co_MockSettlementHoldAmount c) (zero_result\<lparr>er_Status := ExecutionOnHold\<rparr>)
           (put (co_MockSettlementFailAmount c)
              (zero_result\<lparr>er_Status := ExecutionFailed, er_FailureCode := ''local_failure'',
                 er_FailureMessage := ''local settlement failed''\<rparr>) Map.empty)))"

definition blindpay_client :: "(string \<Rightarrow> url option) \<Rightarrow> app_Config \<Rightarrow> Client result" where
  "blindpay_client url_Parse c = NewClient url_Parse \<lparr>cf_APIKey = bc_APIKey (co_BlindPay c),
     cf_InstanceID = bc_InstanceID (co_BlindPay c), cf_BaseURL = bc_BaseURL (co_BlindPay c)\<rparr>"

definition run_settlement :: "(string \<Rightarrow> url option) \<Rightarrow> jsonlib \<Rightarrow> http \<Rightarrow> app_Config \<Rightarrow> settlement result" where
  "run_settlement url_Parse lib http c =
     (if co_SettlementProvider c = ''mock''
      then Inr (MockSettlement ((NewMockProvider zero_result)\<lparr>mk_ResultsByAmount := mock_results c\<rparr>))
      else if co_SettlementProvider c = ''blindpay''
      then bindE (blindpay_client url_Parse c) (\<lambda>client.
           bindE (NewQuoteService (api_quote_client lib http client) (bc_Network (co_BlindPay c)) (bc_Token (co_BlindPay c))) (\<lambda>payoutQuotes.
           bindE (NewWebhookVerifier (bc_WebhookSecret (co_BlindPay c))) (\<lambda>verifier.
             Inr (BlindPaySettlement \<lparr>pv_quotes = payoutQuotes, pv_client = client\<rparr> verifier))))
      else Inl (ErrText ''unsupported settlement provider''))"

text \<open>The two halves of the chosen provider, as they answer in given surroundings.\<close>

fun payouts_of :: "settlement \<Rightarrow> surroundings \<Rightarrow> PayoutProvider" where
  "payouts_of (MockSettlement m) u = mock_payouts (su_now u) m"
| "payouts_of (BlindPaySettlement p _) u = blindpay_payouts p u"

fun payins_of :: "settlement \<Rightarrow> surroundings \<Rightarrow> PayinProvider" where
  "payins_of (MockSettlement m) u = mock_payins (su_now u)"
| "payins_of (BlindPaySettlement p _) u = blindpay_payins p u"

fun verifier_of :: "settlement \<Rightarrow> WebhookVerifier option" where
  "verifier_of (MockSettlement _) = None"
| "verifier_of (BlindPaySettlement _ v) = Some v"

record wiring =
  wi_config :: app_Config
  wi_relay :: Relay
  wi_coordinator :: SagaCoordinator
  wi_dispatcher :: WebhookConfig
  wi_reconciler :: duration
  wi_settlement :: settlement

definition postgres_Open :: "(string \<Rightarrow> unit result) \<Rightarrow> string \<Rightarrow> unit result" where
  "postgres_Open ping dataSourceName =
     (if dataSourceName = '''' then Inl (ErrText ''PostgreSQL data source name is required'') else ping dataSourceName)"

definition zero_relay_config :: RelayConfig where
  "zero_relay_config = \<lparr>rc_BatchSize = 0, rc_PollInterval = 0, rc_InitialBackoff = 0, rc_MaxBackoff = 0, rc_MaxAttempts = 0,
     rc_MaxAge = 0, rc_DeadLetterTopic = ''''\<rparr>"

definition zero_webhook_config :: WebhookConfig where
  "zero_webhook_config = \<lparr>nc_BatchSize = 0, nc_PollInterval = 0, nc_InitialBackoff = 0, nc_MaxBackoff = 0, nc_MaxAge = 0,
     nc_MaxAttempts = 0\<rparr>"

definition operator_enabled :: "app_Config \<Rightarrow> bool result" where
  "operator_enabled c =
     (if co_OperatorToken c = '''' then Inr False
      else if TrimSpace (co_OperatorToken c) = ''''
      then Inl (ErrText ''operator token and manual review resolver are required'') else Inr True)"

definition run_build ::
  "(string \<Rightarrow> duration option) \<Rightarrow> getenv \<Rightarrow> (string \<Rightarrow> unit result) \<Rightarrow> (string \<Rightarrow> url option) \<Rightarrow> surroundings \<Rightarrow> wiring result" where
  "run_build parse get ping url_Parse u =
     bindE (ConfigFromEnv parse get) (\<lambda>c.
     bindE (postgres_Open ping (co_DatabaseURL c)) (\<lambda>_.
     bindE (NewKafkaProducer (co_KafkaBrokers c)) (\<lambda>_.
     bindE (NewRelay zero_relay_config) (\<lambda>relay.
     bindE (NewSagaCoordinator \<lparr>sc_PolicyTimeout = 0, sc_LedgerTimeout = 0, sc_SettlementTimeout = 0,
              sc_ComplianceTimeout = co_SagaComplianceTimeout c, sc_TimeoutBatchSize = 0\<rparr>) (\<lambda>coordinator.
     bindE (NewDispatcher zero_webhook_config) (\<lambda>dispatcher.
     bindE (Reconciler_New (co_ReconciliationInterval c)) (\<lambda>reconciler.
     bindE (run_settlement url_Parse (su_json u) (su_http u) c) (\<lambda>provider.
     bindE (payout_NewService (payouts_of provider u) (payouts_of provider u)) (\<lambda>_.
     bindE (payin_NewService (payins_of provider u) (payins_of provider u)) (\<lambda>_.
     bindE (operator_enabled c) (\<lambda>_.
       Inr \<lparr>wi_config = c, wi_relay = relay, wi_coordinator = coordinator, wi_dispatcher = dispatcher,
         wi_reconciler = reconciler, wi_settlement = provider\<rparr>)))))))))))"

text \<open>The HTTP server over the wiring: the handlers see the provider as it is when a request comes.\<close>

definition run_server :: "(string \<Rightarrow> url option) \<Rightarrow> unit result \<Rightarrow> surroundings \<Rightarrow> wiring \<Rightarrow> Server" where
  "run_server url_Parse health u w =
     (let endpoints = \<lparr>ws_url_Parse = url_Parse, ws_allowPrivateURLs = False\<rparr> in
      \<lparr>sv_handler = \<lparr>h_payouts = payouts_of (wi_settlement w) u, h_payins = Some (payins_of (wi_settlement w) u), h_health = health\<rparr>,
       sv_endpoints = (if co_AllowPrivateWebhookURLs (wi_config w) then AllowPrivateURLs endpoints else endpoints),
       sv_coordinator = wi_coordinator w, sv_operator_token = co_OperatorToken (wi_config w),
       sv_mock = (co_SettlementProvider (wi_config w) = ''mock''), sv_blindpay = verifier_of (wi_settlement w)\<rparr>)"

subsection \<open>What starts\<close>

lemma settlement_services:
  assumes "run_settlement url_Parse lib http c = Inr st"
  shows "payout_NewService (payouts_of st u) (payouts_of st u) = Inr (payouts_of st u, payouts_of st u)"
    "payin_NewService (payins_of st u) (payins_of st u) = Inr (payins_of st u, payins_of st u)"
  using assms new_mock.provider.services blindpay.services
  by (auto simp: run_settlement_def bindE_Inr_iff split: if_splits)

lemma zero_configs: "\<exists>r. NewRelay zero_relay_config = Inr r" "\<exists>d. NewDispatcher zero_webhook_config = Inr d"
  by (rule not_isl_Inr; code_simp)+

lemma coordinator_starts:
  "0 < timeout \<Longrightarrow> \<exists>k. NewSagaCoordinator \<lparr>sc_PolicyTimeout = 0, sc_LedgerTimeout = 0, sc_SettlementTimeout = 0,
     sc_ComplianceTimeout = timeout, sc_TimeoutBatchSize = 0\<rparr> = Inr k"
  by (simp add: NewSagaCoordinator_def)

lemma settlement_starts:
  assumes "config_ok c"
  shows "(\<exists>st. run_settlement url_Parse lib http c = Inr st) \<longleftrightarrow> co_SettlementProvider c = ''mock'' \<or>
    (\<exists>client. blindpay_client url_Parse c = Inr client) \<and> (\<exists>v. NewWebhookVerifier (bc_WebhookSecret (co_BlindPay c)) = Inr v)"
proof (cases "co_SettlementProvider c = ''mock''")
  case False
  with assms have "co_SettlementProvider c = ''blindpay''" "bc_Network (co_BlindPay c) \<noteq> ''''" "bc_Token (co_BlindPay c) \<noteq> ''''"
    by (auto simp: config_ok_def BlindPayConfig_Validate_def split: if_splits)
  with False show ?thesis by (auto simp: run_settlement_def NewQuoteService_def bindE_Inr_iff)
qed (simp add: run_settlement_def)

text \<open>
  C11: A configuration read from the environment is well formed, and when it is accepted the process starts
  exactly if the database answers, the operator token is unset or not blank, and, with BlindPay, the base URL
  and the API key pass the client's check and the webhook secret is a base64 key. So the validation of the
  configuration misses a blank token, a blank key, a base URL that is not one, and an undecodable secret.
\<close>

theorem accepted_configuration_starts:
  assumes "ConfigFromEnv parse get = Inr c"
  shows "config_ok c \<and> ((\<exists>w. run_build parse get ping url_Parse u = Inr w) \<longleftrightarrow>
    ping (co_DatabaseURL c) = Inr () \<and> (co_OperatorToken c = '''' \<or> TrimSpace (co_OperatorToken c) \<noteq> '''') \<and>
    (co_SettlementProvider c = ''mock'' \<or>
     (\<exists>client. blindpay_client url_Parse c = Inr client) \<and> (\<exists>v. NewWebhookVerifier (bc_WebhookSecret (co_BlindPay c)) = Inr v)))"
proof -
  from assms have ok: "config_ok c" by (rule ConfigFromEnv_ok)
  then have pos: "co_DatabaseURL c \<noteq> ''''" "co_KafkaBrokers c \<noteq> []" "0 < co_SagaComplianceTimeout c" "0 < co_ReconciliationInterval c"
    by (auto simp: config_ok_def)
  obtain relay dispatcher k where "NewRelay zero_relay_config = Inr relay" "NewDispatcher zero_webhook_config = Inr dispatcher"
    "NewSagaCoordinator \<lparr>sc_PolicyTimeout = 0, sc_LedgerTimeout = 0, sc_SettlementTimeout = 0,
       sc_ComplianceTimeout = co_SagaComplianceTimeout c, sc_TimeoutBatchSize = 0\<rparr> = Inr k"
    using zero_configs coordinator_starts [OF pos(3)] by blast
  moreover have "postgres_Open ping (co_DatabaseURL c) = ping (co_DatabaseURL c)" using pos by (simp add: postgres_Open_def)
  moreover have "NewKafkaProducer (co_KafkaBrokers c) = Inr ()" using pos by (simp add: NewKafkaProducer_def)
  moreover have "\<exists>d. Reconciler_New (co_ReconciliationInterval c) = Inr d" using pos by (simp add: Reconciler_New_def)
  moreover have "(\<exists>b. operator_enabled c = Inr b) \<longleftrightarrow> co_OperatorToken c = '''' \<or> TrimSpace (co_OperatorToken c) \<noteq> ''''"
    by (auto simp: operator_enabled_def)
  ultimately have "(\<exists>w. run_build parse get ping url_Parse u = Inr w) \<longleftrightarrow> ping (co_DatabaseURL c) = Inr () \<and>
      (co_OperatorToken c = '''' \<or> TrimSpace (co_OperatorToken c) \<noteq> '''') \<and>
      (\<exists>st. run_settlement url_Parse (su_json u) (su_http u) c = Inr st)"
    using assms settlement_services by (auto simp: run_build_def bindE_Inr_iff)
  with ok show ?thesis using settlement_starts [OF ok] by simp
qed

definition sample_getenv :: getenv where
  "sample_getenv name = (if name = ''STABLERAIL_DATABASE_URL'' then ''postgres://db''
     else if name = ''STABLERAIL_KAFKA_BROKERS'' then ''k1:9092, k2:9092'' else '''')"

theorem accepted_configuration_starts_witness:
  "\<exists>c w. ConfigFromEnv (\<lambda>_. None) sample_getenv = Inr c \<and> co_KafkaBrokers c = [''k1:9092'', ''k2:9092''] \<and>
     run_build (\<lambda>_. None) sample_getenv (\<lambda>_. Inr ()) (\<lambda>_. None) sample_surroundings = Inr w"
proof -
  let ?c = "ConfigFromEnv (\<lambda>_. None) sample_getenv"
  have "\<exists>c. ?c = Inr c" by (rule not_isl_Inr) code_simp
  then obtain c where c: "?c = Inr c" ..
  have "(case ?c of Inl _ \<Rightarrow> False | Inr c \<Rightarrow> co_KafkaBrokers c = [''k1:9092'', ''k2:9092''] \<and>
      co_OperatorToken c = '''' \<and> co_SettlementProvider c = ''mock'')" by code_simp
  with c accepted_configuration_starts [OF c, of "\<lambda>_. Inr ()" "\<lambda>_. None" sample_surroundings] show ?thesis by auto
qed

end
