(* ===== verification/App_Run.thy ===== *)
theory App_Run
  imports Prelude
begin

text \<open>
  \<^verbatim>\<open>Run\<close> of \<^verbatim>\<open>app/runtime.go\<close>: it starts the workers and the HTTP server, waits for the first to return or for a
  signal, shuts the server down and waits for all. Components are goroutines that return when they like, so
  \<open>Run\<close> is a step relation: a step is a signal, the return of a component, or a move of \<open>Run\<close> itself.

  The lemmas: a measure that every step decreases, and how a run can end.
\<close>

subsection \<open>Start\<close>

text \<open>How a component returns: without an error, with the cancellation, or with another error.\<close>

datatype exit_status = Clean | Canceled | Failed string

text \<open>Where \<open>Run\<close> is: in its select, before the shutdown of the server, before the end of all, or back.\<close>

datatype phase = Selecting | Closing exit_status | Draining exit_status | Returned exit_status

record process =
  pr_server :: nat
  pr_running :: "nat list"
  pr_errs :: "exit_status list"
  pr_cancelled :: bool
  pr_closed :: bool
  pr_phase :: phase

definition Run_start :: "bool \<Rightarrow> duration \<Rightarrow> bool list \<Rightarrow> process result" where
  "Run_start handler shutdownTimeout workers =
     (if \<not> handler then Inl (ErrText ''HTTP server and handler are required'')
      else if shutdownTimeout \<le> 0 then Inl (ErrText ''shutdown timeout must be positive'')
      else if \<not> list_all id workers then Inl (ErrText ''nil application worker'')
      else Inr \<lparr>pr_server = length workers, pr_running = [0..<Suc (length workers)], pr_errs = [],
             pr_cancelled = False, pr_closed = False, pr_phase = Selecting\<rparr>)"

subsection \<open>Steps\<close>

definition is_returned :: "phase \<Rightarrow> bool" where
  "is_returned ph \<longleftrightarrow> (case ph of Returned _ \<Rightarrow> True | _ \<Rightarrow> False)"

definition component_result :: "exit_status \<Rightarrow> exit_status" where
  "component_result x = (case x of Failed e \<Rightarrow> Failed (''application component failed: '' @ e) | _ \<Rightarrow> Clean)"

text \<open>An error of the shutdown counts only when there is none yet.\<close>

definition shutdown_result :: "exit_status \<Rightarrow> string option \<Rightarrow> exit_status" where
  "shutdown_result r err = (if r = Clean then (case err of None \<Rightarrow> Clean | Some e \<Rightarrow> Failed (''shutdown HTTP server: '' @ e)) else r)"

definition final_result :: "exit_status \<Rightarrow> exit_status" where
  "final_result r = (if r = Canceled then Clean else r)"

text \<open>
  The channel of errors has room for every component, so none blocks when it returns. The server returns
  without an error only once its shutdown has begun. The shutdown ends with or without an error.
\<close>

inductive run_step :: "process \<Rightarrow> process \<Rightarrow> bool" where
  signal: "\<not> is_returned (pr_phase p) \<Longrightarrow> \<not> pr_cancelled p \<Longrightarrow> run_step p (p\<lparr>pr_cancelled := True\<rparr>)"
| worker: "i \<in> set (pr_running p) \<Longrightarrow> i \<noteq> pr_server p \<Longrightarrow>
    run_step p (p\<lparr>pr_running := remove1 i (pr_running p), pr_errs := pr_errs p @ [x]\<rparr>)"
| server: "pr_server p \<in> set (pr_running p) \<Longrightarrow> x = Failed e \<or> x = Clean \<and> pr_phase p \<noteq> Selecting \<Longrightarrow>
    run_step p (p\<lparr>pr_running := remove1 (pr_server p) (pr_running p), pr_errs := pr_errs p @ [x]\<rparr>)"
| select_done: "pr_phase p = Selecting \<Longrightarrow> pr_cancelled p \<Longrightarrow> run_step p (p\<lparr>pr_phase := Closing Canceled\<rparr>)"
| select_error: "pr_phase p = Selecting \<Longrightarrow> pr_errs p = x # xs \<Longrightarrow>
    run_step p (p\<lparr>pr_errs := xs, pr_cancelled := True, pr_phase := Closing (component_result x)\<rparr>)"
| shutdown: "pr_phase p = Closing r \<Longrightarrow>
    run_step p (p\<lparr>pr_closed := True, pr_cancelled := True, pr_phase := Draining (shutdown_result r err)\<rparr>)"
| wait: "pr_phase p = Draining r \<Longrightarrow> pr_running p = [] \<Longrightarrow> run_step p (p\<lparr>pr_phase := Returned (final_result r)\<rparr>)"

inductive_cases run_stepE: "run_step p q"

subsection \<open>A measure\<close>

fun phase_rank :: "phase \<Rightarrow> nat" where
  "phase_rank Selecting = 3"
| "phase_rank (Closing _) = 2"
| "phase_rank (Draining _) = 1"
| "phase_rank (Returned _) = 0"

definition moves_left :: "process \<Rightarrow> nat" where
  "moves_left p = length (pr_running p) + phase_rank (pr_phase p) + (if pr_cancelled p then 0 else 1)"

lemma run_step_decreases:
  assumes "run_step p q"
  shows "moves_left q < moves_left p"
proof -
  have "length (remove1 i l) < length l" if "i \<in> set l" for i and l :: "nat list"
    using that length_pos_if_in_set [OF that] by (simp add: length_remove1)
  with assms show ?thesis by cases (auto simp: moves_left_def)
qed

lemma run_decreases: "(run_step ^^ k) p q \<Longrightarrow> moves_left q + k \<le> moves_left p"
proof (induction k arbitrary: q)
  case (Suc k)
  then obtain r where "(run_step ^^ k) p r" "run_step r q" by auto
  with Suc.IH run_step_decreases show ?case by fastforce
qed simp

subsection \<open>How it ends\<close>

definition honest_result :: "exit_status \<Rightarrow> bool" where
  "honest_result r \<longleftrightarrow> r = Clean \<or> (\<exists>e. r = Failed (''application component failed: '' @ e)) \<or>
     (\<exists>e. r = Failed (''shutdown HTTP server: '' @ e))"

definition process_ok :: "process \<Rightarrow> bool" where
  "process_ok p \<longleftrightarrow> (case pr_phase p of
       Selecting \<Rightarrow> True
     | Closing r \<Rightarrow> r = Canceled \<or> honest_result r
     | Draining r \<Rightarrow> pr_closed p \<and> (r = Canceled \<or> honest_result r)
     | Returned r \<Rightarrow> pr_closed p \<and> pr_running p = [] \<and> honest_result r)"

lemma process_ok_step:
  assumes "run_step p q" and "process_ok p"
  shows "process_ok q"
  using assms
  by cases (auto simp: process_ok_def honest_result_def component_result_def shutdown_result_def final_result_def is_returned_def
      split: phase.splits exit_status.splits option.splits if_splits)

lemma process_ok_run: "(run_step ^^ k) p q \<Longrightarrow> process_ok p \<Longrightarrow> process_ok q"
  by (induction k arbitrary: q) (auto intro: process_ok_step)

text \<open>Something can happen until \<open>Run\<close> is back.\<close>

lemma run_can_move:
  assumes "\<not> is_returned (pr_phase p)"
  shows "\<exists>q. run_step p q"
proof (cases "pr_running p")
  case Nil
  show ?thesis
  proof (cases "pr_phase p")
    case Selecting
    with assms show ?thesis using run_step.signal run_step.select_done by (cases "pr_cancelled p") blast+
  next
    case (Closing r)
    then show ?thesis using run_step.shutdown by blast
  next
    case (Draining r)
    with Nil show ?thesis using run_step.wait by blast
  qed (use assms in \<open>simp add: is_returned_def\<close>)
next
  case (Cons i l)
  then have "i \<in> set (pr_running p)" by simp
  then show ?thesis by (cases "i = pr_server p") (blast intro: run_step.intros)+
qed

subsection \<open>Properties\<close>


definition one_worker :: process where
  "one_worker = \<lparr>pr_server = 1, pr_running = [0, 1], pr_errs = [], pr_cancelled = False, pr_closed = False, pr_phase = Selecting\<rparr>"


end
