(* ===== verification/System.thy ===== *)
theory System
  imports App_Runtime App_Run
begin

text \<open>
  The running system: HTTP requests over the server that start-up has wired, and the ten workers that the process runs
  beside it, in any order. The database, the API keys and the counters are the state; the mock provider's
  memory and the surroundings of a BlindPay call may be different at every step.

  The workers touch neither quotes nor webhook endpoints, so they keep what the requests rely on; together
  with the books this is the invariant of the system.
\<close>

subsection \<open>Quotes and endpoints\<close>

definition kept :: "db \<Rightarrow> db \<Rightarrow> bool" where
  "kept s s' \<longleftrightarrow> quotes s' = quotes s \<and> endpoints s' = endpoints s"

lemma kept_refl [simp]: "kept s s"
  by (simp add: kept_def)

lemma kept_trans: "kept s t \<Longrightarrow> kept t u \<Longrightarrow> kept s u"
  by (simp add: kept_def)

lemma tx_effect_kept: "tx_effect s s' \<Longrightarrow> kept s s'"
  by (simp add: kept_def tx_effect_def)

text \<open>What \<open>Process\<close> leaves: nothing new, the handler's commit, or its side writes with the inbox as before.\<close>

lemma Process_shape:
  assumes "Process schemas consumer handler e ev s = (s', r)"
  obtains "s' = s"
  | s1 n hev side err where "insert_inbox_once (inbox_row_of consumer ev (env_now e)) s = Inr (s1, n)"
      "handler e hev s1 = (side, Inl err)" "s' = side\<lparr>inbox := inbox s\<rparr>"
  | s1 n hev side where "insert_inbox_once (inbox_row_of consumer ev (env_now e)) s = Inr (s1, n)" "handler e hev s1 = (side, Inr s')"
proof (cases "s' = s")
  case False
  with assms obtain s1 n hev where ins: "insert_inbox_once (inbox_row_of consumer ev (env_now e)) s = Inr (s1, n)" and
    run: "(case handler e hev s1 of (side, Inl err) \<Rightarrow> (side\<lparr>inbox := inbox s\<rparr>, Inl err)
      | (side, Inr s2) \<Rightarrow> (s2, Inr True)) = (s', r)"
    unfolding Process_def by (simp split: if_split_asm sum.split_asm prod.split_asm)
  obtain side q where h: "handler e hev s1 = (side, q)" by fastforce
  show thesis
  proof (cases q)
    case (Inl err)
    with run h show thesis by (intro that(2) [OF ins, of hev side err]) simp_all
  next
    case (Inr s2)
    with run h show thesis by (intro that(3) [OF ins, of hev side]) simp_all
  qed
qed (rule that(1))

locale side_handler =
  fixes handler :: handler
  assumes handler_kept: "handler e ev s = (side, r) \<Longrightarrow> kept s side \<and> (\<forall>s'. r = Inr s' \<longrightarrow> kept s s')"
begin

lemma Process_kept:
  assumes "Process schemas consumer handler e ev s = (s', r)"
  shows "kept s s'"
proof -
  have inbox: "kept s s1" if "insert_inbox_once row s = Inr (s1, n)" for row s1 n
    using that by (auto simp: insert_inbox_once_def kept_def split: if_splits)
  from assms show ?thesis
  proof (cases rule: Process_shape)
    case 1
    then show ?thesis by simp
  next
    case (2 s1 n hev side err)
    with handler_kept [OF 2(2)] inbox [OF 2(1)] show ?thesis by (simp add: kept_def)
  next
    case (3 s1 n hev side)
    with handler_kept [OF 3(2)] inbox [OF 3(1)] show ?thesis by (auto intro: kept_trans)
  qed
qed

end

subsection \<open>The workers\<close>

lemma updateAndCommand_kept: "updateAndCommand e n i cause st command timeout failure s = Inr s' \<Longrightarrow> kept s s'"
  by (drule updateAndCommand_Inr) (auto simp: kept_def set_saga_def)

lemma payout_Handle_kept:
  assumes "payout_Handle c e ev s = Inr s'"
  shows "kept s s'"
proof (cases "ev_Type ev = ''payout.created''")
  case True
  with payout_start_Inr [OF payout_Handle_created [OF assms]] show ?thesis by (auto simp: kept_def split: if_splits)
next
  case False
  from payout_Handle_cases [OF assms False] show ?thesis by (metis updateAndCommand_kept)
qed

lemma payin_Handle_kept: "payin_Handle c e ev s = Inr s' \<Longrightarrow> kept s s'"
  by (cases rule: payin_Handle_cases) (auto simp: kept_def set_saga_def)

lemma EventHandler_kept: "webhook_EventHandler md5 e ev s = Inr s' \<Longrightarrow> kept s s'"
  by (drule EventHandler_frame) (auto simp: kept_def)

interpretation command_side: side_handler "service_handler evaluate po pn" for evaluate po pn
  by unfold_locales (auto simp: service_handler_def dest: services.command_effect intro: tx_effect_kept)

interpretation payout_saga_side: side_handler "PayoutSagaHandler c" for c
  by unfold_locales (auto simp: PayoutSagaHandler_def in_tx_def split: if_splits dest: payout_Handle_kept)

interpretation payin_saga_side: side_handler "PayinSagaHandler c" for c
  by unfold_locales (auto simp: PayinSagaHandler_def in_tx_def split: if_splits dest: payin_Handle_kept)

interpretation webhook_side: side_handler "in_tx (webhook_EventHandler md5)" for md5
  by unfold_locales (auto simp: in_tx_def dest: EventHandler_kept)

lemma payout_ExpireOnce_kept:
  assumes "payout_ExpireOnce c e locked s = Inr (n, s')"
  shows "kept s s'"
  using conjunct2 [OF payout_ExpireOnce_Inr [OF assms]] kept_refl
  by (rule foldE_invariant)
    (auto simp: payout_expire_step_def split: prod.splits intro: kept_trans updateAndCommand_kept)

lemma payin_ExpireOnce_kept:
  assumes "payin_ExpireOnce c e locked s = Inr (n, s')"
  shows "kept s s'"
  using conjunct2 [OF payin_ExpireOnce_Inr [OF assms]] kept_refl
  by (rule foldE_invariant)
    (auto simp: payin_expire_step_def kept_def split: prod.splits dest!: payin_enqueueCommand_Inr)

lemma RelayOnce_kept: "RelayOnce c e nanos publish locked s = (s', sent, r) \<Longrightarrow> kept s s'"
  by (drule RelayOnce_effect) (auto simp: kept_def)

lemma dispatch_loop_kept: "kept s (dispatch_loop c world e n vs s)"
proof (induction vs arbitrary: n s)
  case (Cons v vs)
  have "kept s (webhook_deliver c world e n v s)"
    by (simp add: webhook_deliver_row update_delivery_def kept_def)
  with Cons.IH kept_trans show ?case unfolding dispatch_loop.simps by blast
qed simp

lemma DispatchOnce_kept: "DispatchOnce c world e s = (n, s') \<Longrightarrow> kept s s'"
  by (auto simp: DispatchOnce_def Let_def intro: dispatch_loop_kept)

lemma record_finding_kept: "record_finding now run f s = Inr s' \<Longrightarrow> kept s s'"
  by (auto simp: record_finding_def Let_def kept_def set_payout_recon_def set_payin_recon_def split: if_splits)

lemma Reconciler_RunOnce_kept:
  assumes "Reconciler_RunOnce e s = Inr (n, s')"
  shows "kept s s'"
proof -
  let ?run = "Suc (length (runs s))"
  let ?s1 = "s\<lparr>runs := runs s @ [\<lparr>rr_id = ?run, rr_started = env_now e, rr_completed = None, rr_count = 0, rr_error = None\<rparr>]\<rparr>"
  let ?m = "set_payout_recon (\<lambda>_. True) Matched (set_payin_recon (\<lambda>_. True) Matched ?s1)"
  from assms obtain s2 d r where s2: "foldE (record_finding (env_now e) ?run) (find_discrepancies ?s1) ?m = Inr s2" and
    s': "s' = s2\<lparr>discrepancies := d, runs := r\<rparr>"
    unfolding Reconciler_RunOnce_def Let_def bindE_Inr_iff by blast
  have "kept ?m s2"
    using s2 kept_refl by (rule foldE_invariant) (blast intro: kept_trans record_finding_kept)
  then show ?thesis by (simp add: kept_def s' set_payout_recon_def set_payin_recon_def)
qed

lemma bp_ReconcileOnce_kept: "bp_ReconcileOnce es s = (s', n, er) \<Longrightarrow> kept s s'"
  using bp_ReconcileOnce_effect [of es s s' n er] by (simp add: bp_effect_def tx_effect_kept)

subsection \<open>Steps of the system\<close>

text \<open>What a settlement has become since start-up: only the mock provider has a memory.\<close>

inductive settlement_later :: "settlement \<Rightarrow> settlement \<Rightarrow> bool" where
  mock: "mock_step\<^sup>*\<^sup>* m m' \<Longrightarrow> settlement_later (MockSettlement m) (MockSettlement m')"
| blindpay: "settlement_later (BlindPaySettlement p v) (BlindPaySettlement p v)"

definition run_commands :: "wiring \<Rightarrow> settlement \<Rightarrow> surroundings \<Rightarrow> handler" where
  "run_commands w st u = service_handler (DeterministicEvaluator_Evaluate (co_MockPolicyRejectAmount (wi_config w)))
     (payouts_of st u) (payins_of st u)"

inductive background_step :: "wiring \<Rightarrow> db \<Rightarrow> db \<Rightarrow> bool" for w where
  relay: "RelayOnce (wi_relay w) e nanos publish locked s = (s', sent, rr) \<Longrightarrow> background_step w s s'"
| payout_timeouts: "payout_ExpireOnce (wi_coordinator w) e locked s = Inr (n, s') \<Longrightarrow> background_step w s s'"
| payin_timeouts: "payin_ExpireOnce payin_NewSagaCoordinator e locked s = Inr (n, s') \<Longrightarrow> background_step w s s'"
| payout_saga: "Process None ''payout-saga'' (PayoutSagaHandler (wi_coordinator w)) e ev s = (s', r) \<Longrightarrow> background_step w s s'"
| payin_saga: "Process None ''payin-saga'' (PayinSagaHandler payin_NewSagaCoordinator) e ev s = (s', r) \<Longrightarrow> background_step w s s'"
| commands: "settlement_later (wi_settlement w) st \<Longrightarrow>
    Process None ''core-workers'' (run_commands w st u) e ev s = (s', r) \<Longrightarrow> background_step w s s'"
| payment_webhooks: "Process None ''payment-webhooks'' (in_tx (webhook_EventHandler md5)) e ev s = (s', r) \<Longrightarrow> background_step w s s'"
| dispatcher: "DispatchOnce (wi_dispatcher w) world e s = (n, s') \<Longrightarrow> background_step w s s'"
| reconciler: "Reconciler_RunOnce e s = Inr (n, s') \<Longrightarrow> background_step w s s'"
| provider_repair: "verifier_of (wi_settlement w) \<noteq> None \<Longrightarrow> bp_ReconcileOnce es s = (s', n, er) \<Longrightarrow> background_step w s s'"

inductive system_step :: "(string \<Rightarrow> url option) \<Rightarrow> stdlib \<Rightarrow> wiring \<Rightarrow> gateway \<Rightarrow> gateway \<Rightarrow> bool" for url_Parse lib w where
  request: "settlement_later (wi_settlement w) st \<Longrightarrow>
    serve (run_server url_Parse health u (w\<lparr>wi_settlement := st\<rparr>)) lib e elapsed bp r g = (reply, g') \<Longrightarrow>
    system_step url_Parse lib w g g'"
| background: "background_step w s s' \<Longrightarrow> system_step url_Parse lib w ((s, ks), m) ((s', ks), m)"

text \<open>Every step of a worker is a step of the platform.\<close>

lemma background_platform: "background_step w s s' \<Longrightarrow> platform_step s s'"
  by (induction rule: background_step.induct) (auto simp: run_commands_def intro: platform_step.intros)

lemma background_kept: "background_step w s s' \<Longrightarrow> kept s s'"
  by (induction rule: background_step.induct)
    (auto simp: run_commands_def intro: RelayOnce_kept payout_ExpireOnce_kept payin_ExpireOnce_kept
      payout_saga_side.Process_kept payin_saga_side.Process_kept command_side.Process_kept webhook_side.Process_kept
      DispatchOnce_kept Reconciler_RunOnce_kept bp_ReconcileOnce_kept)

lemma background_side_effect: "background_step w s s' \<Longrightarrow> side_effect s s'"
  using background_kept [of w s s'] platform_step_books [OF background_platform [of w s s']]
  by (simp add: side_effect_def kept_def)

lemma system_step_ok: "system_step url_Parse lib w g g' \<Longrightarrow> gateway_ok g \<Longrightarrow> gateway_ok g'"
  by (induction rule: system_step.induct)
    (metis prod.collapse serve_ok(1), blast intro: side_effect_ok background_side_effect)

lemma system_run_ok: "(system_step url_Parse lib w)\<^sup>*\<^sup>* g g' \<Longrightarrow> gateway_ok g \<Longrightarrow> gateway_ok g'"
  by (induction rule: rtranclp_induct) (auto dest: system_step_ok)

subsection \<open>The invariant\<close>

text \<open>
  C2: Whatever requests tenants, operators, providers and strangers send, in whatever order the workers
  interleave with them, and whatever BlindPay and the webhook receivers answer, the running system keeps the constraints of
  its tables and balanced books, so that the two accounts cancel in every currency; accepted quotes stay
  linked to their payments, the API keys stay well formed, and no tenant has more than five active webhook endpoints, each for
  another URL.
\<close>

theorem system_invariant:
  assumes "(system_step url_Parse lib w)\<^sup>*\<^sup>* g ((s, ks), m)" and "gateway_ok g"
  shows "ledger_ok s \<and> balance CashOperatingAccount c s + balance SettlementAccount c s = 0 \<and> quotes_linked s \<and>
    keys_ok ks \<and> length (filter (tenant_active t) (endpoints s)) \<le> 5 \<and>
    distinct (map we_url (filter (tenant_active t) (endpoints s)))"
  using system_run_ok [OF assms] trial_balance [of s c]
  by (simp add: gateway_ok_def endpoints_ok_def tenant_endpoints_ok_def maxActiveWebhookEndpoints_def)

definition sample_config :: app_Config where
  "sample_config = \<lparr>co_HTTPAddress = '':8080'', co_DatabaseURL = ''postgres://db'', co_SettlementProvider = ''mock'',
     co_OperatorToken = '''', co_BlindPay = env_blindpay (\<lambda>_. ''''), co_KafkaBrokers = [''k1:9092''],
     co_ShutdownTimeout = 10 * Second, co_SagaPollInterval = Second, co_ReconciliationInterval = Minute,
     co_SagaComplianceTimeout = 24 * Hour, co_MockPolicyRejectAmount = 0, co_MockSettlementFailAmount = 0,
     co_MockSettlementHoldAmount = 0, co_MockSettlementPendingAmount = 0, co_AllowPrivateWebhookURLs = False\<rparr>"

definition sample_wiring :: wiring where
  "sample_wiring = \<lparr>wi_config = sample_config,
     wi_relay = \<lparr>rl_batchSize = 100, rl_pollInterval = Second, rl_initialBackoff = Second, rl_maxBackoff = Minute,
       rl_maxAttempts = 10, rl_maxAge = 24 * Hour, rl_deadLetterTopic = DeadLetterTopic\<rparr>,
     wi_coordinator = sample_coordinator, wi_dispatcher = zero_webhook_config, wi_reconciler = Minute,
     wi_settlement = MockSettlement (NewMockProvider zero_result)\<rparr>"

text \<open>A request to the health check, then a worker that reserves the funds of a payment.\<close>

theorem system_invariant_witness:
  "\<exists>s ks m. (system_step (\<lambda>_. None) sample_lib sample_wiring)\<^sup>*\<^sup>* sample_gateway ((s, ks), m) \<and>
     length (journals s) = 1 \<and> balance CashOperatingAccount ''USD'' s + balance SettlementAccount ''USD'' s = 0"
proof -
  let ?step = "system_step (\<lambda>_. None) sample_lib sample_wiring"
  let ?sv = "run_server (\<lambda>_. None) (Inr ()) sample_surroundings sample_wiring"
  let ?g = "snd (serve ?sv sample_lib sample_key_env 5 sample_bp_request (sample_request_of ''GET'' [''healthz''] '''') sample_gateway)"
  have later: "settlement_later (wi_settlement sample_wiring) (wi_settlement sample_wiring)"
    by (simp add: sample_wiring_def settlement_later.mock)
  have same: "sample_wiring\<lparr>wi_settlement := wi_settlement sample_wiring\<rparr> = sample_wiring" by simp
  have "?step sample_gateway ?g"
    by (rule system_step.request [OF later, of _ "Inr ()" sample_surroundings]) (unfold same, rule prod.collapse [symmetric])
  moreover have first: "fst (fst ?g) = sample_db PaymentStatusCreated" by code_simp
  let ?run = "Process None ''core-workers'' (run_commands sample_wiring (wi_settlement sample_wiring) sample_surroundings)
    sample_env (sample_command ''ledger.reserve'') (sample_db PaymentStatusCreated)"
  have one: "length (journals (fst ?run)) = 1" by code_simp
  obtain s' r where run: "?run = (s', r)" by fastforce
  obtain ks m where g: "?g = ((sample_db PaymentStatusCreated, ks), m)" using first by (metis prod.collapse)
  have "?step ?g ((s', ks), m)"
    unfolding g by (rule system_step.background) (rule background_step.commands [OF later run])
  ultimately have steps: "?step\<^sup>*\<^sup>* sample_gateway ((s', ks), m)" by (meson r_into_rtranclp rtranclp_trans)
  have "length (journals s') = 1" using one run by simp
  with steps system_invariant [OF steps sample_gateway_ok] show ?thesis by blast
qed

end
