(* ===== verification/Blindpay_Quotes.thy ===== *)
theory Blindpay_Quotes
  imports Blindpay_Provider
begin

text \<open>
  Payout quotes through BlindPay, from the profile of the tenant to the stored quote: what a quote guarantees,
  and what becomes of a payout that is created without one.
\<close>

subsection \<open>What a quote guarantees\<close>

text \<open>The tenant's customer and bank account are approved, its wallet is active, on the network of the service.\<close>

definition usable_profile :: "QuoteService \<Rightarrow> string \<Rightarrow> PayoutProfile \<Rightarrow> bool" where
  "usable_profile v tenant f \<longleftrightarrow>
     cu_TenantID (pf_Customer f) = tenant \<and> cu_KYCStatus (pf_Customer f) \<in> {''approved'', ''approved_rfi''} \<and>
     ba_TenantID (pf_BankAccount f) = tenant \<and> ba_Status (pf_BankAccount f) = ''approved'' \<and>
     wa_TenantID (pf_ManagedWallet f) = tenant \<and> wa_Status (pf_ManagedWallet f) = ''active'' \<and>
     wa_Network (pf_ManagedWallet f) = qs_network v"

lemma GetApprovedPayoutProfile_Inr:
  assumes "GetApprovedPayoutProfile tenant bank wallet rf = Inr f"
  shows "cu_TenantID (pf_Customer f) = tenant \<and> cu_KYCStatus (pf_Customer f) \<in> {''approved'', ''approved_rfi''} \<and>
     ba_TenantID (pf_BankAccount f) = tenant \<and> ba_ProviderBankAccountID (pf_BankAccount f) = bank \<and>
     ba_Status (pf_BankAccount f) = ''approved'' \<and> wa_TenantID (pf_ManagedWallet f) = tenant \<and>
     wa_ProviderWalletID (pf_ManagedWallet f) = wallet \<and> wa_Status (pf_ManagedWallet f) = ''active''"
proof -
  from assms obtain c b w where
    "List.find (\<lambda>(c, _). cu_TenantID c = tenant) (bp_customers rf) = Some c"
    "List.find (\<lambda>(b, _). ba_TenantID b = tenant \<and> ba_ProviderBankAccountID b = bank) (bp_banks rf) = Some b"
    "List.find (\<lambda>(w, _). wa_TenantID w = tenant \<and> wa_ProviderWalletID w = wallet) (bp_wallets rf) = Some w"
    by (auto simp: GetApprovedPayoutProfile_def split: option.splits)
  moreover from this have "(\<lambda>(c, _). cu_TenantID c = tenant) c"
    "(\<lambda>(b, _). ba_TenantID b = tenant \<and> ba_ProviderBankAccountID b = bank) b"
    "(\<lambda>(w, _). wa_TenantID w = tenant \<and> wa_ProviderWalletID w = wallet) w" by (auto dest: find_Some_memb)
  ultimately show ?thesis using assms
    by (cases c; cases b; cases w) (auto simp: GetApprovedPayoutProfile_def split: if_splits)
qed

lemma QuoteService_Create_Inr:
  assumes "QuoteService_Create v rf now r = Inr t"
  obtains f q balance asset where
    "GetApprovedPayoutProfile (pr_TenantID r) (pr_BankAccountID r) (pr_ManagedWalletID r) rf = Inr f"
    "usable_profile v (pr_TenantID r) f"
    "qc_CreateQuote (qs_client v) \<lparr>bq_IdempotencyKey = pr_IdempotencyKey r, bq_BankAccountID = pr_BankAccountID r,
       bq_CurrencyType = pr_CurrencyType r, bq_CoverFees = pr_CoverFees r, bq_RequestAmount = pr_AmountMinor r,
       bq_Network = qs_network v, bq_Token = qs_token v, bq_PartnerFeeID = pr_PartnerFeeID r\<rparr> = Inr q"
    "qc_GetManagedWalletBalance (qs_client v) (cu_ProviderCustomerID (pf_Customer f)) (pr_ManagedWalletID r) = Inr balance"
    "balance (ToUpper (qs_token v)) = Some asset" "pt_SenderAmountMinor t \<le> mw_Amount asset"
    "now < pt_ExpiresAt t" "pt_ProviderQuoteID t = bqt_ID q" "pt_SenderAmountMinor t = bqt_SenderAmount q"
    "pt_ReceiverAmountMinor t = bqt_ReceiverAmount q" "pt_SourceCurrency t = qs_token v"
    "pt_DestinationCurrency t = ToUpper (TrimSpace (pr_DestinationCurrency r))" "length (pt_DestinationCurrency t) = 3"
proof -
  from assms obtain f where f: "GetApprovedPayoutProfile (pr_TenantID r) (pr_BankAccountID r) (pr_ManagedWalletID r) rf = Inr f"
    by (auto simp: QuoteService_Create_def Let_def bindE_Inr_iff split: if_splits)
  with assms have network: "wa_Network (pf_ManagedWallet f) = qs_network v"
    by (auto simp: QuoteService_Create_def Let_def bindE_Inr_iff split: if_splits)
  from f assms obtain q where q: "qc_CreateQuote (qs_client v) \<lparr>bq_IdempotencyKey = pr_IdempotencyKey r,
       bq_BankAccountID = pr_BankAccountID r, bq_CurrencyType = pr_CurrencyType r, bq_CoverFees = pr_CoverFees r,
       bq_RequestAmount = pr_AmountMinor r, bq_Network = qs_network v, bq_Token = qs_token v,
       bq_PartnerFeeID = pr_PartnerFeeID r\<rparr> = Inr q"
    by (auto simp: QuoteService_Create_def Let_def bindE_Inr_iff split: if_splits)
  from f q assms obtain balance where balance: "qc_GetManagedWalletBalance (qs_client v)
      (cu_ProviderCustomerID (pf_Customer f)) (pr_ManagedWalletID r) = Inr balance"
    by (auto simp: QuoteService_Create_def Let_def bindE_Inr_iff split: if_splits)
  from f q balance assms obtain asset where "balance (ToUpper (qs_token v)) = Some asset" "bqt_SenderAmount q \<le> mw_Amount asset"
    by (auto simp: QuoteService_Create_def Let_def bindE_Inr_iff split: if_splits option.splits)
  moreover from f q balance assms calculation have "now < pt_ExpiresAt t" "pt_ProviderQuoteID t = bqt_ID q"
    "pt_SenderAmountMinor t = bqt_SenderAmount q" "pt_ReceiverAmountMinor t = bqt_ReceiverAmount q"
    "pt_SourceCurrency t = qs_token v" "pt_DestinationCurrency t = ToUpper (TrimSpace (pr_DestinationCurrency r))"
    "length (pt_DestinationCurrency t) = 3"
    by (auto simp: QuoteService_Create_def Let_def bindE_Inr_iff split: if_splits)
  moreover have "usable_profile v (pr_TenantID r) f"
    using GetApprovedPayoutProfile_Inr [OF f] network by (simp add: usable_profile_def)
  ultimately show thesis using f q balance that by metis
qed

lemma bp_CreatePayoutQuote_Inr:
  assumes "bp_CreatePayoutQuote p u r = Inr x"
  obtains source bank metadata t pr where
    "ResolveProviderResource (qr_TenantID r) (qr_SourceAccountID r) ''account'' (su_db u) = Inr (source, metadata)"
    "QuoteService_Create (pv_quotes p) (su_refs u) (su_now u) pr = Inr t"
    "pr_TenantID pr = qr_TenantID r" "pr_ManagedWalletID pr = source" "pr_BankAccountID pr = bank"
    "pr_DestinationCurrency pr = qr_DestinationCurrency r"
    "pq_ProviderQuoteID x = pt_ProviderQuoteID t" "pq_SourceCurrency x = pt_SourceCurrency t"
    "pq_DestinationCurrency x = pt_DestinationCurrency t" "pq_SenderAmountMinor x = pt_SenderAmountMinor t"
    "pq_ReceiverAmountMinor x = pt_ReceiverAmountMinor t" "pq_ExpiresAt x = pt_ExpiresAt t"
proof -
  from assms obtain source metadata where
    src: "ResolveProviderResource (qr_TenantID r) (qr_SourceAccountID r) ''account'' (su_db u) = Inr (source, metadata)"
    by (auto simp: bp_CreatePayoutQuote_def bindE_Inr_iff)
  with assms obtain address where address: "bp_address metadata = Some address"
    by (auto simp: bp_CreatePayoutQuote_def split: option.splits)
  from src address assms obtain bank meta where
    dst: "ResolveProviderResource (qr_TenantID r) (qr_DestinationInstrumentID r) ''payment_instrument'' (su_db u) = Inr (bank, meta)"
    by (auto simp: bp_CreatePayoutQuote_def bindE_Inr_iff)
  let ?pr = "\<lparr>pr_IdempotencyKey = qr_IdempotencyKey r, pr_TenantID = qr_TenantID r, pr_BankAccountID = bank,
     pr_ManagedWalletID = source, pr_SourceAccountID = qr_SourceAccountID r,
     pr_DestinationInstrumentID = qr_DestinationInstrumentID r, pr_FundingMethod = qr_FundingMethod r,
     pr_DestinationCurrency = qr_DestinationCurrency r, pr_CurrencyType = qr_CurrencyType r,
     pr_CoverFees = qr_CoverFees r, pr_AmountMinor = qr_AmountMinor r, pr_PartnerFeeID = ''''\<rparr>"
  from src address dst assms obtain t where t: "QuoteService_Create (pv_quotes p) (su_refs u) (su_now u) ?pr = Inr t"
    by (auto simp: bp_CreatePayoutQuote_def bindE_Inr_iff)
  from src address dst t assms show thesis
    by (intro that [OF src t]) (auto simp: bp_CreatePayoutQuote_def)
qed

subsection \<open>Storing a quote\<close>

lemma payout_CreateQuote_cases [consumes 1, case_names stored fresh]:
  assumes "payout_CreateQuote provider e r s = Inr (qt, s')"
  obtains q where "quote_by_key PaymentDirectionPayout (qr_TenantID r) (qr_IdempotencyKey r) s = Some q"
      "quote_request_matches r q" "s' = s"
  | res row where "quote_by_key PaymentDirectionPayout (qr_TenantID r) (qr_IdempotencyKey r) s = None"
      "pp_CreatePayoutQuote provider r = Inr res" "s' = s\<lparr>quotes := quotes s @ [row]\<rparr>" "quotes_ok (quotes s @ [row])"
      "q_direction row = PaymentDirectionPayout" "q_id row = qt_ID qt" "q_tenant row = qr_TenantID r"
      "q_status row = QuoteOpen" "env_now e < q_expires_at row" "q_source_currency row = pq_SourceCurrency res"
      "q_destination_currency row = pq_DestinationCurrency res"
proof (cases "quote_by_key PaymentDirectionPayout (qr_TenantID r) (qr_IdempotencyKey r) s")
  case (Some q)
  with assms have "quote_request_matches r q \<and> s' = s"
    by (auto simp: payout_CreateQuote_def bindE_Inr_iff split: if_splits)
  with Some that(1) show thesis by blast
next
  case None
  with assms obtain res where res: "pp_CreatePayoutQuote provider r = Inr res"
    by (auto simp: payout_CreateQuote_def bindE_Inr_iff)
  from assms None res obtain i row where row: "insert_quote row s = Inr s'" "qt_ID qt = i" and
    sel: "q_direction row = PaymentDirectionPayout" "q_id row = i" "q_tenant row = qr_TenantID r"
      "q_status row = QuoteOpen" "env_now e < q_expires_at row" "q_source_currency row = pq_SourceCurrency res"
      "q_destination_currency row = pq_DestinationCurrency res"
    by (auto simp: payout_CreateQuote_def bindE_Inr_iff Let_def split: if_splits)
  from row(1) have "s' = s\<lparr>quotes := quotes s @ [row]\<rparr>" "quotes_ok (quotes s @ [row])"
    by (auto simp: insert_quote_def put_quotes_def split: if_splits)
  with None res row sel show thesis by (intro that(2)) simp_all
qed

lemma find_quote_append:
  assumes "quotes_ok (quotes s @ [row])" and "q_direction row = d"
  shows "find_quote d (q_id row) (s\<lparr>quotes := quotes s @ [row]\<rparr>) = Some row"
proof -
  from assms(1) have "q_id row \<notin> q_id ` set (quotes s)" by (simp add: quotes_ok_def)
  then have "q_id x \<noteq> q_id row" if "x \<in> set (quotes s)" for x using imageI [OF that, of q_id] by auto
  then have "List.find (\<lambda>q. q_direction q = d \<and> q_id q = q_id row) (quotes s) = None"
    by (auto simp: find_None_iff)
  with assms(2) show ?thesis by (simp add: find_quote_def find_append)
qed

subsection \<open>Properties\<close>

text \<open>
  C10: BlindPay quotes a payout only for a tenant that may be paid out: the account named in the request is
  the tenant's own wallet, the wallet is active and on the configured network, the customer has passed KYC and the
  bank account is approved, the quote is well formed and has not expired, and the balance that the provider
  reports for the wallet covers what the sender pays.
\<close>

theorem payout_quote_requires_profile:
  assumes "bp_CreatePayoutQuote p u r = Inr x"
    and "qs_client (pv_quotes p) = api_quote_client (su_json u) (su_http u) (pv_client p)"
  shows "\<exists>wallet metadata bank f balance asset.
    ResolveProviderResource (qr_TenantID r) (qr_SourceAccountID r) ''account'' (su_db u) = Inr (wallet, metadata) \<and>
    GetApprovedPayoutProfile (qr_TenantID r) bank wallet (su_refs u) = Inr f \<and>
    usable_profile (pv_quotes p) (qr_TenantID r) f \<and>
    GetManagedWalletBalance (su_json u) (su_http u) (pv_client p) (cu_ProviderCustomerID (pf_Customer f)) wallet = Inr balance \<and>
    balance (ToUpper (qs_token (pv_quotes p))) = Some asset \<and> pq_SenderAmountMinor x \<le> mw_Amount asset \<and>
    HasPrefix (pq_ProviderQuoteID x) ''qu_'' \<and> 0 < pq_SenderAmountMinor x \<and> 0 < pq_ReceiverAmountMinor x \<and>
    su_now u < pq_ExpiresAt x"
  using assms(1)
proof (cases rule: bp_CreatePayoutQuote_Inr)
  case (1 source bank metadata t pr)
  from 1(2) show ?thesis
  proof (cases rule: QuoteService_Create_Inr)
    case (1 f q balance asset)
    note q = 1 and x = \<open>pr_TenantID pr = qr_TenantID r\<close> \<open>pr_ManagedWalletID pr = source\<close> \<open>pr_BankAccountID pr = bank\<close>
      \<open>pq_ProviderQuoteID x = pt_ProviderQuoteID t\<close> \<open>pq_SenderAmountMinor x = pt_SenderAmountMinor t\<close>
      \<open>pq_ReceiverAmountMinor x = pt_ReceiverAmountMinor t\<close> \<open>pq_ExpiresAt x = pt_ExpiresAt t\<close>
    have "HasPrefix (pq_ProviderQuoteID x) ''qu_''" "0 < pq_SenderAmountMinor x" "0 < pq_ReceiverAmountMinor x"
      using q(3,8-10) x assms(2) by (auto simp: api_quote_client_def dest: CreateQuote_Inr)
    moreover have "GetManagedWalletBalance (su_json u) (su_http u) (pv_client p)
        (cu_ProviderCustomerID (pf_Customer f)) source = Inr balance"
      using q(4) x(2) assms(2) by (simp add: api_quote_client_def)
    ultimately show ?thesis
      using q(1,2,5-7) x \<open>ResolveProviderResource (qr_TenantID r) (qr_SourceAccountID r) ''account'' (su_db u) = Inr (source, metadata)\<close>
      by auto
  qed
qed

text \<open>A payout created without a quote asks for one in the payment's currency on both sides.\<close>

lemma implicit_quote_request_sel [simp]:
  "qr_SourceCurrency (implicit_quote_request r) = cp_Currency r"
  "qr_DestinationCurrency (implicit_quote_request r) = cp_Currency r"
  "qr_TenantID (implicit_quote_request r) = cp_TenantID r"
  "qr_IdempotencyKey (implicit_quote_request r) = cp_IdempotencyKey r @ '':implicit-quote''"
  by (simp_all add: implicit_quote_request_def)

lemma createPayout_tx_mismatch:
  assumes "find_quote PaymentDirectionPayout quote s = Some q" and "q_status q = QuoteOpen" and "env_now e < q_expires_at q"
    and "q_source_currency q \<noteq> cp_Currency r"
  shows "\<exists>err. createPayout_tx e r quote s = (s, Inl err)"
  using assms by (cases "newID ''pay_'' 1 e") (simp_all add: createPayout_tx_def)

text \<open>
  C39: With BlindPay and a token whose name is not three letters long, USDC or USDB, a payout cannot be
  created directly, without a quote: every attempt is refused, the first because the currency of the
  stored quote is the token while the request names the currency of the payment for both sides, and every later
  one because the quote stored under its key does not match the request. Nothing but an unused quote is left
  behind.
\<close>

theorem blindpay_direct_payout_refused:
  assumes "payout_CreatePayment (blindpay_payouts p u) e r s = (s', x)" and "cp_QuoteID r = ''''"
    and "length (qs_token (pv_quotes p)) \<noteq> 3" and "TrimSpace (qs_token (pv_quotes p)) = qs_token (pv_quotes p)"
    and "\<And>q. quote_by_key PaymentDirectionPayout (cp_TenantID r) (cp_IdempotencyKey r @ '':implicit-quote'') s = Some q \<Longrightarrow>
      q_source_currency q \<noteq> q_destination_currency q"
  shows "(\<exists>err. x = Inl err) \<and> payments s' = payments s \<and>
    (\<forall>q. quote_by_key PaymentDirectionPayout (cp_TenantID r) (cp_IdempotencyKey r @ '':implicit-quote'') s' = Some q \<longrightarrow>
      q_source_currency q \<noteq> q_destination_currency q)"
proof (cases "CreatePaymentRequest_Validate r")
  case (Inl err)
  with assms(1,5) show ?thesis by (auto simp: payout_CreatePayment_def)
next
  case (Inr v)
  let ?i = "implicit_quote_request r"
  from Inr assms(1) have run: "createPayout (blindpay_payouts p u) e r s = (s', x)" by (simp add: payout_CreatePayment_def)
  show ?thesis
  proof (cases "payout_CreateQuote (blindpay_payouts p u) e ?i s")
    case (Inl err)
    with run assms(2,5) show ?thesis by (auto simp: createPayout_def)
  next
    case (Inr y)
    obtain qt s1 where "y = (qt, s1)" by (cases y)
    with Inr have made: "payout_CreateQuote (blindpay_payouts p u) e ?i s = Inr (qt, s1)" by simp
    with run assms(2) have tx: "createPayout_tx e r (qt_ID qt) s1 = (s', x)" by (simp add: createPayout_def)
    from made show ?thesis
    proof (cases rule: payout_CreateQuote_cases)
      case (stored q)
      with assms(5) show ?thesis by (auto simp: quote_request_matches_def)
    next
      case (fresh res row)
      from fresh(2) have "bp_CreatePayoutQuote p u ?i = Inr res" by (simp add: blindpay_payouts_def)
      then obtain t pr where t: "QuoteService_Create (pv_quotes p) (su_refs u) (su_now u) pr = Inr t"
        "pr_DestinationCurrency pr = cp_Currency r" "pq_SourceCurrency res = pt_SourceCurrency t"
        "pq_DestinationCurrency res = pt_DestinationCurrency t"
        by (cases rule: bp_CreatePayoutQuote_Inr) auto
      from t(1) have cur: "pt_SourceCurrency t = qs_token (pv_quotes p)"
        "pt_DestinationCurrency t = ToUpper (TrimSpace (cp_Currency r))" "length (pt_DestinationCurrency t) = 3"
        using t(2) by (cases rule: QuoteService_Create_Inr; simp)+
      have len: "length (TrimSpace (cp_Currency r)) = 3" using cur by (simp add: ToUpper_def)
      have "q_source_currency row \<noteq> cp_Currency r" using fresh(10) t(3) cur(1) len assms(3,4) by auto
      from createPayout_tx_mismatch [OF _ fresh(8,9) this] find_quote_append [OF fresh(4,5)] fresh(3,6)
      obtain err where "createPayout_tx e r (qt_ID qt) s1 = (s1, Inl err)" by auto
      with tx have s': "s' = s1" "x = Inl err" by simp_all
      have "q_source_currency row \<noteq> q_destination_currency row" using fresh(10,11) t(3,4) cur assms(3) by auto
      with s' fresh(1,3) show ?thesis by (auto simp: quote_by_key_def find_append split: if_splits)
    qed
  qed
qed

definition sample_quote_request :: PayoutQuoteRequest where
  "sample_quote_request = \<lparr>qr_IdempotencyKey = ''k'', qr_TenantID = ''t1'', qr_FundingMethod = ''ach'',
     qr_SourceCurrency = ''USDC'', qr_DestinationCurrency = ''usd'', qr_CurrencyType = ''sender'', qr_AmountMinor = 100,
     qr_CoverFees = False, qr_SourceAccountID = ''src'', qr_DestinationInstrumentID = ''dst''\<rparr>"

theorem payout_quote_requires_profile_witness:
  "\<exists>x wallet metadata. bp_CreatePayoutQuote sample_blindpay sample_surroundings sample_quote_request = Inr x \<and>
     ResolveProviderResource ''t1'' ''src'' ''account'' bp_sample_db = Inr (wallet, metadata) \<and>
     0 < pq_SenderAmountMinor x \<and> 1000 < pq_ExpiresAt x"
proof -
  have "\<exists>x. bp_CreatePayoutQuote sample_blindpay sample_surroundings sample_quote_request = Inr x"
    by (rule not_isl_Inr) code_simp
  then obtain x where x: "bp_CreatePayoutQuote sample_blindpay sample_surroundings sample_quote_request = Inr x" by blast
  have "qs_client (pv_quotes sample_blindpay) =
      api_quote_client (su_json sample_surroundings) (su_http sample_surroundings) (pv_client sample_blindpay)"
    by (simp add: sample_blindpay_def sample_surroundings_def)
  from payout_quote_requires_profile [OF x this] x show ?thesis
    by (auto simp: sample_surroundings_def sample_quote_request_def)
qed

definition direct_request :: CreatePaymentRequest where
  "direct_request = \<lparr>cp_ExternalReference = ''order'', cp_Currency = ''USD'', cp_AmountMinor = 100, cp_TenantID = ''t1'',
     cp_IdempotencyKey = ''key'', cp_QuoteID = '''', cp_FundingMethod = ''bank'', cp_SourceAccountID = ''src'',
     cp_DestinationInstrumentID = ''dst''\<rparr>"

theorem blindpay_direct_payout_refused_witness:
  "\<exists>s' err. payout_CreatePayment (blindpay_payouts sample_blindpay sample_surroundings) sample_env direct_request
       (bp_sample_db\<lparr>quotes := []\<rparr>) = (s', Inl err) \<and> length (quotes s') = 1 \<and> payments s' = payments bp_sample_db"
proof -
  let ?run = "payout_CreatePayment (blindpay_payouts sample_blindpay sample_surroundings) sample_env direct_request
       (bp_sample_db\<lparr>quotes := []\<rparr>)"
  obtain s' x where run: "?run = (s', x)" by fastforce
  have "length (quotes (fst ?run)) = 1" by code_simp
  moreover have "cp_QuoteID direct_request = ''''" by (simp add: direct_request_def)
  moreover have "length (qs_token (pv_quotes sample_blindpay)) \<noteq> 3"
    "TrimSpace (qs_token (pv_quotes sample_blindpay)) = qs_token (pv_quotes sample_blindpay)" by code_simp+
  moreover have "quote_by_key PaymentDirectionPayout t k (bp_sample_db\<lparr>quotes := []\<rparr>) \<noteq> Some q" for t k q
    by (simp add: quote_by_key_def)
  ultimately show ?thesis using blindpay_direct_payout_refused [OF run] run by simp
qed

end
