(* ===== verification/Spec2Isabelle.thy ===== *)
theory Spec2Isabelle
  imports Platform System Blindpay_Quotes
begin

text \<open>
  StableRail is a payment platform in Go over PostgreSQL and Kafka: payouts and pay-ins are created through an
  HTTP API, driven by two sagas through policy, ledger and settlement commands, and reported to the tenants by
  webhooks. This development models the running program, operation by operation, over one explicit database
  state: from the environment variables it starts with, through its HTTP routes and its workers, down to the
  rows and constraints of its tables.

  \<^bold>\<open>The program and the theories.\<close> The paths are below \<^verbatim>\<open>src/\<close>.

  \<^item> \<open>Prelude\<close>: errors as values (\<open>err\<close>, \<open>result\<close>, \<open>bindE\<close>, \<open>foldE\<close>), the clock and random source of a call
    (\<open>env\<close>), the string and JSON functions the sources use, and tables as lists of rows.
  \<^item> \<open>Events\<close> (\<^verbatim>\<open>eventbus/event.go\<close>, \<^verbatim>\<open>schema.go\<close>, \<^verbatim>\<open>topics.go\<close>, \<^verbatim>\<open>versions.go\<close>): the event envelope and its
    validation, and the registry that upcasts payloads.
  \<^item> \<open>Store\<close> (\<^verbatim>\<open>migrations/\<close>): the tables as records, one insert per table that enforces its constraints, and
    the constraints as the invariant \<open>store_ok\<close>.
  \<^item> \<open>Payment_Core\<close> (\<^verbatim>\<open>paymentcore/\<close>, \<^verbatim>\<open>policy/\<close>): execution results, history, the read model, the evaluator.
  \<^item> \<open>Ledger\<close> (\<^verbatim>\<open>ledger/service.go\<close>): the double-entry postings. The Go interface \<^verbatim>\<open>LedgerService\<close> is the locale
    \<open>ledger_service\<close>, interpreted by the PostgreSQL service.
  \<^item> \<open>Saga_Core\<close>, \<open>Payout_Saga\<close>, \<open>Payin_Saga\<close> (\<^verbatim>\<open>paymentcore/payout/coordinator.go\<close>,
    \<^verbatim>\<open>paymentcore/payin/coordinator.go\<close>): transition tables, event handling, operator review, timeout rounds.
    The round is the locale \<open>timeout_round\<close>, interpreted by both coordinators.
  \<^item> \<open>Inbox\<close> (\<^verbatim>\<open>inbox/\<close>, \<^verbatim>\<open>consumer/consumer.go\<close>): deduplication and the consumer loop. The locale
    \<open>event_handler\<close> is the contract of a handler, interpreted by the four handlers of the program.
  \<^item> \<open>Payout_Service\<close>, \<open>Payin_Service\<close> (\<^verbatim>\<open>paymentcore/payout/\<close>, \<^verbatim>\<open>paymentcore/payin/\<close>): quotes, creation,
    execution against a provider, results, refunds.
  \<^item> \<open>Workers\<close> (\<^verbatim>\<open>workers/\<close>): the command handler, the saga handlers, the timeout worker. The locale
    \<open>command_services\<close> is what the handler needs of the services.
  \<^item> \<open>Backoff\<close>, \<open>Outbox\<close> (\<^verbatim>\<open>outbox/relay.go\<close>), \<open>Notification\<close> (\<^verbatim>\<open>notification/webhook.go\<close>): relay and dispatcher;
    the locale \<open>doubling\<close> is their common backoff loop.
  \<^item> \<open>Kafka\<close> (\<^verbatim>\<open>eventbus/kafka.go\<close>): the producer adapter, the message it writes and how a consumer reads it back.
  \<^item> \<open>Reconciliation\<close> (\<^verbatim>\<open>reconciliation/reconciler.go\<close>): findings, discrepancies, resolution.
  \<^item> \<open>Bp_Signature\<close>, \<open>Bp_Webhook\<close> (\<^verbatim>\<open>settlement/blindpay/webhook.go\<close>): signature check, processing and repair of
    the provider's webhooks.
  \<^item> \<open>Platform\<close>: all entry points of the services and workers as steps of one relation on the database.
  \<^item> \<open>Http\<close>: requests, answers, status codes and the JSON decoding that handlers and clients share.
  \<^item> \<open>Api_Keys\<close>, \<open>Payment_Api\<close>, \<open>Webhook_Url\<close>, \<open>Api_Endpoints\<close>, \<open>Operator_Api\<close> (\<^verbatim>\<open>paymentapi/\<close>): API keys, the
    payment handlers, webhook endpoints and the address check behind them, operator and local settlement
    handlers. \<open>Tenancy\<close>: what a request can see and change of other tenants.
  \<^item> \<open>Observability\<close> (\<^verbatim>\<open>observability/http.go\<close>): the counting middleware.
  \<^item> \<open>Server\<close> (\<^verbatim>\<open>cmd/stablerail/main.go\<close>, routes): the multiplexer over all handlers.
  \<^item> \<open>Blindpay_Client\<close>, \<open>Blindpay_Repo\<close>, \<open>Blindpay_Provider\<close>, \<open>Blindpay_Quotes\<close> (\<^verbatim>\<open>settlement/blindpay/\<close>): the API
    client, the table of references, the provider and its quotes. The locale \<open>settlement_provider\<close> is the
    contract of a provider, interpreted by BlindPay and, in \<open>Mock_Provider\<close> (\<^verbatim>\<open>settlement/provider.go\<close>), by the
    mock provider through its locale \<open>mock_state\<close>.
  \<^item> \<open>App_Config\<close> (\<^verbatim>\<open>app/config.go\<close>): the configuration read from the environment. \<open>App_Runtime\<close>
    (\<^verbatim>\<open>cmd/stablerail/main.go\<close>): the wiring of the process, every constructor that may refuse included.
    \<open>App_Run\<close> (\<^verbatim>\<open>app/runtime.go\<close>): the process that serves and shuts down, as a step relation.
  \<^item> \<open>System\<close>: the wired server and its workers as steps of one relation on the database and the key table;
    the locale \<open>side_handler\<close> is what its handlers outside the database keep.

  \<^bold>\<open>The model.\<close> The state is the record \<open>db\<close>. A transaction is a function to \<open>db result\<close>; an error
  is a rollback. An operation that commits before it fails, or that writes outside its caller's transaction,
  returns the database beside its result. Clock readings and random draws are arguments. Providers, policy
  evaluators, the event producer, HTTP endpoints, the JSON, URL and duration parsers and message authentication
  codes are arguments of the definitions that use them, and the theorems hold for every one of them, or under
  a named law of them. \<^verbatim>\<open>SKIP LOCKED\<close> is a predicate that says which rows another transaction holds. Times and
  durations are integers in nanoseconds; where 64-bit arithmetic can overflow (the backoff, the age of a
  webhook timestamp) the wrap-around is written out. Loops that run until the process stops are functions over
  the list of rounds they make; the retry loop of a consumer takes fuel, and \<open>Loop_Run\<close> reports when it ends
  without committing. The process itself needs no fuel: \<open>run_step\<close> is a relation with a measure.

  \<^bold>\<open>What the lemmas show.\<close> The books: every posting is a balanced journal, repeating it moves nothing, and no
  step of the platform unbalances or rewrites the ledger (\<open>platform_keeps_books\<close>). The sagas: which states are
  reachable, that finished sagas stay, that timers make progress. Delivery: commands take effect once, the
  relay publishes each aggregate in order, attempts and delays are bounded, webhooks fan out once, and what is
  published is what the handlers get. Money: refunds never exceed their payment, a payout is submitted once,
  creation is idempotent, returns are booked once. Provider webhooks: which signatures pass, payout statuses
  only move forward, what the repair loop settles. Tenants: an issued key authenticates exactly its tenant
  until it is revoked, a tenant's request reads and writes only what is the tenant's, no operator path opens
  without the token, every answer is well formed, and which webhook URLs are accepted. Providers: a payout is
  finally refused only on a definite answer, quotes need an approved profile, the mock provider is idempotent.
  The process: which environments start, that \<open>Run\<close> ends, and that the wired system, from the requests it
  gets to the workers it runs, keeps the invariant of database and key table (\<open>system_invariant\<close>).

  \<^bold>\<open>Not modelled.\<close> Database and network failures (a query either gives its answer or violates a constraint; an
  HTTP call of the BlindPay client may fail, and that is an outcome), nil transactions, context cancellation
  inside a call, and isolation anomalies between concurrent transactions: a step is atomic. JSONB is kept as it
  was written, so the reordering and deduplication of keys by PostgreSQL is not seen; time zones and
  \<^verbatim>\<open>time.Time\<close> formatting are not seen either. The consumer's Kafka reader (\<^verbatim>\<open>consumer/kafka.go\<close>), the migrations
  runner and the connection pool are calls of third-party clients, and logging has no effect the model could
  show. Workers and server run as interleaved atomic steps; that a worker is nil when the process starts ends
  \<open>Run\<close> early, without waiting for the ones already started, and that leak is not followed further. The
  end-to-end test environment (\<^verbatim>\<open>e2e/\<close>) is not part of the program.
\<close>

subsection \<open>The ledger under every step of the platform\<close>

text \<open>
  C1: No sequence of platform steps, whatever requests, events, commands, timers, webhooks and operator
  actions it is made of, and whatever the providers answer, unbalances the books or rewrites them: the
  store constraints and the double-entry invariant are kept, journals and entries are only appended, and in
  every currency the balances of the two accounts add up to zero.
\<close>
theorem platform_keeps_books:
  assumes "platform_step\<^sup>*\<^sup>* s s'" and "ledger_ok s"
  shows "ledger_ok s' \<and> prefix (journals s) (journals s') \<and> prefix (entries s) (entries s') \<and>
    (\<forall>c. balance CashOperatingAccount c s' + balance SettlementAccount c s' = 0)"
  using platform_run_books [OF assms(1)] assms(2) trial_balance
  by (auto simp: books_step_def ledger_extends_def)

theorem platform_keeps_books_witness:
  "\<exists>s'. platform_step\<^sup>*\<^sup>* (sample_db PaymentStatusCreated) s' \<and> length (journals s') = 1 \<and>
     balance CashOperatingAccount ''USD'' s' + balance SettlementAccount ''USD'' s' = 0"
proof -
  let ?run = "Process None ''w'' sample_handler sample_env (sample_command ''ledger.reserve'') (sample_db PaymentStatusCreated)"
  have "length (journals (fst ?run)) = 1" by code_simp
  moreover obtain s' r where run: "?run = (s', r)" by fastforce
  then have "platform_step (sample_db PaymentStatusCreated) s'"
    unfolding sample_handler_def by (rule platform_step.command)
  then have steps: "platform_step\<^sup>*\<^sup>* (sample_db PaymentStatusCreated) s'" by (rule r_into_rtranclp)
  moreover have "length (journals s') = 1" using calculation run by simp
  ultimately show ?thesis using platform_keeps_books [OF steps sample_db_ok] by blast
qed

end
